(* ===== verification/Text.thy ===== *)
theory Text
  imports Prelude "HOL-Library.Monad_Syntax"
begin

text \<open>
  The parts of Go's \<open>unicode/utf8\<close>, \<open>strings\<close>, \<open>strconv\<close>, \<open>regexp\<close>, \<open>encoding/hex\<close> and
  \<open>time\<close> that the chaincode uses, on byte strings: runes, decimal integers, the four
  regular expressions of \<open>validation.go\<close> and \<open>evidence.go\<close>, and the two date layouts.
\<close>

subsection \<open>Bytes\<close>

abbreviation byte :: "char \<Rightarrow> nat" where
  "byte c \<equiv> of_char c"

definition is_ascii :: "char \<Rightarrow> bool" where
  "is_ascii c \<longleftrightarrow> byte c < 128"

definition is_digit :: "char \<Rightarrow> bool" where
  "is_digit c \<longleftrightarrow> 48 \<le> byte c \<and> byte c \<le> 57"

definition is_upper :: "char \<Rightarrow> bool" where
  "is_upper c \<longleftrightarrow> 65 \<le> byte c \<and> byte c \<le> 90"

definition is_hex :: "char \<Rightarrow> bool" where
  "is_hex c \<longleftrightarrow> is_digit c \<or> 97 \<le> byte c \<and> byte c \<le> 102"

definition is_control :: "char \<Rightarrow> bool" where
  "is_control c \<longleftrightarrow> byte c < 32"

definition printable :: "char \<Rightarrow> bool" where
  "printable c \<longleftrightarrow> 32 \<le> byte c \<and> byte c \<le> 126"

definition digit_val :: "char \<Rightarrow> int" where
  "digit_val c = int (byte c) - 48"

lemma is_ascii_code [code]: "is_ascii (Char b0 b1 b2 b3 b4 b5 b6 b7) \<longleftrightarrow> \<not> b7"
  by (simp add: is_ascii_def of_char_def;
      cases b7; cases b6; cases b5; cases b4; cases b3; cases b2; cases b1; cases b0; simp)

lemma is_digit_code [code]:
  "is_digit (Char b0 b1 b2 b3 b4 b5 b6 b7) \<longleftrightarrow>
     \<not> b7 \<and> \<not> b6 \<and> b5 \<and> b4 \<and> \<not> (b3 \<and> (b2 \<or> b1))"
  by (simp add: is_digit_def of_char_def;
      cases b7; cases b6; cases b5; cases b4; cases b3; cases b2; cases b1; cases b0; simp)

lemma is_upper_code [code]:
  "is_upper (Char b0 b1 b2 b3 b4 b5 b6 b7) \<longleftrightarrow>
     \<not> b7 \<and> b6 \<and> \<not> b5 \<and> (b4 \<or> b3 \<or> b2 \<or> b1 \<or> b0) \<and> \<not> (b4 \<and> b3 \<and> (b2 \<or> b1 \<and> b0))"
  by (simp add: is_upper_def of_char_def;
      cases b7; cases b6; cases b5; cases b4; cases b3; cases b2; cases b1; cases b0; simp)

lemma is_hex_code [code]:
  "is_hex (Char b0 b1 b2 b3 b4 b5 b6 b7) \<longleftrightarrow>
     \<not> b7 \<and> b5 \<and> (\<not> b6 \<and> b4 \<and> \<not> (b3 \<and> (b2 \<or> b1))
       \<or> b6 \<and> \<not> b4 \<and> \<not> b3 \<and> (b2 \<or> b1 \<or> b0) \<and> \<not> (b2 \<and> b1 \<and> b0))"
  by (simp add: is_hex_def is_digit_def of_char_def;
      cases b7; cases b6; cases b5; cases b4; cases b3; cases b2; cases b1; cases b0; simp)

lemma is_control_code [code]:
  "is_control (Char b0 b1 b2 b3 b4 b5 b6 b7) \<longleftrightarrow> \<not> b7 \<and> \<not> b6 \<and> \<not> b5"
  by (simp add: is_control_def of_char_def;
      cases b7; cases b6; cases b5; cases b4; cases b3; cases b2; cases b1; cases b0; simp)

lemma printable_code [code]:
  "printable (Char b0 b1 b2 b3 b4 b5 b6 b7) \<longleftrightarrow>
     \<not> b7 \<and> (b6 \<or> b5) \<and> \<not> (b6 \<and> b5 \<and> b4 \<and> b3 \<and> b2 \<and> b1 \<and> b0)"
  by (simp add: printable_def of_char_def;
      cases b7; cases b6; cases b5; cases b4; cases b3; cases b2; cases b1; cases b0; simp)

lemma printable_ascii: "printable c \<Longrightarrow> is_ascii c"
  by (simp add: printable_def is_ascii_def)

lemma printable_not_control: "printable c \<Longrightarrow> \<not> is_control c"
  by (simp add: printable_def is_control_def)

lemma is_upper_printable: "is_upper c \<Longrightarrow> printable c"
  by (simp add: is_upper_def printable_def)

lemma is_hex_printable: "is_hex c \<Longrightarrow> printable c"
  by (auto simp: is_hex_def is_digit_def printable_def)

lemma is_digit_printable: "is_digit c \<Longrightarrow> printable c"
  by (simp add: is_digit_def printable_def)

subsection \<open>Runes (\<open>unicode/utf8\<close>)\<close>

text \<open>
  \<open>runes s\<close> lists what Go's \<open>for _, r := range s\<close> visits: each code point with the bytes it
  was read from.  An invalid byte is visited alone, as the rune error U+FFFD.
\<close>

definition rune_error :: int where
  "rune_error = 65533"

definition cont :: "char \<Rightarrow> bool" where
  "cont c \<longleftrightarrow> 128 \<le> byte c \<and> byte c \<le> 191"

definition rune2 :: "char \<Rightarrow> char \<Rightarrow> bool" where
  "rune2 a b \<longleftrightarrow> 194 \<le> byte a \<and> byte a \<le> 223 \<and> cont b"

definition rune3 :: "char \<Rightarrow> char \<Rightarrow> char \<Rightarrow> bool" where
  "rune3 a b c \<longleftrightarrow> 224 \<le> byte a \<and> byte a \<le> 239 \<and> cont b \<and> cont c
     \<and> (byte a = 224 \<longrightarrow> 160 \<le> byte b) \<and> (byte a = 237 \<longrightarrow> byte b \<le> 159)"

definition rune4 :: "char \<Rightarrow> char \<Rightarrow> char \<Rightarrow> char \<Rightarrow> bool" where
  "rune4 a b c d \<longleftrightarrow> 240 \<le> byte a \<and> byte a \<le> 244 \<and> cont b \<and> cont c \<and> cont d
     \<and> (byte a = 240 \<longrightarrow> 144 \<le> byte b) \<and> (byte a = 244 \<longrightarrow> byte b \<le> 143)"

fun runes :: "bytes \<Rightarrow> (int \<times> bytes) list" where
  "runes [] = []"
| "runes (a # s) =
     (if is_ascii a then (int (byte a), [a]) # runes s
      else case s of
        [] \<Rightarrow> [(rune_error, [a])]
      | b # s2 \<Rightarrow>
          if rune2 a b
          then ((int (byte a) - 192) * 64 + (int (byte b) - 128), [a, b]) # runes s2
          else (case s2 of
            [] \<Rightarrow> (rune_error, [a]) # runes s
          | c # s3 \<Rightarrow>
              if rune3 a b c
              then ((int (byte a) - 224) * 4096 + (int (byte b) - 128) * 64 + (int (byte c) - 128),
                     [a, b, c]) # runes s3
              else (case s3 of
                [] \<Rightarrow> (rune_error, [a]) # runes s
              | d # s4 \<Rightarrow>
                  if rune4 a b c d
                  then ((int (byte a) - 240) * 262144 + (int (byte b) - 128) * 4096
                          + (int (byte c) - 128) * 64 + (int (byte d) - 128),
                        [a, b, c, d]) # runes s4
                  else (rune_error, [a]) # runes s)))"

definition utf8_valid :: "bytes \<Rightarrow> bool" where
  "utf8_valid s \<longleftrightarrow> list_all (\<lambda>(r, bs). \<not> (r = rune_error \<and> length bs = 1)) (runes s)"

text \<open>What \<open>encoding/json\<close> does to text: every invalid byte becomes U+FFFD.\<close>

definition coerce_utf8 :: "bytes \<Rightarrow> bytes" where
  "coerce_utf8 s = concat (map (\<lambda>(r, bs).
     if r = rune_error then [CHR 0xEF, CHR 0xBF, CHR 0xBD] else bs) (runes s))"

definition rune_count :: "bytes \<Rightarrow> int" where
  "rune_count s = len (runes s)"

definition encode_rune :: "int \<Rightarrow> bytes" where
  "encode_rune r =
     (if r < 128 then [char_of (nat r)]
      else if r < 2048 then [char_of (nat (192 + r div 64)), char_of (nat (128 + r mod 64))]
      else if r < 65536 then
        [char_of (nat (224 + r div 4096)), char_of (nat (128 + r div 64 mod 64)),
         char_of (nat (128 + r mod 64))]
      else
        [char_of (nat (240 + r div 262144)), char_of (nat (128 + r div 4096 mod 64)),
         char_of (nat (128 + r div 64 mod 64)), char_of (nat (128 + r mod 64))])"

text \<open>\<open>unicode.IsSpace\<close>, and \<open>strings.TrimSpace(s) == ""\<close>.\<close>

definition unicode_space :: "int \<Rightarrow> bool" where
  "unicode_space r \<longleftrightarrow> 9 \<le> r \<and> r \<le> 13 \<or> r = 32 \<or> r = 133 \<or> r = 160 \<or> r = 5760
     \<or> 8192 \<le> r \<and> r \<le> 8202 \<or> r = 8232 \<or> r = 8233 \<or> r = 8239 \<or> r = 8287 \<or> r = 12288"

definition blank :: "bytes \<Rightarrow> bool" where
  "blank s \<longleftrightarrow> list_all (\<lambda>(r, bs). unicode_space r) (runes s)"

lemma runes_ascii:
  "list_all is_ascii s \<Longrightarrow> runes s = map (\<lambda>c. (int (byte c), [c])) s"
  by (induction s) auto

lemma coerce_ascii: "list_all is_ascii s \<Longrightarrow> coerce_utf8 s = s"
  by (induction s) (auto simp: coerce_utf8_def is_ascii_def rune_error_def)

lemma utf8_valid_ascii: "list_all is_ascii s \<Longrightarrow> utf8_valid s"
  by (auto simp: utf8_valid_def runes_ascii list_all_iff is_ascii_def rune_error_def)


subsection \<open>Decimal integers (\<open>strconv\<close>)\<close>

lemma digit_val_code [code]:
  "digit_val (Char b0 b1 b2 b3 b4 b5 b6 b7) =
     (if b0 then 1 else 0) + (if b1 then 2 else 0) + (if b2 then 4 else 0) + (if b3 then 8 else 0)
     + (if b4 then 16 else 0) + (if b5 then 32 else 0) + (if b6 then 64 else 0)
     + (if b7 then 128 else 0) - 48"
  by (simp add: digit_val_def of_char_def)

definition digit_char :: "int \<Rightarrow> char" where
  "digit_char d = ''0123456789'' ! nat d"

fun parse_digits :: "int \<Rightarrow> bytes \<Rightarrow> int option" where
  "parse_digits acc [] = Some acc"
| "parse_digits acc (c # s) =
     (if is_digit c then parse_digits (acc * 10 + digit_val c) s else None)"

text \<open>
  \<open>strconv.ParseInt(s, 10, bits)\<close>: an optional sign, at least one digit, and the value in
  range; \<open>None\<close> stands for every error.  \<open>strconv.Atoi\<close> is the 64-bit instance.
\<close>

definition ParseInt :: "nat \<Rightarrow> bytes \<Rightarrow> int option" where
  "ParseInt bits s =
     (case s of
       [] \<Rightarrow> None
     | c # t \<Rightarrow>
         let neg = (c = CHR ''-'');
             u = (if c = CHR ''+'' \<or> c = CHR ''-'' then t else s)
         in if u = [] then None
            else case parse_digits 0 u of
              None \<Rightarrow> None
            | Some n \<Rightarrow>
                if neg then (if n \<le> 2 ^ (bits - 1) then Some (- n) else None)
                else (if n < 2 ^ (bits - 1) then Some n else None))"

definition Atoi :: "bytes \<Rightarrow> int option" where
  "Atoi s = ParseInt 64 s"

text \<open>\<open>strconv.FormatInt(i, 10)\<close> and \<open>fmt.Sprintf("%010d", i)\<close>.\<close>

function format_uint :: "int \<Rightarrow> bytes" where
  "format_uint n = (if n < 10 then [digit_char n] else format_uint (n div 10) @ [digit_char (n mod 10)])"
  by pat_completeness auto
termination
  by (relation "measure nat") auto

declare format_uint.simps [simp del]

definition FormatInt :: "int \<Rightarrow> bytes" where
  "FormatInt i = (if i < 0 then CHR ''-'' # format_uint (- i) else format_uint i)"

definition format_padded :: "int \<Rightarrow> bytes" where
  "format_padded i =
     (let d = format_uint \<bar>i\<bar>; width = (if i < 0 then 9 else 10)
      in (if i < 0 then ''-'' else []) @ replicate (width - length d) (CHR ''0'') @ d)"

lemma digit_char_cases:
  "0 \<le> d \<Longrightarrow> d < 10 \<Longrightarrow> d \<in> {0, 1, 2, 3, 4, 5, 6, 7, 8, 9}" for d :: int
  by (simp only: insert_iff empty_iff) presburger

lemma digit_char_props:
  assumes "0 \<le> d" "d < 10"
  shows "is_digit (digit_char d)" "digit_val (digit_char d) = d"
  using digit_char_cases [OF assms]
  by (auto simp: digit_char_def is_digit_def digit_val_def numeral_eq_Suc)

lemma parse_digits_append:
  "parse_digits acc (s @ t) = Option.bind (parse_digits acc s) (\<lambda>a. parse_digits a t)"
  by (induction s arbitrary: acc) auto

lemma format_uint_nonempty [simp]: "format_uint n \<noteq> []"
  by (subst format_uint.simps) simp

lemma format_uint_digits: "0 \<le> n \<Longrightarrow> list_all is_digit (format_uint n)"
proof (induction n rule: format_uint.induct)
  case (1 n)
  then show ?case
    by (subst format_uint.simps) (auto simp: digit_char_props)
qed

lemma parse_format_uint: "0 \<le> n \<Longrightarrow> parse_digits 0 (format_uint n) = Some n"
proof (induction n rule: format_uint.induct)
  case (1 n)
  show ?case
  proof (cases "n < 10")
    case True
    with "1.prems" show ?thesis
      by (subst format_uint.simps) (simp add: digit_char_props)
  next
    case False
    with 1 have "parse_digits 0 (format_uint (n div 10)) = Some (n div 10)" by simp
    with False show ?thesis
      by (subst format_uint.simps) (simp add: parse_digits_append digit_char_props)
  qed
qed

lemma format_uint_hd:
  assumes "0 \<le> n"
  shows "is_digit (hd (format_uint n))"
  using format_uint_digits [OF assms] format_uint_nonempty [of n]
  by (cases "format_uint n") auto

text \<open>Formatting and parsing are inverse on the whole range of the width.\<close>

lemma parse_format_int:
  assumes "- (2 ^ (bits - 1)) \<le> i" "i < 2 ^ (bits - 1)"
  shows "ParseInt bits (FormatInt i) = Some i"
proof (cases "i < 0")
  case True
  with assms parse_format_uint [of "- i"] show ?thesis
    by (simp add: FormatInt_def ParseInt_def)
next
  case False
  then obtain c t where f: "format_uint i = c # t" "is_digit c"
    using format_uint_hd [of i] format_uint_nonempty [of i] by (cases "format_uint i") auto
  have "c \<noteq> CHR ''-''" "c \<noteq> CHR ''+''" using f(2) by (auto simp: is_digit_def)
  with False f assms parse_format_uint [of i] show ?thesis
    by (simp add: FormatInt_def ParseInt_def)
qed

lemma digits_printable: "list_all is_digit s \<Longrightarrow> list_all printable s"
  by (auto simp: list_all_iff is_digit_printable)

lemma FormatInt_printable: "list_all printable (FormatInt i)"
  using format_uint_digits [of i] format_uint_digits [of "- i"]
  by (auto simp: FormatInt_def printable_def digits_printable)

subsection \<open>Prefixes (\<open>strings.HasPrefix\<close>)\<close>

definition HasPrefix :: "bytes \<Rightarrow> bytes \<Rightarrow> bool" where
  "HasPrefix s p \<longleftrightarrow> take (length p) s = p"

lemma HasPrefix_iff: "HasPrefix s p \<longleftrightarrow> (\<exists>t. s = p @ t)"
  by (metis HasPrefix_def append_eq_conv_conj append_take_drop_id)

subsection \<open>Regular expressions\<close>

text \<open>
  \<open>match_identifier\<close>: one or more capitals, a hyphen, 8 to 32 capitals or digits.
  \<open>integer\<close>: zero, or an optional minus and digits without a leading zero.
  \<open>match_hexID\<close>: 64 lower-case hexadecimal digits.  \<open>match_reference\<close>: 1 to 64 capitals, digits or
  underscores.  Without the flag \<open>(?m)\<close> Go's \<open>$\<close> is the end of the text.
\<close>

definition upnum :: "char \<Rightarrow> bool" where
  "upnum c \<longleftrightarrow> is_upper c \<or> is_digit c"

definition match_identifier :: "bytes \<Rightarrow> bool" where
  "match_identifier s \<longleftrightarrow> takeWhile is_upper s \<noteq> [] \<and>
     (case dropWhile is_upper s of
       [] \<Rightarrow> False
     | c # t \<Rightarrow> c = CHR ''-'' \<and> 8 \<le> len t \<and> len t \<le> 32 \<and> list_all upnum t)"

definition nonzero_digits :: "bytes \<Rightarrow> bool" where
  "nonzero_digits s \<longleftrightarrow>
     (case s of [] \<Rightarrow> False | c # t \<Rightarrow> is_digit c \<and> c \<noteq> CHR ''0'' \<and> list_all is_digit t)"

definition match_integer :: "bytes \<Rightarrow> bool" where
  "match_integer s \<longleftrightarrow> s = ''0'' \<or> nonzero_digits s
     \<or> (case s of [] \<Rightarrow> False | c # t \<Rightarrow> c = CHR ''-'' \<and> nonzero_digits t)"

definition match_hexID :: "bytes \<Rightarrow> bool" where
  "match_hexID s \<longleftrightarrow> len s = 64 \<and> list_all is_hex s"

definition match_reference :: "bytes \<Rightarrow> bool" where
  "match_reference s \<longleftrightarrow> 1 \<le> len s \<and> len s \<le> 64 \<and> list_all (\<lambda>c. upnum c \<or> c = CHR ''_'') s"

lemma upnum_printable: "upnum c \<Longrightarrow> printable c"
  by (auto simp: upnum_def is_upper_printable is_digit_printable)

lemma identifier_printable: "match_identifier s \<Longrightarrow> list_all printable s"
proof -
  assume id: "match_identifier s"
  have "list_all printable (takeWhile is_upper s)"
    by (auto simp: list_all_iff dest!: set_takeWhileD is_upper_printable)
  moreover have "printable (CHR ''-'')" by (simp add: printable_def)
  then have "list_all printable (dropWhile is_upper s)"
    using id by (auto simp: match_identifier_def list_all_iff upnum_printable split: list.splits)
  ultimately have "list_all printable (takeWhile is_upper s @ dropWhile is_upper s)"
    by (simp only: list_all_append)
  then show ?thesis by simp
qed

lemma hexID_printable: "match_hexID s \<Longrightarrow> list_all printable s"
  by (auto simp: match_hexID_def list_all_iff is_hex_printable)

text \<open>\<open>FormatInt\<close> writes exactly the integers that \<open>integer\<close> accepts.\<close>

lemma format_uint_nonzero:
  "0 < n \<Longrightarrow> nonzero_digits (format_uint n)"
proof (induction n rule: format_uint.induct)
  case (1 n)
  show ?case
  proof (cases "n < 10")
    case True
    have "n \<in> {1, 2, 3, 4, 5, 6, 7, 8, 9}" using True "1.prems" by auto
    then show ?thesis
      by (subst format_uint.simps)
        (auto simp: digit_char_def nonzero_digits_def is_digit_def numeral_eq_Suc)
  next
    case False
    with 1 have "nonzero_digits (format_uint (n div 10))" by simp
    with False show ?thesis
      by (subst format_uint.simps)
        (auto simp: nonzero_digits_def digit_char_props split: list.splits)
  qed
qed

lemma match_integer_FormatInt: "match_integer (FormatInt i)"
proof -
  consider "i < 0" | "i = 0" | "0 < i" by linarith
  then show ?thesis
  proof cases
    case 1
    then show ?thesis using format_uint_nonzero [of "- i"] by (simp add: match_integer_def FormatInt_def)
  next
    case 2
    then show ?thesis
      by (simp add: match_integer_def FormatInt_def format_uint.simps digit_char_def)
  next
    case 3
    then show ?thesis using format_uint_nonzero [of i] by (simp add: match_integer_def FormatInt_def)
  qed
qed

end
