(* ===== verification/Utf8.thy ===== *)
theory Utf8
  imports Text
begin

text \<open>
  Valid UTF-8 as a language: a text is valid when it is a sequence of encoded code points.
  Concatenation keeps validity, and \<open>coerce_utf8\<close>, what \<open>encoding/json\<close> does to every text
  it reads or writes, is a projection onto the valid texts.
\<close>

subsection \<open>Encoded code points\<close>

text \<open>The encoding of one code point, and a text made of such encodings.\<close>

inductive chunk :: "bytes \<Rightarrow> bool" where
  one: "is_ascii a \<Longrightarrow> chunk [a]"
| two: "\<not> is_ascii a \<Longrightarrow> rune2 a b \<Longrightarrow> chunk [a, b]"
| three: "\<not> is_ascii a \<Longrightarrow> \<not> rune2 a b \<Longrightarrow> rune3 a b c \<Longrightarrow> chunk [a, b, c]"
| four: "\<not> is_ascii a \<Longrightarrow> \<not> rune2 a b \<Longrightarrow> \<not> rune3 a b c \<Longrightarrow> rune4 a b c d \<Longrightarrow> chunk [a, b, c, d]"

inductive valid_text :: "bytes \<Rightarrow> bool" where
  empty: "valid_text []"
| more: "chunk bs \<Longrightarrow> valid_text t \<Longrightarrow> valid_text (bs @ t)"

lemma byte_range: "byte c < 256"
  by simp

lemma cont_range: "cont c \<Longrightarrow> 0 \<le> int (byte c) - 128 \<and> int (byte c) - 128 < 64"
  by (simp add: cont_def)

lemma three_bytes:
  fixes x y z :: int
  assumes "(x - 224) * 4096 + (y - 128) * 64 + (z - 128) = 65533"
    and "x \<le> 239" "y \<le> 191" "z \<le> 191" "128 \<le> y" "128 \<le> z"
  shows "x = 239 \<and> y = 191 \<and> z = 189"
proof -
  have "4096 * x + 64 * y + z = 991357" using assms(1) by simp
  moreover have "\<not> x \<le> 238" using calculation assms(3,4) by linarith
  then have x: "x = 239" using assms(2) by linarith
  ultimately have "\<not> y \<le> 190" using assms(4) by linarith
  then have "y = 191" using assms(3) by linarith
  then show ?thesis using x assms(1) by simp
qed

lemma four_bytes:
  fixes x y z w :: int
  assumes "240 \<le> x" "128 \<le> y" "128 \<le> z" "128 \<le> w" "x = 240 \<longrightarrow> 144 \<le> y"
  shows "(x - 240) * 262144 + (y - 128) * 4096 + (z - 128) * 64 + (w - 128) \<noteq> 65533"
  using assms by (cases "x = 240") auto

text \<open>A chunk is visited whole, and is the replacement character only if it is its encoding.\<close>

lemma runes_chunk:
  assumes "chunk bs"
  shows "\<exists>r. (\<forall>t. runes (bs @ t) = (r, bs) # runes t) \<and> (r = rune_error \<longrightarrow> bs = [CHR 0xEF, CHR 0xBF, CHR 0xBD])"
  using assms
proof cases
  case (one a)
  then show ?thesis by (intro exI [of _ "int (byte a)"]) (simp add: is_ascii_def rune_error_def)
next
  case (two a b)
  let ?r = "(int (byte a) - 192) * 64 + (int (byte b) - 128)"
  have "?r \<noteq> rune_error" using two by (auto simp: rune2_def cont_def rune_error_def)
  then show ?thesis using two by (intro exI [of _ ?r]) simp
next
  case (three a b c)
  let ?r = "(int (byte a) - 224) * 4096 + (int (byte b) - 128) * 64 + (int (byte c) - 128)"
  have "byte a = 239 \<and> byte b = 191 \<and> byte c = 189" if "?r = rune_error"
    using three_bytes [OF that [unfolded rune_error_def]] three by (simp add: rune3_def cont_def)
  moreover have "a = CHR 0xEF \<and> b = CHR 0xBF \<and> c = CHR 0xBD" if "byte a = 239 \<and> byte b = 191 \<and> byte c = 189"
  proof -
    have "a = char_of (byte a)" "b = char_of (byte b)" "c = char_of (byte c)" by simp_all
    then show ?thesis unfolding that [THEN conjunct1] that [THEN conjunct2, THEN conjunct1]
      that [THEN conjunct2, THEN conjunct2] by (simp add: char_of_def bit_0)
  qed
  ultimately show ?thesis using three by (intro exI [of _ ?r]) simp
next
  case (four a b c d)
  let ?r = "(int (byte a) - 240) * 262144 + (int (byte b) - 128) * 4096 + (int (byte c) - 128) * 64 + (int (byte d) - 128)"
  have "?r \<noteq> rune_error"
    unfolding rune_error_def by (rule four_bytes) (use four in \<open>auto simp: rune4_def cont_def\<close>)
  then show ?thesis using four by (intro exI [of _ ?r]) simp
qed

lemma runes_split:
  obtains (empty) "s = []"
  | (chunk) bs t where "s = bs @ t" "chunk bs"
  | (invalid) a t where "s = a # t" "runes s = (rune_error, [a]) # runes t"
proof (cases s)
  case (Cons a t)
  show thesis
  proof (cases "is_ascii a")
    case True
    then show thesis using chunk [of "[a]" t] Cons by (simp add: chunk.one)
  next
    case a: False
    show thesis
    proof (cases t)
      case Nil
      then show thesis using invalid Cons a by simp
    next
      case t: (Cons b u)
      show thesis
      proof (cases "rune2 a b")
        case True
        then show thesis using chunk [of "[a, b]" u] Cons t a by (simp add: chunk.two)
      next
        case ab: False
        show thesis
        proof (cases u)
          case Nil
          then show thesis using invalid [of a t] Cons t a ab by simp
        next
          case u: (Cons c v)
          show thesis
          proof (cases "rune3 a b c")
            case True
            then show thesis using chunk [of "[a, b, c]" v] Cons t u a ab by (simp add: chunk.three)
          next
            case abc: False
            show thesis
            proof (cases v)
              case Nil
              then show thesis using invalid [of a t] Cons t u a ab abc by simp
            next
              case v: (Cons d w)
              show thesis
              proof (cases "rune4 a b c d")
                case True
                then show thesis using chunk [of "[a, b, c, d]" w] Cons t u v a ab abc by (simp add: chunk.four)
              next
                case False
                then show thesis using invalid [of a t] Cons t u v a ab abc by simp
              qed
            qed
          qed
        qed
      qed
    qed
  qed
qed (rule empty)

lemma chunk_nonempty: "chunk bs \<Longrightarrow> bs \<noteq> []"
  by (auto elim: chunk.cases)

lemma utf8_valid_iff: "utf8_valid s \<longleftrightarrow> valid_text s"
proof
  show "utf8_valid s \<Longrightarrow> valid_text s"
  proof (induction "length s" arbitrary: s rule: less_induct)
    case less
    show ?case
    proof (cases s rule: runes_split)
      case empty
      then show ?thesis by (simp add: valid_text.empty)
    next
      case (chunk bs t)
      obtain r where "runes s = (r, bs) # runes t" using runes_chunk [OF chunk(2)] chunk(1) by blast
      then have "utf8_valid t" using less.prems by (simp add: utf8_valid_def)
      then show ?thesis using less.hyps [of t] chunk chunk_nonempty by (auto intro: valid_text.more)
    next
      case (invalid a t)
      then show ?thesis using less.prems by (simp add: utf8_valid_def)
    qed
  qed
  show "valid_text s \<Longrightarrow> utf8_valid s"
  proof (induction rule: valid_text.induct)
    case (more bs t)
    obtain r where "runes (bs @ t) = (r, bs) # runes t" "r = rune_error \<longrightarrow> bs = [CHR 0xEF, CHR 0xBF, CHR 0xBD]"
      using runes_chunk [OF more(1)] by blast
    then show ?case using more(3) by (auto simp: utf8_valid_def)
  qed (simp add: utf8_valid_def)
qed

lemma valid_text_append: "valid_text a \<Longrightarrow> valid_text b \<Longrightarrow> valid_text (a @ b)"
  by (induction rule: valid_text.induct) (auto intro: valid_text.more)

lemma utf8_valid_append: "utf8_valid a \<Longrightarrow> utf8_valid b \<Longrightarrow> utf8_valid (a @ b)"
  by (simp add: utf8_valid_iff valid_text_append)

lemma coerce_valid: "utf8_valid s \<Longrightarrow> coerce_utf8 s = s"
  unfolding utf8_valid_iff
proof (induction rule: valid_text.induct)
  case (more bs t)
  obtain r where "runes (bs @ t) = (r, bs) # runes t" "r = rune_error \<longrightarrow> bs = [CHR 0xEF, CHR 0xBF, CHR 0xBD]"
    using runes_chunk [OF more(1)] by blast
  then show ?case using more(3) by (auto simp: coerce_utf8_def)
qed (simp add: coerce_utf8_def)

lemma replacement_valid: "valid_text [CHR 0xEF, CHR 0xBF, CHR 0xBD]"
  unfolding utf8_valid_iff [symmetric] by code_simp

lemma coerce_utf8_valid: "utf8_valid (coerce_utf8 s)"
  unfolding utf8_valid_iff
proof (induction "length s" arbitrary: s rule: less_induct)
  case less
  show ?case
  proof (cases s rule: runes_split)
    case empty
    then show ?thesis by (simp add: coerce_utf8_def valid_text.empty)
  next
    case (chunk bs t)
    obtain r where r: "runes s = (r, bs) # runes t" using runes_chunk [OF chunk(2)] chunk(1) by blast
    have "valid_text (coerce_utf8 t)" using less [of t] chunk chunk_nonempty by simp
    then show ?thesis
      using r valid_text.more [OF chunk(2)] valid_text_append [OF replacement_valid]
      by (simp add: coerce_utf8_def)
  next
    case (invalid a t)
    have "valid_text (coerce_utf8 t)" using less [of t] invalid by simp
    then show ?thesis using invalid valid_text_append [OF replacement_valid] by (simp add: coerce_utf8_def)
  qed
qed

lemma utf8_valid_ascii_Cons: "is_ascii a \<Longrightarrow> utf8_valid (a # s) \<longleftrightarrow> utf8_valid s"
  by (simp add: utf8_valid_def is_ascii_def rune_error_def)

end
