(* ===== verification/Json.thy ===== *)
theory Json
  imports Utf8
begin

text \<open>
  \<open>encoding/json\<close> as the chaincode uses it: the tree of a JSON text, the parser, the
  printer with HTML escaping off, the key order of Go's map encoder, and the proof that
  printing and parsing are inverse.  A number keeps its text (\<open>json.Number\<close>).
\<close>

datatype jv =
    JObj "(bytes \<times> jv) list"
  | JArr "jv list"
  | JStr bytes
  | JNum bytes
  | JBool bool
  | JNull

subsection \<open>Lexing\<close>

definition is_ws :: "char \<Rightarrow> bool" where
  "is_ws c \<longleftrightarrow> c = CHR '' '' \<or> c = CHR 0x09 \<or> c = CHR 0x0A \<or> c = CHR 0x0D"

definition skip_ws :: "bytes \<Rightarrow> bytes" where
  "skip_ws s = dropWhile is_ws s"

abbreviation quote :: char where "quote \<equiv> CHR 0x22"
abbreviation backslash :: char where "backslash \<equiv> CHR 0x5C"

text \<open>The number grammar: sign, integer part, fraction, exponent.\<close>

definition scan_int :: "bytes \<Rightarrow> (bytes \<times> bytes) option" where
  "scan_int s =
     (case s of
       [] \<Rightarrow> None
     | c # t \<Rightarrow>
         if c = CHR ''0'' then Some ([c], t)
         else if is_digit c then Some (takeWhile is_digit s, dropWhile is_digit s)
         else None)"

definition scan_digits :: "bytes \<Rightarrow> (bytes \<times> bytes) option" where
  "scan_digits s =
     (if takeWhile is_digit s = [] then None
      else Some (takeWhile is_digit s, dropWhile is_digit s))"

definition scan_frac :: "bytes \<Rightarrow> (bytes \<times> bytes) option" where
  "scan_frac s =
     (case s of
       [] \<Rightarrow> Some ([], s)
     | c # t \<Rightarrow>
         if c = CHR ''.'' then map_option (map_prod (Cons c) id) (scan_digits t)
         else Some ([], s))"

definition scan_exp :: "bytes \<Rightarrow> (bytes \<times> bytes) option" where
  "scan_exp s =
     (case s of
       [] \<Rightarrow> Some ([], s)
     | c # t \<Rightarrow>
         if c = CHR ''e'' \<or> c = CHR ''E'' then
           (case t of
             [] \<Rightarrow> None
           | d # u \<Rightarrow>
               if d = CHR ''+'' \<or> d = CHR ''-''
               then map_option (map_prod (\<lambda>ds. c # d # ds) id) (scan_digits u)
               else map_option (map_prod (Cons c) id) (scan_digits t))
         else Some ([], s))"

definition scan_number :: "bytes \<Rightarrow> (bytes \<times> bytes) option" where
  "scan_number s =
     (let (sign, s1) = (case s of
         [] \<Rightarrow> ([], s)
       | c # t \<Rightarrow> if c = CHR ''-'' then ([c], t) else ([], s))
      in do {
        (i, s2) \<leftarrow> scan_int s1;
        (f, s3) \<leftarrow> scan_frac s2;
        (e, s4) \<leftarrow> scan_exp s3;
        Some (sign @ i @ f @ e, s4)
      })"

definition hex_val :: "char \<Rightarrow> int option" where
  "hex_val c =
     (if is_digit c then Some (int (byte c) - 48)
      else if 97 \<le> byte c \<and> byte c \<le> 102 then Some (int (byte c) - 87)
      else if 65 \<le> byte c \<and> byte c \<le> 70 then Some (int (byte c) - 55)
      else None)"

definition hex4 :: "char \<Rightarrow> char \<Rightarrow> char \<Rightarrow> char \<Rightarrow> int option" where
  "hex4 a b c d = do {
     w \<leftarrow> hex_val a; x \<leftarrow> hex_val b; y \<leftarrow> hex_val c; z \<leftarrow> hex_val d;
     Some (w * 4096 + x * 256 + y * 16 + z)
   }"

definition unescape :: "char \<Rightarrow> char option" where
  "unescape e =
     (if e = quote \<or> e = backslash \<or> e = CHR ''/'' then Some e
      else if e = CHR ''b'' then Some (CHR 0x08)
      else if e = CHR ''f'' then Some (CHR 0x0C)
      else if e = CHR ''n'' then Some (CHR 0x0A)
      else if e = CHR ''r'' then Some (CHR 0x0D)
      else if e = CHR ''t'' then Some (CHR 0x09)
      else None)"

definition prepend :: "bytes \<Rightarrow> (bytes \<times> 'a) option \<Rightarrow> (bytes \<times> 'a) option" where
  "prepend p m = map_option (map_prod (\<lambda>s. p @ s) id) m"

definition high_surrogate :: "int \<Rightarrow> bool" where
  "high_surrogate r \<longleftrightarrow> 55296 \<le> r \<and> r \<le> 56319"

definition low_surrogate :: "int \<Rightarrow> bool" where
  "low_surrogate r \<longleftrightarrow> 56320 \<le> r \<and> r \<le> 57343"

text \<open>
  The text of a string after its opening quote.  A lone surrogate escape becomes U+FFFD, a
  surrogate pair one code point.
\<close>

fun parse_string :: "bytes \<Rightarrow> (bytes \<times> bytes) option" where
  "parse_string [] = None"
| "parse_string (c # s) =
     (if c = quote then Some ([], s)
      else if is_control c then None
      else if c = backslash then
        (case s of
          [] \<Rightarrow> None
        | e # t \<Rightarrow>
            if e = CHR ''u'' then
              (case t of
                h1 # h2 # h3 # h4 # u \<Rightarrow>
                  (case hex4 h1 h2 h3 h4 of
                    None \<Rightarrow> None
                  | Some r \<Rightarrow>
                      if high_surrogate r \<or> low_surrogate r then
                        (case u of
                          b # v # i1 # i2 # i3 # i4 # w \<Rightarrow>
                            (case hex4 i1 i2 i3 i4 of
                              Some r2 \<Rightarrow>
                                if b = backslash \<and> v = CHR ''u'' \<and> high_surrogate r \<and> low_surrogate r2
                                then prepend
                                  (encode_rune ((r - 55296) * 1024 + (r2 - 56320) + 65536))
                                  (parse_string w)
                                else prepend (encode_rune rune_error) (parse_string u)
                            | None \<Rightarrow> prepend (encode_rune rune_error) (parse_string u))
                        | _ \<Rightarrow> prepend (encode_rune rune_error) (parse_string u))
                      else prepend (encode_rune r) (parse_string u))
              | _ \<Rightarrow> None)
            else
              (case unescape e of
                None \<Rightarrow> None
              | Some b \<Rightarrow> prepend [b] (parse_string t)))
      else prepend [c] (parse_string s))"

subsection \<open>Parsing\<close>

text \<open>
  A value, the members of an object after its brace, the elements of an array after its
  bracket.  The first argument is fuel: one unit is spent per value and per separator, and
  \<open>json_parse\<close> supplies more than the length of the text, which is enough by
  \<open>parse_value_print\<close>.
\<close>

definition literal :: "bytes \<Rightarrow> jv \<Rightarrow> bytes \<Rightarrow> (jv \<times> bytes) option" where
  "literal w v s = (if take (length w) s = w then Some (v, drop (length w) s) else None)"

fun parse_value :: "nat \<Rightarrow> bytes \<Rightarrow> (jv \<times> bytes) option"
  and parse_members :: "nat \<Rightarrow> bytes \<Rightarrow> ((bytes \<times> jv) list \<times> bytes) option"
  and parse_elems :: "nat \<Rightarrow> bytes \<Rightarrow> (jv list \<times> bytes) option"
where
  "parse_value 0 s = None"
| "parse_value (Suc n) s =
     (case skip_ws s of
       [] \<Rightarrow> None
     | c # t \<Rightarrow>
         if c = CHR ''{'' then
           (case skip_ws t of
             [] \<Rightarrow> None
           | d # u \<Rightarrow>
               if d = CHR ''}'' then Some (JObj [], u)
               else map_option (map_prod JObj id) (parse_members n (d # u)))
         else if c = CHR ''['' then
           (case skip_ws t of
             [] \<Rightarrow> None
           | d # u \<Rightarrow>
               if d = CHR '']'' then Some (JArr [], u)
               else map_option (map_prod JArr id) (parse_elems n (d # u)))
         else if c = quote then map_option (map_prod JStr id) (parse_string t)
         else if c = CHR ''t'' then literal ''true'' (JBool True) (c # t)
         else if c = CHR ''f'' then literal ''false'' (JBool False) (c # t)
         else if c = CHR ''n'' then literal ''null'' JNull (c # t)
         else map_option (map_prod JNum id) (scan_number (c # t)))"
| "parse_members 0 s = None"
| "parse_members (Suc n) s =
     (case skip_ws s of
       [] \<Rightarrow> None
     | c # t \<Rightarrow>
         if c \<noteq> quote then None
         else do {
           (k, u) \<leftarrow> parse_string t;
           (case skip_ws u of
             [] \<Rightarrow> None
           | d # w \<Rightarrow>
               if d \<noteq> CHR '':'' then None
               else do {
                 (v, x) \<leftarrow> parse_value n w;
                 (case skip_ws x of
                   [] \<Rightarrow> None
                 | e # y \<Rightarrow>
                     if e = CHR '','' then map_option (map_prod (Cons (k, v)) id) (parse_members n y)
                     else if e = CHR ''}'' then Some ([(k, v)], y)
                     else None)
               })
         })"
| "parse_elems 0 s = None"
| "parse_elems (Suc n) s = do {
     (v, x) \<leftarrow> parse_value n s;
     (case skip_ws x of
       [] \<Rightarrow> None
     | e # y \<Rightarrow>
         if e = CHR '','' then map_option (map_prod (Cons v) id) (parse_elems n y)
         else if e = CHR '']'' then Some ([v], y)
         else None)
   }"

definition json_parse :: "bytes \<Rightarrow> jv option" where
  "json_parse raw =
     (let s = coerce_utf8 raw in
      case parse_value (Suc (length s)) s of
        None \<Rightarrow> None
      | Some (v, rest) \<Rightarrow> if skip_ws rest = [] then Some v else None)"

subsection \<open>Printing\<close>

definition hex_digit :: "nat \<Rightarrow> char" where
  "hex_digit d = ''0123456789abcdef'' ! d"

definition escape_control :: "char \<Rightarrow> bytes" where
  "escape_control c =
     (if c = CHR 0x08 then backslash # ''b''
      else if c = CHR 0x0C then backslash # ''f''
      else if c = CHR 0x0A then backslash # ''n''
      else if c = CHR 0x0D then backslash # ''r''
      else if c = CHR 0x09 then backslash # ''t''
      else backslash # ''u00'' @ [hex_digit (byte c div 16), hex_digit (byte c mod 16)])"

fun escape :: "bytes \<Rightarrow> bytes" where
  "escape [] = []"
| "escape (c # s) =
     (if c = quote \<or> c = backslash then backslash # c # escape s
      else if is_control c then escape_control c @ escape s
      else case s of
        b # d # t \<Rightarrow>
          if c = CHR 0xE2 \<and> b = CHR 0x80 \<and> (d = CHR 0xA8 \<or> d = CHR 0xA9)
          then backslash # ''u202'' @ (if d = CHR 0xA8 then ''8'' else ''9'') @ escape t
          else c # escape s
      | _ \<Rightarrow> c # escape s)"

definition print_string :: "bytes \<Rightarrow> bytes" where
  "print_string s = quote # escape (coerce_utf8 s) @ [quote]"

fun join :: "bytes list \<Rightarrow> bytes" where
  "join [] = []"
| "join [x] = x"
| "join (x # y # xs) = x @ CHR '','' # join (y # xs)"

fun json_print :: "jv \<Rightarrow> bytes" where
  "json_print (JObj ms) =
     ''{'' @ join (map (\<lambda>(k, v). print_string k @ CHR '':'' # json_print v) ms) @ ''}''"
| "json_print (JArr vs) = ''['' @ join (map json_print vs) @ '']''"
| "json_print (JStr s) = print_string s"
| "json_print (JNum t) = t"
| "json_print (JBool b) = (if b then ''true'' else ''false'')"
| "json_print JNull = ''null''"

text \<open>Go's encoder writes the members of a map in the byte order of their keys.\<close>

fun json_sort :: "jv \<Rightarrow> jv" where
  "json_sort (JObj ms) = JObj (sort_key fst (map (map_prod id json_sort) ms))"
| "json_sort (JArr vs) = JArr (map json_sort vs)"
| "json_sort (JStr s) = JStr s"
| "json_sort (JNum t) = JNum t"
| "json_sort (JBool b) = JBool b"
| "json_sort JNull = JNull"

subsection \<open>Reading back an escaped string\<close>

lemma prepend_simps [simp]:
  "prepend p None = None"
  "prepend p (Some (s, x)) = Some (p @ s, x)"
  by (simp_all add: prepend_def)

lemma prepend_prepend [simp]: "prepend p (prepend q m) = prepend (p @ q) m"
  by (cases m) (auto simp: prepend_def)

lemma parse_string_control:
  assumes "is_control c"
  shows "parse_string (escape_control c @ s) = prepend [c] (parse_string s)"
proof -
  obtain b0 b1 b2 b3 b4 b5 b6 b7 where c: "c = Char b0 b1 b2 b3 b4 b5 b6 b7" by (cases c)
  with assms have "\<not> b7" "\<not> b6" "\<not> b5" by (simp_all add: is_control_code)
  with c show ?thesis
    by (cases b4; cases b3; cases b2; cases b1; cases b0;
        simp add: escape_control_def is_control_code hex4_def hex_val_def is_digit_code hex_digit_def
          high_surrogate_def low_surrogate_def encode_rune_def unescape_def of_char_def char_of_def bit_0)
qed

lemma parse_string_escape: "parse_string (escape s @ quote # rest) = Some (s, rest)"
proof (induction s rule: escape.induct)
  case 1
  show ?case by simp
next
  case (2 c s)
  consider "c = quote \<or> c = backslash" | "\<not> (c = quote \<or> c = backslash)" "is_control c"
    | "\<not> (c = quote \<or> c = backslash)" "\<not> is_control c" by blast
  then show ?case
  proof cases
    case 1
    with 2 show ?thesis by (auto simp: is_control_code unescape_def)
  next
    case c: 2
    with 2(2) show ?thesis by (simp add: parse_string_control)
  next
    case 3
    show ?thesis
    proof (cases "\<exists>b d t. s = b # d # t \<and> c = CHR 0xE2 \<and> b = CHR 0x80 \<and> (d = CHR 0xA8 \<or> d = CHR 0xA9)")
      case True
      then obtain d t where s: "s = CHR 0x80 # d # t" "c = CHR 0xE2" "d = CHR 0xA8 \<or> d = CHR 0xA9"
        by blast
      with 2 3 have "parse_string (escape t @ quote # rest) = Some (t, rest)" by auto
      with s show ?thesis
        by (auto simp: is_control_code hex4_def hex_val_def is_digit_code
            high_surrogate_def low_surrogate_def encode_rune_def of_char_def char_of_def bit_0)
    next
      case False
      then have e: "escape (c # s) = c # escape s"
        using 3 by (auto split: list.splits)
      have "parse_string (escape s @ quote # rest) = Some (s, rest)"
        using 2 3 False by (cases s; cases "tl s") auto
      with e 3 show ?thesis by simp
    qed
  qed
qed


subsection \<open>Printing and parsing are inverse\<close>

definition text_ok :: "bytes \<Rightarrow> bool" where
  "text_ok s \<longleftrightarrow> utf8_valid s"

lemma text_ok_code [code]: "text_ok s \<longleftrightarrow> list_all is_ascii s \<or> utf8_valid s"
  by (auto simp: text_ok_def utf8_valid_ascii)

lemma text_ok_simps [simp]:
  "text_ok []"
  "text_ok (Char b0 b1 b2 b3 b4 b5 b6 False # s) \<longleftrightarrow> text_ok s"
  by (simp_all add: text_ok_def utf8_valid_ascii_Cons is_ascii_code utf8_valid_ascii)

lemma text_ok_ascii: "list_all is_ascii s \<Longrightarrow> text_ok s"
  by (simp add: text_ok_def utf8_valid_ascii)

lemma text_ok_append: "text_ok s \<Longrightarrow> text_ok t \<Longrightarrow> text_ok (s @ t)"
  by (simp add: text_ok_def utf8_valid_append)

fun json_ok :: "jv \<Rightarrow> bool" where
  "json_ok (JObj ms) \<longleftrightarrow> list_all (\<lambda>(k, v). text_ok k \<and> json_ok v) ms"
| "json_ok (JArr vs) \<longleftrightarrow> list_all json_ok vs"
| "json_ok (JStr s) \<longleftrightarrow> text_ok s"
| "json_ok (JNum t) \<longleftrightarrow> match_integer t"
| "json_ok (JBool b) \<longleftrightarrow> True"
| "json_ok JNull \<longleftrightarrow> True"

definition delimited :: "bytes \<Rightarrow> bool" where
  "delimited s \<longleftrightarrow> s = [] \<or> hd s \<in> {CHR '','', CHR '']'', CHR ''}''}"

lemma delimited_simps [simp]:
  "delimited []" "delimited (CHR '','' # s)" "delimited (CHR '']'' # s)" "delimited (CHR ''}'' # s)"
  by (simp_all add: delimited_def)

lemma scan_nonzero_digits:
  assumes "nonzero_digits t" and "delimited rest"
  shows "scan_int (t @ rest) = Some (t, rest)"
proof -
  obtain c u where t: "t = c # u" "is_digit c" "c \<noteq> CHR ''0''" "list_all is_digit u"
    using assms(1) by (auto simp: nonzero_digits_def split: list.splits)
  have "takeWhile is_digit (u @ rest) = u" "dropWhile is_digit (u @ rest) = rest"
    using t(4) assms(2)
    by (induction u; cases rest; auto simp: delimited_def is_digit_code)+
  with t show ?thesis by (simp add: scan_int_def)
qed

lemma scan_rest:
  "delimited rest \<Longrightarrow> scan_frac rest = Some ([], rest)"
  "delimited rest \<Longrightarrow> scan_exp rest = Some ([], rest)"
  by (cases rest; auto simp: scan_frac_def scan_exp_def delimited_def)+

lemma scan_number_integer:
  assumes "match_integer t" and "delimited rest"
  shows "scan_number (t @ rest) = Some (t, rest)"
proof -
  consider "t = ''0''" | "nonzero_digits t" | u where "t = CHR ''-'' # u" "nonzero_digits u"
    using assms(1) by (auto simp: match_integer_def split: list.splits)
  then show ?thesis
  proof cases
    case 1
    with assms(2) show ?thesis by (simp add: scan_number_def scan_int_def scan_rest)
  next
    case 2
    then obtain c u where t: "t = c # u" "is_digit c"
      by (auto simp: nonzero_digits_def split: list.splits)
    then have "c \<noteq> CHR ''-''" by (auto simp: is_digit_code)
    with t 2 assms(2) scan_nonzero_digits [of t rest] show ?thesis
      by (simp add: scan_number_def scan_rest)
  next
    case 3
    with assms(2) scan_nonzero_digits [of u rest] show ?thesis
      by (simp add: scan_number_def scan_rest)
  qed
qed

definition value_start :: "char \<Rightarrow> bool" where
  "value_start c \<longleftrightarrow> c \<in> {CHR ''{'', CHR ''['', quote, CHR ''t'', CHR ''f'', CHR ''n'', CHR ''-''} \<or> is_digit c"

lemma value_start_ws: "value_start c \<Longrightarrow> skip_ws (c # s) = c # s"
  by (auto simp: value_start_def skip_ws_def is_ws_def is_digit_code)

lemma integer_start:
  "match_integer t \<Longrightarrow> \<exists>c u. t = c # u \<and> (is_digit c \<or> c = CHR ''-'')"
  by (auto simp: match_integer_def nonzero_digits_def is_digit_code split: list.splits)

lemma json_print_start: "json_ok v \<Longrightarrow> \<exists>c t. json_print v = c # t \<and> value_start c"
  by (cases v) (auto simp: value_start_def print_string_def dest: integer_start)

lemma skip_ws_print: "json_ok v \<Longrightarrow> skip_ws (json_print v @ s) = json_print v @ s"
  using json_print_start [of v] by (auto simp: value_start_ws)

lemma skip_ws_punct [simp]:
  "skip_ws (CHR '','' # s) = CHR '','' # s" "skip_ws (CHR '':'' # s) = CHR '':'' # s"
  "skip_ws (CHR ''}'' # s) = CHR ''}'' # s" "skip_ws (CHR '']'' # s) = CHR '']'' # s"
  "skip_ws (CHR ''{'' # s) = CHR ''{'' # s" "skip_ws (CHR ''['' # s) = CHR ''['' # s"
  "skip_ws (quote # s) = quote # s"
  by (simp_all add: skip_ws_def is_ws_def)

abbreviation member_text :: "bytes \<times> jv \<Rightarrow> bytes" where
  "member_text \<equiv> \<lambda>(k, v). print_string k @ CHR '':'' # json_print v"

lemma print_string_ok: "text_ok s \<Longrightarrow> print_string s = quote # escape s @ [quote]"
  by (simp add: print_string_def text_ok_def coerce_valid)

text \<open>
  What it means that \<open>n\<close> units of fuel read back every text of at most \<open>n\<close> bytes, for the
  three mutually recursive parsers.
\<close>

definition values_back :: "nat \<Rightarrow> bool" where
  "values_back n \<longleftrightarrow> (\<forall>v rest. json_ok v \<and> delimited rest \<and> length (json_print v) \<le> n
      \<longrightarrow> parse_value n (json_print v @ rest) = Some (v, rest))"

definition members_back :: "nat \<Rightarrow> bool" where
  "members_back n \<longleftrightarrow> (\<forall>ms rest. ms \<noteq> [] \<and> list_all (\<lambda>(k, v). text_ok k \<and> json_ok v) ms
        \<and> length (join (map member_text ms)) < n
      \<longrightarrow> parse_members n (join (map member_text ms) @ CHR ''}'' # rest) = Some (ms, rest))"

definition elems_back :: "nat \<Rightarrow> bool" where
  "elems_back n \<longleftrightarrow> (\<forall>vs rest. vs \<noteq> [] \<and> list_all json_ok vs \<and> length (join (map json_print vs)) < n
      \<longrightarrow> parse_elems n (join (map json_print vs) @ CHR '']'' # rest) = Some (vs, rest))"

lemma values_back_Suc:
  assumes M: "members_back n" and E: "elems_back n"
  shows "values_back (Suc n)"
unfolding values_back_def
proof (intro allI impI, elim conjE)
  fix v rest
  assume ok: "json_ok v" and del: "delimited rest" and fuel: "length (json_print v) \<le> Suc n"
  show "parse_value (Suc n) (json_print v @ rest) = Some (v, rest)"
  proof (cases v)
    case (JObj ms)
    show ?thesis
    proof (cases ms)
      case Nil
      with JObj show ?thesis by simp
    next
      case (Cons m ms')
      then obtain k w where start: "join (map member_text ms) = quote # w"
        by (cases m; cases ms') (auto simp: print_string_def)
      have "ms \<noteq> []" "list_all (\<lambda>(k, v). text_ok k \<and> json_ok v) ms"
        "length (join (map member_text ms)) < n"
        using JObj ok fuel Cons by simp_all
      with M [unfolded members_back_def] have "parse_members n (join (map member_text ms) @ CHR ''}'' # rest) = Some (ms, rest)"
        by blast
      with JObj start show ?thesis by (simp del: join.simps)
    qed
  next
    case (JArr vs)
    show ?thesis
    proof (cases vs)
      case Nil
      with JArr show ?thesis by simp
    next
      case (Cons v' vs')
      with JArr ok obtain c t where c: "json_print v' = c # t" "value_start c"
        using json_print_start [of v'] by auto
      then obtain w where start: "join (map json_print vs) = c # w"
        using Cons by (cases vs') auto
      from c have ws: "skip_ws (c # s) = c # s" "c \<noteq> CHR '']''" for s
        by (auto simp: value_start_ws) (auto simp: value_start_def is_digit_code)
      have "vs \<noteq> []" "list_all json_ok vs" "length (join (map json_print vs)) < n"
        using JArr ok fuel Cons by simp_all
      with E [unfolded elems_back_def] have "parse_elems n (join (map json_print vs) @ CHR '']'' # rest) = Some (vs, rest)"
        by blast
      with JArr start ws show ?thesis by (simp del: join.simps)
    qed
  next
    case (JStr s)
    with ok show ?thesis by (simp add: print_string_ok parse_string_escape)
  next
    case (JNum t)
    with ok obtain c u where t: "t = c # u" "is_digit c \<or> c = CHR ''-''"
      by (auto dest: integer_start)
    then have "skip_ws (c # s) = c # s" for s
      by (intro value_start_ws) (auto simp: value_start_def)
    moreover have "c \<notin> {CHR ''{'', CHR ''['', quote, CHR ''t'', CHR ''f'', CHR ''n''}"
      using t(2) by (auto simp: is_digit_code)
    moreover have "scan_number (c # u @ rest) = Some (t, rest)"
      using scan_number_integer [of t rest] ok del JNum t(1) by simp
    ultimately show ?thesis using JNum t(1) by simp
  next
    case (JBool b)
    then show ?thesis by (cases b) (simp_all add: skip_ws_def is_ws_def literal_def)
  next
    case JNull
    then show ?thesis by (simp add: skip_ws_def is_ws_def literal_def)
  qed
qed

lemma members_back_Suc:
  assumes V: "values_back n" and M: "members_back n"
  shows "members_back (Suc n)"
unfolding members_back_def
proof (intro allI impI, elim conjE)
  fix ms rest
  assume ne: "ms \<noteq> []" and ok: "list_all (\<lambda>(k, v). text_ok k \<and> json_ok v) ms"
    and fuel: "length (join (map member_text ms)) < Suc n"
  obtain k v ms' where ms: "ms = (k, v) # ms'" using ne by (cases ms) auto
  with ok have kv: "text_ok k" "json_ok v" by simp_all
  show "parse_members (Suc n) (join (map member_text ms) @ CHR ''}'' # rest) = Some (ms, rest)"
  proof (cases ms')
    case Nil
    with ms fuel have "length (json_print v) \<le> n" by simp
    with V [unfolded values_back_def] kv have "parse_value n (json_print v @ CHR ''}'' # rest) = Some (v, CHR ''}'' # rest)"
      by simp
    with ms Nil kv show ?thesis
      by (simp add: print_string_ok parse_string_escape skip_ws_print)
  next
    case (Cons m2 ms2)
    let ?tail = "join (map member_text ms')"
    have eq: "join (map member_text ms) = member_text (k, v) @ CHR '','' # ?tail"
      using ms Cons by simp
    with fuel have "length (json_print v) \<le> n" "length ?tail < n" by simp_all
    moreover from this V [unfolded values_back_def] kv have
      "parse_value n (json_print v @ CHR '','' # ?tail @ CHR ''}'' # rest)
         = Some (v, CHR '','' # ?tail @ CHR ''}'' # rest)" by simp
    moreover have "ms' \<noteq> []" "list_all (\<lambda>(k, v). text_ok k \<and> json_ok v) ms'"
      using ok ms Cons by simp_all
    ultimately have
      "parse_value n (json_print v @ CHR '','' # ?tail @ CHR ''}'' # rest)
         = Some (v, CHR '','' # ?tail @ CHR ''}'' # rest)"
      "parse_members n (?tail @ CHR ''}'' # rest) = Some (ms', rest)"
      using M [unfolded members_back_def] by blast+
    with ms kv eq show ?thesis
      by (simp add: print_string_ok parse_string_escape skip_ws_print del: join.simps)
  qed
qed

lemma elems_back_Suc:
  assumes V: "values_back n" and E: "elems_back n"
  shows "elems_back (Suc n)"
unfolding elems_back_def
proof (intro allI impI, elim conjE)
  fix vs rest
  assume ne: "vs \<noteq> []" and ok: "list_all json_ok vs"
    and fuel: "length (join (map json_print vs)) < Suc n"
  obtain v vs' where vs: "vs = v # vs'" using ne by (cases vs) auto
  show "parse_elems (Suc n) (join (map json_print vs) @ CHR '']'' # rest) = Some (vs, rest)"
  proof (cases vs')
    case Nil
    with vs fuel V [unfolded values_back_def] ok have "parse_value n (json_print v @ CHR '']'' # rest) = Some (v, CHR '']'' # rest)"
      by simp
    with vs Nil show ?thesis by simp
  next
    case (Cons v2 vs2)
    let ?tail = "join (map json_print vs')"
    have eq: "join (map json_print vs) = json_print v @ CHR '','' # ?tail"
      using vs Cons by simp
    with fuel have "length (json_print v) \<le> n" "length ?tail < n"
      using json_print_start [of v] ok vs by auto
    moreover from this V [unfolded values_back_def] ok vs have
      "parse_value n (json_print v @ CHR '','' # ?tail @ CHR '']'' # rest)
         = Some (v, CHR '','' # ?tail @ CHR '']'' # rest)" by simp
    moreover have "vs' \<noteq> []" "list_all json_ok vs'"
      using ok vs Cons by simp_all
    ultimately have
      "parse_value n (json_print v @ CHR '','' # ?tail @ CHR '']'' # rest)
         = Some (v, CHR '','' # ?tail @ CHR '']'' # rest)"
      "parse_elems n (?tail @ CHR '']'' # rest) = Some (vs', rest)"
      using E [unfolded elems_back_def] by blast+
    with vs eq show ?thesis by (simp del: join.simps)
  qed
qed

lemma parse_back: "values_back n \<and> members_back n \<and> elems_back n"
proof (induction n)
  case 0
  show ?case
    by (auto simp: values_back_def members_back_def elems_back_def dest: json_print_start)
next
  case (Suc n)
  then show ?case by (simp add: values_back_Suc members_back_Suc elems_back_Suc)
qed

lemma parse_value_print:
  assumes "json_ok v" "delimited rest" "length (json_print v) \<le> n"
  shows "parse_value n (json_print v @ rest) = Some (v, rest)"
  using parse_back [of n] assms by (auto simp: values_back_def)

lemma escape_control_ascii:
  assumes "is_control c"
  shows "list_all is_ascii (escape_control c)"
proof -
  obtain b0 b1 b2 b3 b4 b5 b6 b7 where c: "c = Char b0 b1 b2 b3 b4 b5 b6 b7" by (cases c)
  with assms have "\<not> b7" "\<not> b6" "\<not> b5" by (simp_all add: is_control_code)
  with c show ?thesis
    by (cases b4; cases b3; cases b2; cases b1; cases b0;
        simp add: escape_control_def is_ascii_code hex_digit_def of_char_def)
qed

lemma escape_E2:
  "escape (CHR 0xE2 # b # d # t) =
     (if b = CHR 0x80 \<and> (d = CHR 0xA8 \<or> d = CHR 0xA9)
      then backslash # ''u202'' @ (if d = CHR 0xA8 then ''8'' else ''9'') @ escape t
      else CHR 0xE2 # escape (b # d # t))"
  by (simp add: is_control_code)

lemma escape_plain:
  assumes "c \<noteq> quote" "c \<noteq> backslash" "\<not> is_control c" "c \<noteq> CHR 0xE2"
  shows "escape (c # s) = c # escape s"
  using assms by (simp split: list.split)

lemma escape_ascii_Cons:
  "is_ascii c \<Longrightarrow> escape (c # s) =
     (if c = quote \<or> c = backslash then [backslash, c]
      else if is_control c then escape_control c else [c]) @ escape s"
  by (auto simp: is_ascii_code split: list.split)

lemma escape_high:
  assumes "\<not> is_ascii c" "c \<noteq> CHR 0xE2"
  shows "escape (c # s) = c # escape s"
  by (rule escape_plain) (use assms in \<open>auto simp: is_ascii_code is_ascii_def is_control_def\<close>)

text \<open>An encoded code point is copied, or escaped to ASCII.\<close>

lemma high_byte: "cont b \<Longrightarrow> \<not> is_ascii b \<and> b \<noteq> CHR 0xE2"
  by (auto simp: cont_def is_ascii_def of_char_def)

lemma escape_chunk:
  assumes "chunk bs"
  shows "\<exists>e. text_ok e \<and> (\<forall>t. escape (bs @ t) = e @ escape t)"
  using assms
proof cases
  case (one a)
  let ?e = "if a = quote \<or> a = backslash then [backslash, a]
    else if is_control a then escape_control a else [a]"
  have "list_all is_ascii ?e"
    using one escape_control_ascii [of a] by (simp add: is_ascii_code)
  then show ?thesis using one by (intro exI [of _ ?e]) (simp add: text_ok_ascii escape_ascii_Cons del: escape.simps)
next
  case (two a b)
  have "a \<noteq> CHR 0xE2" using two by (auto simp: rune2_def of_char_def)
  then show ?thesis using two high_byte [of b] valid_text.more [OF assms valid_text.empty]
    by (intro exI [of _ bs]) (simp add: escape_high rune2_def text_ok_def utf8_valid_iff del: escape.simps)
next
  case (three a b c)
  have bc: "\<not> is_ascii b \<and> b \<noteq> CHR 0xE2" "\<not> is_ascii c \<and> c \<noteq> CHR 0xE2"
    using three high_byte by (simp_all add: rune3_def)
  have ok: "text_ok [a, b, c]"
    using three valid_text.more [OF assms valid_text.empty] by (simp add: text_ok_def utf8_valid_iff)
  show ?thesis
  proof (cases "a = CHR 0xE2")
    case True
    let ?sep = "b = CHR 0x80 \<and> (c = CHR 0xA8 \<or> c = CHR 0xA9)"
    let ?e = "if ?sep then backslash # ''u202'' @ (if c = CHR 0xA8 then ''8'' else ''9'') else bs"
    have "text_ok ?e" using ok three by simp
    moreover have "escape (bs @ t) = ?e @ escape t" for t
      using three True bc by (simp add: escape_E2 escape_high del: escape.simps)
    ultimately show ?thesis by blast
  next
    case False
    then show ?thesis using three bc ok by (intro exI [of _ bs]) (simp add: escape_high del: escape.simps)
  qed
next
  case (four a b c d)
  have "a \<noteq> CHR 0xE2" using four by (auto simp: rune4_def of_char_def)
  moreover have "\<not> is_ascii b \<and> b \<noteq> CHR 0xE2" "\<not> is_ascii c \<and> c \<noteq> CHR 0xE2"
    "\<not> is_ascii d \<and> d \<noteq> CHR 0xE2"
    using four high_byte by (simp_all add: rune4_def)
  ultimately show ?thesis using four valid_text.more [OF assms valid_text.empty]
    by (intro exI [of _ bs]) (simp add: escape_high text_ok_def utf8_valid_iff del: escape.simps)
qed

lemma escape_text: "text_ok s \<Longrightarrow> text_ok (escape s)"
  unfolding text_ok_def utf8_valid_iff
proof (induction rule: valid_text.induct)
  case (more bs t)
  obtain e where "text_ok e" "escape (bs @ t) = e @ escape t" using escape_chunk [OF more(1)] by blast
  then show ?case using more(3) by (simp add: text_ok_def utf8_valid_iff valid_text_append)
qed (simp add: valid_text.empty)

lemma join_text: "list_all text_ok xs \<Longrightarrow> text_ok (join xs)"
  by (induction xs rule: join.induct) (auto simp: text_ok_append)

lemma match_integer_text: "match_integer t \<Longrightarrow> text_ok t"
  by (auto simp: match_integer_def nonzero_digits_def list_all_iff is_ascii_code
      dest!: is_digit_printable printable_ascii intro!: text_ok_ascii split: list.splits)

lemma print_string_text: "text_ok s \<Longrightarrow> text_ok (print_string s)"
  by (simp add: print_string_ok text_ok_append escape_text)

lemma json_print_text: "json_ok v \<Longrightarrow> text_ok (json_print v)"
proof (induction v rule: json_print.induct)
  case (1 ms)
  have "text_ok (print_string k @ CHR '':'' # json_print v)" if "(k, v) \<in> set ms" for k v
  proof -
    from that 1(2) have "text_ok k" "json_ok v" by (auto simp: list_all_iff)
    with 1(1) [OF that refl] show ?thesis by (simp add: text_ok_append print_string_text)
  qed
  then have "text_ok (join (map member_text ms))"
    by (intro join_text) (auto simp: list_all_iff)
  then show ?case by (simp add: text_ok_append)
next
  case (2 vs)
  then have "text_ok (join (map json_print vs))"
    by (intro join_text) (auto simp: list_all_iff)
  then show ?case by (simp add: text_ok_append)
qed (auto simp: print_string_text match_integer_text)

lemma json_parse_print: "json_ok v \<Longrightarrow> json_parse (json_print v) = Some v"
  using parse_value_print [of v "[]" "Suc (length (json_print v))"] json_print_text [of v]
  by (simp add: json_parse_def coerce_valid text_ok_def skip_ws_def)

text \<open>Sorting keys keeps a text well-formed, and makes the member order irrelevant.\<close>

lemma json_ok_sort: "json_ok v \<Longrightarrow> json_ok (json_sort v)"
  by (induction v rule: json_sort.induct) (auto simp: list_all_iff)

lemma sort_key_perm:
  assumes "distinct (map fst xs)" and "set xs = set ys" and "distinct (map fst ys)"
  shows "sort_key fst xs = sort_key fst ys"
proof (rule map_sorted_distinct_set_unique [where f = fst])
  show "inj_on fst (set (sort_key fst xs) \<union> set (sort_key fst ys))"
    using assms by (auto simp: distinct_map)
  show "distinct (map fst (sort_key fst xs))" "distinct (map fst (sort_key fst ys))"
    using assms by (simp_all add: distinct_map)
qed (use assms in auto)

lemma sort_key_sorted: "sorted (map f xs) \<Longrightarrow> sort_key f xs = xs"
  by (induction xs) (auto simp: insort_is_Cons)

lemma json_sort_idem: "json_sort (json_sort v) = json_sort v"
proof (induction v rule: json_sort.induct)
  case (1 ms)
  let ?ns = "sort_key fst (map (map_prod id json_sort) ms)"
  have "map_prod id json_sort p = p" if "p \<in> set ?ns" for p
    using that 1 by (auto simp: map_prod_def)
  then have "map (map_prod id json_sort) ?ns = ?ns" by (rule map_idI)
  moreover have "sorted (map fst ?ns)" by (rule sorted_sort_key)
  ultimately show ?case by (simp only: json_sort.simps sort_key_sorted)
qed (auto simp: comp_def)

end
