(* ===== verification/Errors.thy ===== *)
theory Errors
  imports Json
begin

text \<open>
  The error values of \<open>validation.go\<close>: the table of stable codes with their fixed messages,
  \<open>DomainError\<close>, and \<open>fail\<close>, which turns a code into an error and every unknown code into
  \<open>INTERNAL_ERROR\<close>.  A Go panic is a failure of its own.
\<close>

record DomainError =
  de_SchemaVersion :: bytes
  de_Code :: bytes
  de_Message :: bytes
  de_Retryable :: bool

datatype failure = Domain DomainError | Panic bytes

type_synonym 'a res = "failure + 'a"

definition messages :: "(bytes \<times> bytes) list" where
  "messages = [
    (''ANOMALY_RESULT_MISMATCH'',
      ''Proposed analysis does not match committed inputs.''),
    (''ANOMALY_ALREADY_EXISTS'',
      ''Report has already been evaluated.''),
    (''INVALID_REVIEW_TRANSITION'',
      ''Review action is not allowed in the current state.''),
    (''INVALID_SCHEMA'',
      ''Invalid fields or JSON encoding.''),
    (''INVALID_IDENTIFIER'',
      ''Invalid identifier.''),
    (''UNSUPPORTED_SCHEMA_VERSION'',
      ''Unsupported schema version.''),
    (''INVALID_QUANTITY'',
      ''Quantity must match the positive whole batch.''),
    (''INVALID_MONEY'',
      ''Invalid integer monetary value, currency or tax basis.''),
    (''UNSUPPORTED_PILOT_OPERATION'',
      ''This operation is not supported by the pilot.''),
    (''UNAUTHORIZED_ORGANIZATION'',
      ''Organization is not permitted for this operation.''),
    (''UNAUTHORIZED_ROLE'',
      ''Certificate role is not permitted for this operation.''),
    (''WRONG_TRANSFER_RECIPIENT'',
      ''Only the intended recipient may accept this transfer.''),
    (''BATCH_NOT_FOUND'',
      ''Batch does not exist.''),
    (''TRANSFER_NOT_FOUND'',
      ''Transfer does not exist for this batch.''),
    (''OPERATION_NOT_FOUND'',
      ''Operation does not exist within caller visibility.''),
    (''BATCH_ALREADY_EXISTS'',
      ''Batch already exists.''),
    (''TRANSFER_ALREADY_EXISTS'',
      ''Transfer identifier already exists.''),
    (''LOT_ALREADY_EXISTS'',
      ''Retail lot already exists.''),
    (''COST_ALREADY_EXISTS'',
      ''Freight cost already exists.''),
    (''REPORT_ALREADY_EXISTS'',
      ''Retail report already exists.''),
    (''DUPLICATE_TRANSACTION'',
      ''Operation already committed; query the original receipt.''),
    (''DOCUMENT_ALREADY_USED'',
      ''Document reference already consumed.''),
    (''INVALID_STATE_TRANSITION'',
      ''Operation is not allowed in the current state.''),
    (''VERSION_CONFLICT'',
      ''Expected batch version does not match.''),
    (''MISSING_EVIDENCE'',
      ''Required verified evidence is missing.''),
    (''SOURCE_BINDING_MISMATCH'',
      ''Verified evidence does not match the batch.''),
    (''POLICY_MISMATCH'',
      ''Report policy does not match the verified policy.''),
    (''INVALID_PAGE'',
      ''Invalid page size or bookmark.''),
    (''EVIDENCE_VERIFICATION_UNAVAILABLE'',
      ''Stage 3 writes are disabled pending Stage 4 evidence and privacy verification.''),
    (''INTERNAL_ERROR'',
      ''Ledger operation failed.''),
    (''CONFIGURATION_REQUIRED'',
      ''Initialize trusted sources before business operations.''),
    (''CONFIGURATION_ALREADY_EXISTS'',
      ''Trust configuration is immutable and already initialized.''),
    (''UNTRUSTED_SOURCE_KEY'',
      ''Source key is not enabled for this claim.''),
    (''INVALID_SOURCE_SIGNATURE'',
      ''Source signature verification failed.''),
    (''DOCUMENT_HASH_MISMATCH'',
      ''Document does not match committed evidence.''),
    (''SOURCE_NONCE_ALREADY_USED'',
      ''Source nonce has already been consumed.''),
    (''SOURCE_CLAIM_REJECTED'',
      ''Source assertion does not authorize this operation.''),
    (''PRIVATE_DATA_ACCESS_DENIED'',
      ''Identity cannot access this private record.''),
    (''PRIVATE_DATA_UNAVAILABLE'',
      ''Required private bytes are unavailable on this peer.''),
    (''DOCUMENT_NOT_FOUND'',
      ''Document does not exist.'')
  ]"

definition fail :: "bytes \<Rightarrow> failure" where
  "fail c =
     (let (code, message) =
        (case map_of messages c of
           Some m \<Rightarrow> (c, m)
         | None \<Rightarrow> (''INTERNAL_ERROR'', the (map_of messages ''INTERNAL_ERROR'')))
      in Domain \<lparr> de_SchemaVersion = ''agrochain.error.v1'', de_Code = code,
                  de_Message = message, de_Retryable = False \<rparr>)"

text \<open>\<open>DomainError.Error()\<close>: the error as JSON, in the order of the struct's fields.\<close>

definition Error :: "DomainError \<Rightarrow> bytes" where
  "Error e = json_print (JObj
     [(''schemaVersion'', JStr (de_SchemaVersion e)), (''code'', JStr (de_Code e)),
      (''message'', JStr (de_Message e)), (''retryable'', JBool (de_Retryable e))])"

fun code_of :: "failure \<Rightarrow> bytes" where
  "code_of (Domain e) = de_Code e"
| "code_of (Panic s) = []"

definition known_codes :: "bytes list" where
  "known_codes = map fst messages"

lemma distinct_known_codes: "distinct known_codes"
  by code_simp

lemma code_of_fail: "c \<in> set known_codes \<Longrightarrow> code_of (fail c) = c"
  by (auto simp: known_codes_def fail_def map_of_eq_None_iff split: option.splits)

lemma fail_known:
  assumes "list_all (\<lambda>c. c \<in> set known_codes) [c, d]"
  shows "fail c = fail d \<longleftrightarrow> c = d"
proof -
  have "code_of (fail c) = c" "code_of (fail d) = d"
    using assms by (simp_all add: code_of_fail)
  then show ?thesis by metis
qed

text \<open>No error is a panic, and every error carries a code of the table with its own message.\<close>

lemma fail_shape:
  "\<exists>e. fail c = Domain e \<and> map_of messages (de_Code e) = Some (de_Message e)
     \<and> de_Retryable e = False \<and> de_SchemaVersion e = ''agrochain.error.v1''"
proof (cases "map_of messages c")
  case None
  have "\<exists>m. map_of messages ''INTERNAL_ERROR'' = Some m" by (simp add: messages_def)
  with None show ?thesis by (auto simp: fail_def)
next
  case (Some m)
  then show ?thesis by (simp add: fail_def)
qed

lemma fail_not_Panic [simp]: "fail c \<noteq> Panic s" "Panic s \<noteq> fail c"
  using fail_shape [of c] by auto

end
