(* ===== verification/Struct.thy ===== *)
theory Struct
  imports Errors
begin

text \<open>
  \<open>json.Marshal\<close> and \<open>json.Unmarshal\<close> on structs.  Go reads the fields of a struct and their
  \<open>json\<close> tags by reflection; here a struct is a record with a table of its fields, one entry
  per field in source order: the tag, the \<open>omitempty\<close> flag, how the field is encoded, how a
  JSON value is stored into it, and when two records agree on it.  One theorem, in the locale
  \<open>struct\<close>, says that decoding the sorted encoding of a record gives the record back.
\<close>

subsection \<open>Values\<close>

datatype 'v codec = Codec (enc: "'v \<Rightarrow> jv") (dec: "jv \<Rightarrow> 'v \<Rightarrow> 'v option")

text \<open>
  \<open>dec c v x\<close> stores the JSON value \<open>v\<close> over the old value \<open>x\<close>: \<open>null\<close> leaves it as it is,
  a value of another type is an error.
\<close>

definition string_codec :: "bytes codec" where
  "string_codec = Codec JStr
     (\<lambda>v x. case v of JStr s \<Rightarrow> Some s | JNull \<Rightarrow> Some x | _ \<Rightarrow> None)"

definition int_codec :: "nat \<Rightarrow> int codec" where
  "int_codec bits = Codec (\<lambda>i. JNum (FormatInt i))
     (\<lambda>v x. case v of JNum t \<Rightarrow> ParseInt bits t | JNull \<Rightarrow> Some x | _ \<Rightarrow> None)"

definition bool_codec :: "bool codec" where
  "bool_codec = Codec JBool
     (\<lambda>v x. case v of JBool b \<Rightarrow> Some b | JNull \<Rightarrow> Some x | _ \<Rightarrow> None)"

text \<open>A slice; every element is decoded over the zero value \<open>z\<close>.\<close>

definition list_codec :: "'v codec \<Rightarrow> 'v \<Rightarrow> 'v list codec" where
  "list_codec c z = Codec (\<lambda>xs. JArr (map (enc c) xs))
     (\<lambda>v x. case v of JArr vs \<Rightarrow> those (map (\<lambda>w. dec c w z) vs) | JNull \<Rightarrow> Some [] | _ \<Rightarrow> None)"

text \<open>
  \<open>json.RawMessage\<close> keeps the text of a value.  The text kept here is the one
  \<open>json_print\<close> writes: white space and the spelling of escapes are not kept, which no caller
  can see, because the code only ever parses a raw message again.  A nil message is \<open>null\<close>.
\<close>

definition raw_value :: "bytes \<Rightarrow> jv option" where
  "raw_value t = (if t = [] then Some JNull else json_parse t)"

definition raw_codec :: "bytes codec" where
  "raw_codec = Codec (\<lambda>t. case raw_value t of Some v \<Rightarrow> v | None \<Rightarrow> JNull)
     (\<lambda>v x. Some (json_print v))"

subsection \<open>Fields and structs\<close>

datatype 'r field = Field
  (tag: bytes)
  (omitempty: bool)
  (encode_field: "'r \<Rightarrow> jv")
  (store_field: "jv \<Rightarrow> 'r \<Rightarrow> 'r option")
  (same_field: "'r \<Rightarrow> 'r \<Rightarrow> bool")

definition field ::
  "bytes \<Rightarrow> bool \<Rightarrow> 'v codec \<Rightarrow> ('r \<Rightarrow> 'v) \<Rightarrow> (('v \<Rightarrow> 'v) \<Rightarrow> 'r \<Rightarrow> 'r) \<Rightarrow> 'r field" where
  "field t om c get upd = Field t om
     (\<lambda>r. enc c (get r))
     (\<lambda>v r. map_option (\<lambda>x. upd (\<lambda>_. x) r) (dec c v (get r)))
     (\<lambda>r r'. get r = get r')"

abbreviation str :: "bytes \<Rightarrow> ('r \<Rightarrow> bytes) \<Rightarrow> ((bytes \<Rightarrow> bytes) \<Rightarrow> 'r \<Rightarrow> 'r) \<Rightarrow> 'r field" where
  "str t \<equiv> field t False string_codec"

abbreviation str_omitempty ::
  "bytes \<Rightarrow> ('r \<Rightarrow> bytes) \<Rightarrow> ((bytes \<Rightarrow> bytes) \<Rightarrow> 'r \<Rightarrow> 'r) \<Rightarrow> 'r field" where
  "str_omitempty t \<equiv> field t True string_codec"

abbreviation int64 :: "bytes \<Rightarrow> ('r \<Rightarrow> int) \<Rightarrow> ((int \<Rightarrow> int) \<Rightarrow> 'r \<Rightarrow> 'r) \<Rightarrow> 'r field" where
  "int64 t \<equiv> field t False (int_codec 64)"

abbreviation int32 :: "bytes \<Rightarrow> ('r \<Rightarrow> int) \<Rightarrow> ((int \<Rightarrow> int) \<Rightarrow> 'r \<Rightarrow> 'r) \<Rightarrow> 'r field" where
  "int32 t \<equiv> field t False (int_codec 32)"

text \<open>The fields of an embedded struct are fields of the struct around it.\<close>

definition embed :: "('r \<Rightarrow> 'q) \<Rightarrow> (('q \<Rightarrow> 'q) \<Rightarrow> 'r \<Rightarrow> 'r) \<Rightarrow> 'q field \<Rightarrow> 'r field" where
  "embed get upd f = Field (tag f) (omitempty f)
     (\<lambda>r. encode_field f (get r))
     (\<lambda>v r. map_option (\<lambda>x. upd (\<lambda>_. x) r) (store_field f v (get r)))
     (\<lambda>r r'. same_field f (get r) (get r'))"

definition omitted :: "'r \<Rightarrow> 'r field \<Rightarrow> bool" where
  "omitted r f \<longleftrightarrow> omitempty f \<and> encode_field f r = JStr []"

definition marshal :: "'r field list \<Rightarrow> 'r \<Rightarrow> jv" where
  "marshal fs r = JObj (map (\<lambda>f. (tag f, encode_field f r)) (filter (\<lambda>f. \<not> omitted r f) fs))"

text \<open>A key selects the field with that tag, or else one whose tag differs only in case.\<close>

definition fold_char :: "char \<Rightarrow> char" where
  "fold_char c = (if is_upper c then char_of (byte c + 32) else c)"

definition lookup_field :: "'r field list \<Rightarrow> bytes \<Rightarrow> 'r field option" where
  "lookup_field fs k =
     (case find (\<lambda>f. tag f = k) fs of
       Some f \<Rightarrow> Some f
     | None \<Rightarrow> find (\<lambda>f. map fold_char (tag f) = map fold_char k) fs)"

fun unmarshal_members :: "'r field list \<Rightarrow> (bytes \<times> jv) list \<Rightarrow> 'r \<Rightarrow> 'r option" where
  "unmarshal_members fs [] r = Some r"
| "unmarshal_members fs ((k, v) # ms) r =
     (case lookup_field fs k of
       None \<Rightarrow> unmarshal_members fs ms r
     | Some f \<Rightarrow> Option.bind (store_field f v r) (unmarshal_members fs ms))"

definition unmarshal :: "'r field list \<Rightarrow> jv \<Rightarrow> 'r \<Rightarrow> 'r option" where
  "unmarshal fs v r =
     (case v of JObj ms \<Rightarrow> unmarshal_members fs ms r | JNull \<Rightarrow> Some r | _ \<Rightarrow> None)"

definition struct_codec :: "'r field list \<Rightarrow> 'r codec" where
  "struct_codec fs = Codec (marshal fs) (unmarshal fs)"

text \<open>\<open>json.Unmarshal(raw, &r)\<close>; \<open>None\<close> is an error.\<close>

definition Unmarshal :: "'r field list \<Rightarrow> bytes \<Rightarrow> 'r \<Rightarrow> 'r option" where
  "Unmarshal fs raw r = Option.bind (json_parse raw) (\<lambda>v. unmarshal fs v r)"

subsection \<open>Laws of codecs and fields\<close>

definition codec_ok :: "'v codec \<Rightarrow> ('v \<Rightarrow> bool) \<Rightarrow> bool" where
  "codec_ok c P \<longleftrightarrow> (\<forall>x x0. P x \<longrightarrow> json_ok (enc c x) \<and> dec c (json_sort (enc c x)) x0 = Some x)"

definition int_ok :: "nat \<Rightarrow> int \<Rightarrow> bool" where
  "int_ok bits i \<longleftrightarrow> - (2 ^ (bits - 1)) \<le> i \<and> i < 2 ^ (bits - 1)"

definition raw_ok :: "bytes \<Rightarrow> bool" where
  "raw_ok t \<longleftrightarrow> (\<exists>v. t = json_print v \<and> json_ok v \<and> json_sort v = v)"

lemma string_codec_ok: "codec_ok string_codec text_ok"
  by (simp add: codec_ok_def string_codec_def)

lemma int_codec_ok: "codec_ok (int_codec bits) (int_ok bits)"
  by (simp add: codec_ok_def int_codec_def int_ok_def parse_format_int match_integer_FormatInt)

lemma bool_codec_ok: "codec_ok bool_codec (\<lambda>_. True)"
  by (simp add: codec_ok_def bool_codec_def)

lemma those_map_Some: "(\<And>x. x \<in> set xs \<Longrightarrow> f x = Some (g x)) \<Longrightarrow> those (map f xs) = Some (map g xs)"
  by (induction xs) auto

lemma list_codec_ok:
  assumes "codec_ok c P"
  shows "codec_ok (list_codec c z) (list_all P)"
proof -
  have "those (map ((\<lambda>w. dec c w z) \<circ> (json_sort \<circ> enc c)) xs) = Some (map id xs)"
    if "list_all P xs" for xs
    using that assms by (intro those_map_Some) (auto simp: codec_ok_def list_all_iff)
  then show ?thesis
    using assms by (auto simp: codec_ok_def list_codec_def list_all_iff)
qed

lemma raw_codec_ok: "codec_ok raw_codec raw_ok"
proof -
  have "json_print v = [] \<longleftrightarrow> False" if "json_ok v" for v
    using json_print_start [OF that] by auto
  then have "raw_value (json_print v) = Some v" if "json_ok v" for v
    using that by (simp add: raw_value_def json_parse_print)
  then show ?thesis
    by (auto simp: codec_ok_def raw_codec_def raw_ok_def)
qed

text \<open>
  A field reads back what it wrote and writes nothing else; two fields are independent when
  storing into one leaves the other.
\<close>

definition field_ok :: "('r \<Rightarrow> bool) \<Rightarrow> 'r field \<Rightarrow> bool" where
  "field_ok P f \<longleftrightarrow>
     (\<forall>r r0. P r \<longrightarrow> json_ok (encode_field f r)
        \<and> (\<exists>r1. store_field f (json_sort (encode_field f r)) r0 = Some r1 \<and> same_field f r1 r))
     \<and> (\<forall>r r'. omitempty f \<longrightarrow> encode_field f r = JStr [] \<longrightarrow> encode_field f r' = JStr []
          \<longrightarrow> same_field f r r')
     \<and> (\<forall>r. same_field f r r)
     \<and> (\<forall>a b c. same_field f a b \<longrightarrow> same_field f b c \<longrightarrow> same_field f a c)"

definition keeps :: "'r field \<Rightarrow> 'r field \<Rightarrow> bool" where
  "keeps f g \<longleftrightarrow> (\<forall>v r r1. store_field f v r = Some r1 \<longrightarrow> same_field g r1 r)"

fun independent :: "'r field list \<Rightarrow> bool" where
  "independent [] \<longleftrightarrow> True"
| "independent (f # fs) \<longleftrightarrow> list_all (\<lambda>g. keeps f g \<and> keeps g f) fs \<and> independent fs"

lemma field_ok_json: "field_ok P f \<Longrightarrow> P r \<Longrightarrow> json_ok (encode_field f r)"
  unfolding field_ok_def by blast

lemma field_ok_store:
  "field_ok P f \<Longrightarrow> P r \<Longrightarrow>
     \<exists>r1. store_field f (json_sort (encode_field f r)) r0 = Some r1 \<and> same_field f r1 r"
  unfolding field_ok_def by blast

lemma field_ok_omitted:
  "field_ok P f \<Longrightarrow> omitempty f \<Longrightarrow> encode_field f r = JStr [] \<Longrightarrow> encode_field f r' = JStr []
     \<Longrightarrow> same_field f r r'"
  unfolding field_ok_def by blast

lemma field_ok_refl: "field_ok P f \<Longrightarrow> same_field f r r"
  unfolding field_ok_def by blast

lemma field_ok_trans: "field_ok P f \<Longrightarrow> same_field f a b \<Longrightarrow> same_field f b c \<Longrightarrow> same_field f a c"
  unfolding field_ok_def by blast

lemma find_tag: "distinct (map tag fs) \<Longrightarrow> f \<in> set fs \<Longrightarrow> find (\<lambda>g. tag g = tag f) fs = Some f"
  by (induction fs) (auto simp: image_iff)

lemma independentD:
  "independent fs \<Longrightarrow> f \<in> set fs \<Longrightarrow> g \<in> set fs \<Longrightarrow> tag f \<noteq> tag g \<Longrightarrow> keeps f g"
  by (induction fs) (auto simp: list_all_iff)

lemma field_okI:
  assumes "codec_ok c Q" "\<And>r. P r \<Longrightarrow> Q (get r)" "\<And>x r. get (upd (\<lambda>_. x) r) = x"
  shows "field_ok P (field t False c get upd)"
  using assms by (auto simp: field_ok_def field_def codec_ok_def)

lemma field_ok_omitempty:
  assumes "\<And>r. P r \<Longrightarrow> text_ok (get r)" "\<And>x r. get (upd (\<lambda>_. x) r) = x"
  shows "field_ok P (field t True string_codec get upd)"
  using assms by (auto simp: field_ok_def field_def string_codec_def)

named_theorems field_rules \<open>a field of each type reads back what it wrote\<close>

lemmas field_okIs [field_rules] = field_okI [OF string_codec_ok] field_okI [OF int_codec_ok]
  field_okI [OF bool_codec_ok] field_okI [OF raw_codec_ok] field_ok_omitempty
  field_okI [OF list_codec_ok [OF string_codec_ok]]

lemma keeps_field:
  "(\<And>h r. get' (upd h r) = get' r) \<Longrightarrow> keeps (field t om c get upd) (field t' om' c' get' upd')"
  by (auto simp: keeps_def field_def)

lemma tag_field [simp]: "tag (field t om c get upd) = t"
  by (simp add: field_def)

lemma same_field_field [simp]: "same_field (field t om c get upd) r r' \<longleftrightarrow> get r = get r'"
  by (simp add: field_def)

lemma omitempty_field [simp]: "omitempty (field t om c get upd) = om"
  by (simp add: field_def)

lemma encode_field_field [simp]: "encode_field (field t om c get upd) r = enc c (get r)"
  by (simp add: field_def)

lemma field_ok_embedI:
  assumes "codec_ok c Q" "\<And>r. P r \<Longrightarrow> Q (g (get r))"
    "\<And>x q. g (u (\<lambda>_. x) q) = x" "\<And>x r. get (upd (\<lambda>_. x) r) = x"
  shows "field_ok P (embed get upd (field t False c g u))"
  using assms by (auto simp: field_ok_def field_def embed_def codec_ok_def)

lemma field_ok_embed_omitempty:
  assumes "\<And>r. P r \<Longrightarrow> text_ok (g (get r))"
    "\<And>x q. g (u (\<lambda>_. x) q) = x" "\<And>x r. get (upd (\<lambda>_. x) r) = x"
  shows "field_ok P (embed get upd (field t True string_codec g u))"
  using assms by (auto simp: field_ok_def field_def embed_def string_codec_def)

lemmas field_ok_embedIs [field_rules] = field_ok_embedI [OF string_codec_ok]
  field_ok_embedI [OF int_codec_ok] field_ok_embed_omitempty

lemma keeps_embed:
  "(\<And>h r. get' (upd h r) = get' r) \<Longrightarrow> keeps (embed get upd f) (field t' om' c' get' upd')"
  "(\<And>h r. get (upd' h r) = get r) \<Longrightarrow>
     keeps (field t' om' c' get' upd') (embed get upd (field t om c g u))"
  "(\<And>h r. get (upd h r) = h (get r)) \<Longrightarrow> (\<And>h q. g' (u h q) = g' q) \<Longrightarrow>
     keeps (embed get upd (field t om c g u)) (embed get upd (field t'' om'' c'' g' u'))"
  by (auto simp: keeps_def field_def embed_def)

lemma embed_simps [simp]:
  "tag (embed get upd f) = tag f"
  "omitempty (embed get upd f) = omitempty f"
  "encode_field (embed get upd f) r = encode_field f (get r)"
  "same_field (embed get upd f) r r' \<longleftrightarrow> same_field f (get r) (get r')"
  by (simp_all add: embed_def)

subsection \<open>Structs round-trip\<close>

locale struct =
  fixes fs :: "'r field list" and P :: "'r \<Rightarrow> bool"
  assumes tags: "distinct (map tag fs)"
    and tags_ok: "list_all text_ok (map tag fs)"
    and fields: "list_all (field_ok P) fs"
    and indep: "independent fs"
    and extensional: "list_all (\<lambda>f. same_field f r r') fs \<Longrightarrow> r = r'"
begin

lemma lookup: "f \<in> set fs \<Longrightarrow> lookup_field fs (tag f) = Some f"
  using tags by (simp add: lookup_field_def find_tag)

lemma field_okD: "f \<in> set fs \<Longrightarrow> field_ok P f"
  using fields by (simp add: list_all_iff)

lemma unmarshal_members_back:
  assumes "P r" and "set ms \<subseteq> (\<lambda>f. (tag f, json_sort (encode_field f r))) ` set fs"
  shows "\<exists>r1. unmarshal_members fs ms r0 = Some r1 \<and>
    (\<forall>f \<in> set fs. same_field f r1 (if tag f \<in> fst ` set ms then r else r0))"
  using assms(2)
proof (induction ms arbitrary: r0)
  case Nil
  then show ?case using field_okD field_ok_refl by fastforce
next
  case (Cons m ms)
  from Cons.prems obtain f where f: "f \<in> set fs" "m = (tag f, json_sort (encode_field f r))"
    by auto
  then have ok: "field_ok P f" by (simp add: field_okD)
  then obtain r' where r': "store_field f (json_sort (encode_field f r)) r0 = Some r'" "same_field f r' r"
    using field_ok_store [OF ok \<open>P r\<close>] by blast
  have sub: "set ms \<subseteq> (\<lambda>f. (tag f, json_sort (encode_field f r))) ` set fs"
    using Cons.prems by simp
  obtain r1 where r1: "unmarshal_members fs ms r' = Some r1"
    "\<And>g. g \<in> set fs \<Longrightarrow> same_field g r1 (if tag g \<in> fst ` set ms then r else r')"
    using Cons.IH [OF sub, of r'] by blast
  have agree: "same_field g r1 (if tag g \<in> fst ` set (m # ms) then r else r0)" if g: "g \<in> set fs" for g
  proof (cases "tag g \<in> fst ` set ms")
    case True
    with r1(2) [OF g] show ?thesis by simp
  next
    case False
    with r1(2) [OF g] have 1: "same_field g r1 r'" by simp
    note trans = field_ok_trans [OF field_okD [OF g]]
    show ?thesis
    proof (cases "tag g = tag f")
      case True
      with f g tags have "g = f" by (auto simp: distinct_map inj_on_def)
      with f r' 1 trans [of r1 r' r] show ?thesis by simp
    next
      case neq: False
      with indep f g have "keeps f g" by (auto intro: independentD)
      with r' have "same_field g r' r0" by (auto simp: keeps_def)
      with False neq f 1 trans [of r1 r' r0] show ?thesis by simp
    qed
  qed
  from f r' r1(1) have "unmarshal_members fs (m # ms) r0 = Some r1" by (simp add: lookup)
  with agree show ?case by blast
qed

theorem unmarshal_marshal:
  assumes "P r" and zero: "\<And>f. f \<in> set fs \<Longrightarrow> omitempty f \<Longrightarrow> encode_field f r0 = JStr []"
  shows "unmarshal fs (json_sort (marshal fs r)) r0 = Some r"
proof -
  let ?kept = "filter (\<lambda>f. \<not> omitted r f) fs"
  let ?ms = "map (\<lambda>f. (tag f, json_sort (encode_field f r))) ?kept"
  have ms: "json_sort (marshal fs r) = JObj (sort_key fst ?ms)"
    by (simp add: marshal_def comp_def)
  have sub: "set (sort_key fst ?ms) \<subseteq> (\<lambda>f. (tag f, json_sort (encode_field f r))) ` set fs"
    by auto
  obtain r1 where r1: "unmarshal_members fs (sort_key fst ?ms) r0 = Some r1"
    "\<And>f. f \<in> set fs \<Longrightarrow> same_field f r1 (if tag f \<in> fst ` set (sort_key fst ?ms) then r else r0)"
    using unmarshal_members_back [OF assms(1) sub, of r0] by blast
  have "same_field f r1 r" if f: "f \<in> set fs" for f
  proof (cases "omitted r f")
    case False
    with f have "tag f \<in> fst ` set (sort_key fst ?ms)" by force
    with r1(2) [OF f] show ?thesis by simp
  next
    case True
    have "tag f \<notin> fst ` set (sort_key fst ?ms)"
    proof
      assume "tag f \<in> fst ` set (sort_key fst ?ms)"
      then obtain g where "g \<in> set fs" "\<not> omitted r g" "tag g = tag f" by force
      with f tags True show False by (metis distinct_map inj_on_def)
    qed
    with r1(2) [OF f] have "same_field f r1 r0" by simp
    moreover have "same_field f r0 r"
      using field_ok_omitted [OF field_okD [OF f]] True zero [OF f] by (simp add: omitted_def)
    ultimately show ?thesis by (rule field_ok_trans [OF field_okD [OF f]])
  qed
  then have "r1 = r" by (intro extensional) (simp add: list_all_iff)
  with r1(1) ms show ?thesis by (simp add: unmarshal_def)
qed

lemma marshal_ok: "P r \<Longrightarrow> json_ok (marshal fs r)"
  using field_ok_json [OF field_okD] tags_ok by (auto simp: marshal_def list_all_iff)

text \<open>The same for the text that is stored.\<close>

lemma Unmarshal_print:
  assumes "P r" and "\<And>f. f \<in> set fs \<Longrightarrow> omitempty f \<Longrightarrow> encode_field f r0 = JStr []"
  shows "Unmarshal fs (json_print (json_sort (marshal fs r))) r0 = Some r"
  using assms unmarshal_marshal [of r r0] marshal_ok [of r]
  by (simp add: Unmarshal_def json_parse_print json_ok_sort)

lemma struct_codec_ok:
  assumes "\<And>f. f \<in> set fs \<Longrightarrow> \<not> omitempty f"
  shows "codec_ok (struct_codec fs) P"
  using assms unmarshal_marshal marshal_ok by (auto simp: codec_ok_def struct_codec_def)

end

end
