(* ===== verification/Models.thy ===== *)
theory Models
  imports Struct
begin

text \<open>
  The data of \<open>models.go\<close>: the four organizations and six lifecycle states, the public
  records (batch, evidence references, transfer, receipt, event, lot), the command and its
  payloads, each as a record with the table of its \<open>json\<close> tags, and the proof that each
  of them survives being stored and loaded.
\<close>

subsection \<open>Organizations and states\<close>

definition Producer :: bytes where "Producer = ''ProducerMSP''"
definition Logistics :: bytes where "Logistics = ''LogisticsMSP''"
definition Retailer :: bytes where "Retailer = ''RetailerMSP''"
definition Regulator :: bytes where "Regulator = ''RegulatorMSP''"

definition Created :: bytes where "Created = ''CREATED''"
definition PickupPending :: bytes where "PickupPending = ''PICKUP_PENDING''"
definition InTransport :: bytes where "InTransport = ''IN_TRANSPORT''"
definition DeliveryPending :: bytes where "DeliveryPending = ''DELIVERY_PENDING''"
definition Received :: bytes where "Received = ''RECEIVED''"
definition RetailReported :: bytes where "RetailReported = ''RETAIL_REPORTED''"

lemmas msp_defs = Producer_def Logistics_def Retailer_def Regulator_def
lemmas state_defs = Created_def PickupPending_def InTransport_def DeliveryPending_def
  Received_def RetailReported_def

lemma msp_distinct [simp]: "distinct [Producer, Logistics, Retailer, Regulator]"
  by (simp add: msp_defs)

lemma msp_neq [simp]:
  "Producer \<noteq> Logistics" "Producer \<noteq> Retailer" "Producer \<noteq> Regulator"
  "Logistics \<noteq> Producer" "Logistics \<noteq> Retailer" "Logistics \<noteq> Regulator"
  "Retailer \<noteq> Producer" "Retailer \<noteq> Logistics" "Retailer \<noteq> Regulator"
  "Regulator \<noteq> Producer" "Regulator \<noteq> Logistics" "Regulator \<noteq> Retailer"
  "Producer \<noteq> []" "Logistics \<noteq> []" "Retailer \<noteq> []" "Regulator \<noteq> []"
  by (simp_all add: msp_defs)

lemma state_distinct:
  "distinct [Created, PickupPending, InTransport, DeliveryPending, Received, RetailReported]"
  by (simp add: state_defs)

lemma state_neq [simp]:
  "Created \<noteq> PickupPending" "Created \<noteq> InTransport" "Created \<noteq> DeliveryPending"
  "Created \<noteq> Received" "Created \<noteq> RetailReported"
  "PickupPending \<noteq> Created" "PickupPending \<noteq> InTransport" "PickupPending \<noteq> DeliveryPending"
  "PickupPending \<noteq> Received" "PickupPending \<noteq> RetailReported"
  "InTransport \<noteq> Created" "InTransport \<noteq> PickupPending" "InTransport \<noteq> DeliveryPending"
  "InTransport \<noteq> Received" "InTransport \<noteq> RetailReported"
  "DeliveryPending \<noteq> Created" "DeliveryPending \<noteq> PickupPending" "DeliveryPending \<noteq> InTransport"
  "DeliveryPending \<noteq> Received" "DeliveryPending \<noteq> RetailReported"
  "Received \<noteq> Created" "Received \<noteq> PickupPending" "Received \<noteq> InTransport"
  "Received \<noteq> DeliveryPending" "Received \<noteq> RetailReported"
  "RetailReported \<noteq> Created" "RetailReported \<noteq> PickupPending" "RetailReported \<noteq> InTransport"
  "RetailReported \<noteq> DeliveryPending" "RetailReported \<noteq> Received"
  using state_distinct by auto

subsection \<open>Public records\<close>

record TxTime =
  tm_Seconds :: bytes
  tm_Nanos :: int

definition TxTime_fields :: "TxTime field list" where
  "TxTime_fields = [
     str ''seconds'' tm_Seconds tm_Seconds_update,
     int32 ''nanos'' tm_Nanos tm_Nanos_update]"

definition TxTime_zero :: TxTime where
  "TxTime_zero = \<lparr> tm_Seconds = [], tm_Nanos = 0 \<rparr>"

record Command =
  c_SchemaVersion :: bytes
  c_OperationID :: bytes
  c_BatchID :: bytes
  c_ExpectedVersion :: int
  c_Command :: bytes
  c_Payload :: bytes

definition Command_fields :: "Command field list" where
  "Command_fields = [
     str ''schemaVersion'' c_SchemaVersion c_SchemaVersion_update,
     str ''operationId'' c_OperationID c_OperationID_update,
     str ''batchId'' c_BatchID c_BatchID_update,
     int64 ''expectedVersion'' c_ExpectedVersion c_ExpectedVersion_update,
     str ''command'' c_Command c_Command_update,
     field ''payload'' False raw_codec c_Payload c_Payload_update]"

definition Command_zero :: Command where
  "Command_zero = \<lparr> c_SchemaVersion = [], c_OperationID = [], c_BatchID = [],
     c_ExpectedVersion = 0, c_Command = [], c_Payload = [] \<rparr>"

record Batch =
  b_SchemaVersion :: bytes
  b_BatchID :: bytes
  b_ProductCode :: bytes
  b_GradeCode :: bytes
  b_QuantityGrams :: int
  b_OriginRegionCode :: bytes
  b_HarvestDate :: bytes
  b_ProducerMSP :: bytes
  b_LogisticsMSP :: bytes
  b_IntendedRetailerMSP :: bytes
  b_OwnerMSP :: bytes
  b_CustodianMSP :: bytes
  b_State :: bytes
  b_Version :: int
  b_RetailLotID :: bytes
  b_CreatedTxID :: bytes
  b_UpdatedTxID :: bytes
  b_TxTime :: TxTime

definition Batch_fields :: "Batch field list" where
  "Batch_fields = [
     str ''schemaVersion'' b_SchemaVersion b_SchemaVersion_update,
     str ''batchId'' b_BatchID b_BatchID_update,
     str ''productCode'' b_ProductCode b_ProductCode_update,
     str ''gradeCode'' b_GradeCode b_GradeCode_update,
     int64 ''quantityGrams'' b_QuantityGrams b_QuantityGrams_update,
     str ''originRegionCode'' b_OriginRegionCode b_OriginRegionCode_update,
     str ''harvestDate'' b_HarvestDate b_HarvestDate_update,
     str ''producerMsp'' b_ProducerMSP b_ProducerMSP_update,
     str ''logisticsMsp'' b_LogisticsMSP b_LogisticsMSP_update,
     str ''intendedRetailerMsp'' b_IntendedRetailerMSP b_IntendedRetailerMSP_update,
     str ''ownerMsp'' b_OwnerMSP b_OwnerMSP_update,
     str ''custodianMsp'' b_CustodianMSP b_CustodianMSP_update,
     str ''state'' b_State b_State_update,
     int64 ''version'' b_Version b_Version_update,
     str_omitempty ''retailLotId'' b_RetailLotID b_RetailLotID_update,
     str ''createdTxId'' b_CreatedTxID b_CreatedTxID_update,
     str ''updatedTxId'' b_UpdatedTxID b_UpdatedTxID_update,
     field ''txTime'' False (struct_codec TxTime_fields) b_TxTime b_TxTime_update]"

definition Batch_zero :: Batch where
  "Batch_zero = \<lparr> b_SchemaVersion = [], b_BatchID = [], b_ProductCode = [], b_GradeCode = [],
     b_QuantityGrams = 0, b_OriginRegionCode = [], b_HarvestDate = [], b_ProducerMSP = [],
     b_LogisticsMSP = [], b_IntendedRetailerMSP = [], b_OwnerMSP = [], b_CustodianMSP = [],
     b_State = [], b_Version = 0, b_RetailLotID = [], b_CreatedTxID = [], b_UpdatedTxID = [],
     b_TxTime = TxTime_zero \<rparr>"

record EvidenceRefs =
  e_SchemaVersion :: bytes
  e_BatchID :: bytes
  e_CKSDocumentID :: bytes
  e_PurchaseDocumentID :: bytes
  e_HKSDocumentID :: bytes
  e_TransportDocumentID :: bytes
  e_FreightCostID :: bytes
  e_RetailReportID :: bytes

definition EvidenceRefs_fields :: "EvidenceRefs field list" where
  "EvidenceRefs_fields = [
     str ''schemaVersion'' e_SchemaVersion e_SchemaVersion_update,
     str ''batchId'' e_BatchID e_BatchID_update,
     str_omitempty ''cksDocumentId'' e_CKSDocumentID e_CKSDocumentID_update,
     str_omitempty ''purchaseDocumentId'' e_PurchaseDocumentID e_PurchaseDocumentID_update,
     str_omitempty ''hksDocumentId'' e_HKSDocumentID e_HKSDocumentID_update,
     str_omitempty ''transportDocumentId'' e_TransportDocumentID e_TransportDocumentID_update,
     str_omitempty ''freightCostId'' e_FreightCostID e_FreightCostID_update,
     str_omitempty ''retailReportId'' e_RetailReportID e_RetailReportID_update]"

definition EvidenceRefs_zero :: EvidenceRefs where
  "EvidenceRefs_zero = \<lparr> e_SchemaVersion = [], e_BatchID = [], e_CKSDocumentID = [],
     e_PurchaseDocumentID = [], e_HKSDocumentID = [], e_TransportDocumentID = [],
     e_FreightCostID = [], e_RetailReportID = [] \<rparr>"

record Transfer =
  t_SchemaVersion :: bytes
  t_TransferID :: bytes
  t_BatchID :: bytes
  t_Kind :: bytes
  t_Status :: bytes
  t_FromMSP :: bytes
  t_ToMSP :: bytes
  t_QuantityGrams :: int
  t_OfferOperationID :: bytes
  t_AcceptOperationID :: bytes
  t_OfferedTxID :: bytes
  t_AcceptedTxID :: bytes

definition Transfer_fields :: "Transfer field list" where
  "Transfer_fields = [
     str ''schemaVersion'' t_SchemaVersion t_SchemaVersion_update,
     str ''transferId'' t_TransferID t_TransferID_update,
     str ''batchId'' t_BatchID t_BatchID_update,
     str ''kind'' t_Kind t_Kind_update,
     str ''status'' t_Status t_Status_update,
     str ''fromMsp'' t_FromMSP t_FromMSP_update,
     str ''toMsp'' t_ToMSP t_ToMSP_update,
     int64 ''quantityGrams'' t_QuantityGrams t_QuantityGrams_update,
     str ''offerOperationId'' t_OfferOperationID t_OfferOperationID_update,
     str_omitempty ''acceptOperationId'' t_AcceptOperationID t_AcceptOperationID_update,
     str ''offeredTxId'' t_OfferedTxID t_OfferedTxID_update,
     str_omitempty ''acceptedTxId'' t_AcceptedTxID t_AcceptedTxID_update]"

definition Transfer_zero :: Transfer where
  "Transfer_zero = \<lparr> t_SchemaVersion = [], t_TransferID = [], t_BatchID = [], t_Kind = [],
     t_Status = [], t_FromMSP = [], t_ToMSP = [], t_QuantityGrams = 0, t_OfferOperationID = [],
     t_AcceptOperationID = [], t_OfferedTxID = [], t_AcceptedTxID = [] \<rparr>"

record Receipt =
  r_SchemaVersion :: bytes
  r_OperationID :: bytes
  r_BatchID :: bytes
  r_Command :: bytes
  r_ActorMSP :: bytes
  r_TxID :: bytes
  r_TxTime :: TxTime
  r_ResultVersion :: int
  r_ObjectIDs :: "bytes list"

definition Receipt_fields :: "Receipt field list" where
  "Receipt_fields = [
     str ''schemaVersion'' r_SchemaVersion r_SchemaVersion_update,
     str ''operationId'' r_OperationID r_OperationID_update,
     str ''batchId'' r_BatchID r_BatchID_update,
     str ''command'' r_Command r_Command_update,
     str ''actorMsp'' r_ActorMSP r_ActorMSP_update,
     str ''txId'' r_TxID r_TxID_update,
     field ''txTime'' False (struct_codec TxTime_fields) r_TxTime r_TxTime_update,
     int64 ''resultVersion'' r_ResultVersion r_ResultVersion_update,
     field ''objectIds'' False (list_codec string_codec []) r_ObjectIDs r_ObjectIDs_update]"

definition Receipt_zero :: Receipt where
  "Receipt_zero = \<lparr> r_SchemaVersion = [], r_OperationID = [], r_BatchID = [], r_Command = [],
     r_ActorMSP = [], r_TxID = [], r_TxTime = TxTime_zero, r_ResultVersion = 0,
     r_ObjectIDs = [] \<rparr>"

record Event =
  ev_SchemaVersion :: bytes
  ev_EventType :: bytes
  ev_OperationID :: bytes
  ev_BatchID :: bytes
  ev_ActorMSP :: bytes
  ev_TxID :: bytes
  ev_TxTime :: TxTime
  ev_ResultVersion :: int
  ev_ObjectIDs :: "bytes list"
  ev_PreviousState :: bytes
  ev_NewState :: bytes

definition Event_fields :: "Event field list" where
  "Event_fields = [
     str ''schemaVersion'' ev_SchemaVersion ev_SchemaVersion_update,
     str ''eventType'' ev_EventType ev_EventType_update,
     str ''operationId'' ev_OperationID ev_OperationID_update,
     str ''batchId'' ev_BatchID ev_BatchID_update,
     str ''actorMsp'' ev_ActorMSP ev_ActorMSP_update,
     str ''txId'' ev_TxID ev_TxID_update,
     field ''txTime'' False (struct_codec TxTime_fields) ev_TxTime ev_TxTime_update,
     int64 ''resultVersion'' ev_ResultVersion ev_ResultVersion_update,
     field ''objectIds'' False (list_codec string_codec []) ev_ObjectIDs ev_ObjectIDs_update,
     str ''previousState'' ev_PreviousState ev_PreviousState_update,
     str ''newState'' ev_NewState ev_NewState_update]"

record Lot =
  l_SchemaVersion :: bytes
  l_RetailLotID :: bytes
  l_BatchID :: bytes
  l_QuantityGrams :: int
  l_RetailerMSP :: bytes
  l_ReportID :: bytes
  l_TxID :: bytes

definition Lot_fields :: "Lot field list" where
  "Lot_fields = [
     str ''schemaVersion'' l_SchemaVersion l_SchemaVersion_update,
     str ''retailLotId'' l_RetailLotID l_RetailLotID_update,
     str ''batchId'' l_BatchID l_BatchID_update,
     int64 ''quantityGrams'' l_QuantityGrams l_QuantityGrams_update,
     str ''retailerMsp'' l_RetailerMSP l_RetailerMSP_update,
     str ''reportId'' l_ReportID l_ReportID_update,
     str ''txId'' l_TxID l_TxID_update]"

subsection \<open>Command payloads\<close>

record createInput =
  ci_ProductCode :: bytes
  ci_GradeCode :: bytes
  ci_QuantityGrams :: int
  ci_OriginRegionCode :: bytes
  ci_HarvestDate :: bytes
  ci_LogisticsMSP :: bytes
  ci_IntendedRetailerMSP :: bytes

definition createInput_fields :: "createInput field list" where
  "createInput_fields = [
     str ''productCode'' ci_ProductCode ci_ProductCode_update,
     str ''gradeCode'' ci_GradeCode ci_GradeCode_update,
     int64 ''quantityGrams'' ci_QuantityGrams ci_QuantityGrams_update,
     str ''originRegionCode'' ci_OriginRegionCode ci_OriginRegionCode_update,
     str ''harvestDate'' ci_HarvestDate ci_HarvestDate_update,
     str ''logisticsMsp'' ci_LogisticsMSP ci_LogisticsMSP_update,
     str ''intendedRetailerMsp'' ci_IntendedRetailerMSP ci_IntendedRetailerMSP_update]"

definition createInput_zero :: createInput where
  "createInput_zero = \<lparr> ci_ProductCode = [], ci_GradeCode = [], ci_QuantityGrams = 0,
     ci_OriginRegionCode = [], ci_HarvestDate = [], ci_LogisticsMSP = [],
     ci_IntendedRetailerMSP = [] \<rparr>"

record handoffInput =
  hi_TransferID :: bytes
  hi_QuantityGrams :: int

definition handoffInput_fields :: "handoffInput field list" where
  "handoffInput_fields = [
     str ''transferId'' hi_TransferID hi_TransferID_update,
     int64 ''quantityGrams'' hi_QuantityGrams hi_QuantityGrams_update]"

definition handoffInput_zero :: handoffInput where
  "handoffInput_zero = \<lparr> hi_TransferID = [], hi_QuantityGrams = 0 \<rparr>"

record freightInput =
  fi_CostID :: bytes

definition freightInput_fields :: "freightInput field list" where
  "freightInput_fields = [str ''costId'' fi_CostID fi_CostID_update]"

definition freightInput_zero :: freightInput where
  "freightInput_zero = \<lparr> fi_CostID = [] \<rparr>"

record reportInput =
  ri_ReportID :: bytes
  ri_RetailLotID :: bytes
  ri_PolicyID :: bytes

definition reportInput_fields :: "reportInput field list" where
  "reportInput_fields = [
     str ''reportId'' ri_ReportID ri_ReportID_update,
     str ''retailLotId'' ri_RetailLotID ri_RetailLotID_update,
     str ''policyId'' ri_PolicyID ri_PolicyID_update]"

definition reportInput_zero :: reportInput where
  "reportInput_zero = \<lparr> ri_ReportID = [], ri_RetailLotID = [], ri_PolicyID = [] \<rparr>"

text \<open>The payload of the analysis commands, from \<open>analysis.go\<close>.\<close>

record analysisInput =
  ai_AnomalyID :: bytes
  ai_ReportID :: bytes

definition analysisInput_fields :: "analysisInput field list" where
  "analysisInput_fields = [
     str ''anomalyId'' ai_AnomalyID ai_AnomalyID_update,
     str ''reportId'' ai_ReportID ai_ReportID_update]"

definition analysisInput_zero :: analysisInput where
  "analysisInput_zero = \<lparr> ai_AnomalyID = [], ai_ReportID = [] \<rparr>"


subsection \<open>Every record survives being stored and loaded\<close>

text \<open>
  \<open>X_ok\<close>: the strings of a record are valid UTF-8 and its integers fit their width, which is all
  that its encoding needs to be read back.
\<close>

definition TxTime_ok :: "TxTime \<Rightarrow> bool" where
  "TxTime_ok r \<longleftrightarrow> text_ok (tm_Seconds r) \<and> int_ok 32 (tm_Nanos r)"

interpretation tx_time: struct TxTime_fields TxTime_ok
  by unfold_locales (auto simp: TxTime_fields_def TxTime_ok_def keeps_field intro!: field_rules)

lemma TxTime_codec_ok: "codec_ok (struct_codec TxTime_fields) TxTime_ok"
  by (rule tx_time.struct_codec_ok) (auto simp: TxTime_fields_def)

lemmas field_okI_TxTime [field_rules] = field_okI [OF TxTime_codec_ok]

definition Command_ok :: "Command \<Rightarrow> bool" where
  "Command_ok r \<longleftrightarrow> list_all text_ok
     [c_SchemaVersion r, c_OperationID r, c_BatchID r, c_Command r]
   \<and> int_ok 64 (c_ExpectedVersion r)
   \<and> raw_ok (c_Payload r)"

interpretation command: struct Command_fields Command_ok
  by unfold_locales (auto simp: Command_fields_def Command_ok_def keeps_field intro!: field_rules)

definition Batch_ok :: "Batch \<Rightarrow> bool" where
  "Batch_ok r \<longleftrightarrow> list_all text_ok
     [b_SchemaVersion r, b_BatchID r, b_ProductCode r, b_GradeCode r, b_OriginRegionCode r,
      b_HarvestDate r, b_ProducerMSP r, b_LogisticsMSP r, b_IntendedRetailerMSP r, b_OwnerMSP r,
      b_CustodianMSP r, b_State r, b_RetailLotID r, b_CreatedTxID r, b_UpdatedTxID r]
   \<and> int_ok 64 (b_QuantityGrams r)
   \<and> int_ok 64 (b_Version r)
   \<and> TxTime_ok (b_TxTime r)"

interpretation batch: struct Batch_fields Batch_ok
  by unfold_locales (auto simp: Batch_fields_def Batch_ok_def keeps_field intro!: field_rules)

definition EvidenceRefs_ok :: "EvidenceRefs \<Rightarrow> bool" where
  "EvidenceRefs_ok r \<longleftrightarrow> list_all text_ok
     [e_SchemaVersion r, e_BatchID r, e_CKSDocumentID r, e_PurchaseDocumentID r,
      e_HKSDocumentID r, e_TransportDocumentID r, e_FreightCostID r, e_RetailReportID r]"

interpretation evidence_refs: struct EvidenceRefs_fields EvidenceRefs_ok
  by unfold_locales (auto simp: EvidenceRefs_fields_def EvidenceRefs_ok_def keeps_field intro!: field_rules)

definition Transfer_ok :: "Transfer \<Rightarrow> bool" where
  "Transfer_ok r \<longleftrightarrow> list_all text_ok
     [t_SchemaVersion r, t_TransferID r, t_BatchID r, t_Kind r, t_Status r, t_FromMSP r,
      t_ToMSP r, t_OfferOperationID r, t_AcceptOperationID r, t_OfferedTxID r, t_AcceptedTxID r]
   \<and> int_ok 64 (t_QuantityGrams r)"

interpretation transfer: struct Transfer_fields Transfer_ok
  by unfold_locales (auto simp: Transfer_fields_def Transfer_ok_def keeps_field intro!: field_rules)

definition Receipt_ok :: "Receipt \<Rightarrow> bool" where
  "Receipt_ok r \<longleftrightarrow> list_all text_ok
     [r_SchemaVersion r, r_OperationID r, r_BatchID r, r_Command r, r_ActorMSP r, r_TxID r]
   \<and> TxTime_ok (r_TxTime r)
   \<and> int_ok 64 (r_ResultVersion r)
   \<and> list_all text_ok (r_ObjectIDs r)"

interpretation receipt: struct Receipt_fields Receipt_ok
  by unfold_locales (auto simp: Receipt_fields_def Receipt_ok_def keeps_field intro!: field_rules)

definition Event_ok :: "Event \<Rightarrow> bool" where
  "Event_ok r \<longleftrightarrow> list_all text_ok
     [ev_SchemaVersion r, ev_EventType r, ev_OperationID r, ev_BatchID r, ev_ActorMSP r,
      ev_TxID r, ev_PreviousState r, ev_NewState r]
   \<and> TxTime_ok (ev_TxTime r)
   \<and> int_ok 64 (ev_ResultVersion r)
   \<and> list_all text_ok (ev_ObjectIDs r)"

interpretation event: struct Event_fields Event_ok
  by unfold_locales (auto simp: Event_fields_def Event_ok_def keeps_field intro!: field_rules)

definition Lot_ok :: "Lot \<Rightarrow> bool" where
  "Lot_ok r \<longleftrightarrow> list_all text_ok
     [l_SchemaVersion r, l_RetailLotID r, l_BatchID r, l_RetailerMSP r, l_ReportID r, l_TxID r]
   \<and> int_ok 64 (l_QuantityGrams r)"

interpretation lot: struct Lot_fields Lot_ok
  by unfold_locales (auto simp: Lot_fields_def Lot_ok_def keeps_field intro!: field_rules)

definition createInput_ok :: "createInput \<Rightarrow> bool" where
  "createInput_ok r \<longleftrightarrow> list_all text_ok
     [ci_ProductCode r, ci_GradeCode r, ci_OriginRegionCode r, ci_HarvestDate r,
      ci_LogisticsMSP r, ci_IntendedRetailerMSP r]
   \<and> int_ok 64 (ci_QuantityGrams r)"

interpretation create_input: struct createInput_fields createInput_ok
  by unfold_locales (auto simp: createInput_fields_def createInput_ok_def keeps_field intro!: field_rules)

definition handoffInput_ok :: "handoffInput \<Rightarrow> bool" where
  "handoffInput_ok r \<longleftrightarrow> list_all text_ok
     [hi_TransferID r]
   \<and> int_ok 64 (hi_QuantityGrams r)"

interpretation handoff_input: struct handoffInput_fields handoffInput_ok
  by unfold_locales (auto simp: handoffInput_fields_def handoffInput_ok_def keeps_field intro!: field_rules)

definition freightInput_ok :: "freightInput \<Rightarrow> bool" where
  "freightInput_ok r \<longleftrightarrow> list_all text_ok
     [fi_CostID r]"

interpretation freight_input: struct freightInput_fields freightInput_ok
  by unfold_locales (auto simp: freightInput_fields_def freightInput_ok_def keeps_field intro!: field_rules)

definition reportInput_ok :: "reportInput \<Rightarrow> bool" where
  "reportInput_ok r \<longleftrightarrow> list_all text_ok
     [ri_ReportID r, ri_RetailLotID r, ri_PolicyID r]"

interpretation report_input: struct reportInput_fields reportInput_ok
  by unfold_locales (auto simp: reportInput_fields_def reportInput_ok_def keeps_field intro!: field_rules)

definition analysisInput_ok :: "analysisInput \<Rightarrow> bool" where
  "analysisInput_ok r \<longleftrightarrow> list_all text_ok
     [ai_AnomalyID r, ai_ReportID r]"

interpretation analysis_input: struct analysisInput_fields analysisInput_ok
  by unfold_locales (auto simp: analysisInput_fields_def analysisInput_ok_def keeps_field intro!: field_rules)

end
