(* ===== verification/Dates.thy ===== *)
theory Dates
  imports Text
begin

text \<open>
  \<open>time.Parse\<close> and \<open>Time.Format\<close> for the two layouts of the chaincode, \<open>2006-01-02\<close> and
  \<open>2006-01-02T15:04:05.000Z\<close>.  The parser accepts what Go's accepts, including a one-digit
  hour, a comma before the fraction and a sign in it, so that the comparison with the formatted
  time, which the code makes, has something to reject.
\<close>

record datetime =
  dt_year :: int
  dt_month :: int
  dt_day :: int
  dt_hour :: int
  dt_minute :: int
  dt_second :: int
  dt_milli :: int

subsection \<open>Parsing\<close>

text \<open>\<open>getnum\<close>: two digits, or one when \<open>fixed\<close> is off.\<close>

definition getnum :: "bool \<Rightarrow> bytes \<Rightarrow> (int \<times> bytes) option" where
  "getnum fixed s =
     (case s of
       [] \<Rightarrow> None
     | a # t \<Rightarrow>
         if \<not> is_digit a then None
         else case t of
           [] \<Rightarrow> if fixed then None else Some (digit_val a, t)
         | b # u \<Rightarrow>
             if is_digit b then Some (digit_val a * 10 + digit_val b, u)
             else if fixed then None else Some (digit_val a, t))"

definition parse_year :: "bytes \<Rightarrow> (int \<times> bytes) option" where
  "parse_year s =
     (case s of
       a # b # c # d # t \<Rightarrow>
         if list_all is_digit [a, b, c, d]
         then Some (digit_val a * 1000 + digit_val b * 100 + digit_val c * 10 + digit_val d, t)
         else None
     | _ \<Rightarrow> None)"

definition expect :: "char \<Rightarrow> bytes \<Rightarrow> bytes option" where
  "expect c s = (case s of [] \<Rightarrow> None | d # t \<Rightarrow> if d = c then Some t else None)"

text \<open>The fraction \<open>.000\<close>: a period or comma and three bytes that \<open>atoi\<close> accepts.\<close>

definition parse_milli :: "bytes \<Rightarrow> (int \<times> bytes) option" where
  "parse_milli s =
     (case s of
       p # a # b # c # t \<Rightarrow>
         if p = CHR ''.'' \<or> p = CHR '','' then
           (case Atoi [a, b, c] of
             None \<Rightarrow> None
           | Some n \<Rightarrow> if n < 0 then None else Some (n, t))
         else None
     | _ \<Rightarrow> None)"

definition leap :: "int \<Rightarrow> bool" where
  "leap y \<longleftrightarrow> y mod 4 = 0 \<and> (y mod 100 \<noteq> 0 \<or> y mod 400 = 0)"

definition days_in :: "int \<Rightarrow> int \<Rightarrow> int" where
  "days_in m y =
     (if m = 2 then (if leap y then 29 else 28)
      else if m = 4 \<or> m = 6 \<or> m = 9 \<or> m = 11 then 30 else 31)"

definition parse_ymd :: "bytes \<Rightarrow> ((int \<times> int \<times> int) \<times> bytes) option" where
  "parse_ymd s = do {
     (y, s) \<leftarrow> parse_year s;
     s \<leftarrow> expect (CHR ''-'') s;
     (m, s) \<leftarrow> getnum True s;
     s \<leftarrow> expect (CHR ''-'') s;
     (d, s) \<leftarrow> getnum True s;
     Some ((y, m, d), s)
   }"

definition valid_ymd :: "int \<times> int \<times> int \<Rightarrow> bool" where
  "valid_ymd = (\<lambda>(y, m, d). 1 \<le> m \<and> m \<le> 12 \<and> 1 \<le> d \<and> d \<le> days_in m y)"

definition parse_date :: "bytes \<Rightarrow> datetime option" where
  "parse_date s = do {
     ((y, m, d), rest) \<leftarrow> parse_ymd s;
     if rest = [] \<and> valid_ymd (y, m, d)
     then Some \<lparr> dt_year = y, dt_month = m, dt_day = d, dt_hour = 0, dt_minute = 0,
                 dt_second = 0, dt_milli = 0 \<rparr>
     else None
   }"

definition parse_datetime :: "bytes \<Rightarrow> datetime option" where
  "parse_datetime s = do {
     ((y, m, d), s) \<leftarrow> parse_ymd s;
     s \<leftarrow> expect (CHR ''T'') s;
     (hh, s) \<leftarrow> getnum False s;
     s \<leftarrow> expect (CHR '':'') s;
     (mm, s) \<leftarrow> getnum True s;
     s \<leftarrow> expect (CHR '':'') s;
     (ss, s) \<leftarrow> getnum True s;
     (ms, s) \<leftarrow> parse_milli s;
     s \<leftarrow> expect (CHR ''Z'') s;
     if s = [] \<and> valid_ymd (y, m, d) \<and> hh < 24 \<and> mm < 60 \<and> ss < 60
     then Some \<lparr> dt_year = y, dt_month = m, dt_day = d, dt_hour = hh, dt_minute = mm,
                 dt_second = ss, dt_milli = ms \<rparr>
     else None
   }"

subsection \<open>Formatting\<close>

definition two :: "int \<Rightarrow> bytes" where
  "two n = [digit_char (n div 10), digit_char (n mod 10)]"

definition three :: "int \<Rightarrow> bytes" where
  "three n = digit_char (n div 100) # two (n mod 100)"

definition four :: "int \<Rightarrow> bytes" where
  "four n = two (n div 100) @ two (n mod 100)"

definition format_date :: "datetime \<Rightarrow> bytes" where
  "format_date t = four (dt_year t) @ ''-'' @ two (dt_month t) @ ''-'' @ two (dt_day t)"

definition format_datetime :: "datetime \<Rightarrow> bytes" where
  "format_datetime t = format_date t @ ''T'' @ two (dt_hour t) @ '':'' @ two (dt_minute t)
     @ '':'' @ two (dt_second t) @ ''.'' @ three (dt_milli t) @ ''Z''"

text \<open>The harvest date check of \<open>validatePayload\<close> and \<open>validDateTime\<close> of \<open>evidence.go\<close>.\<close>

definition validHarvestDate :: "bytes \<Rightarrow> bool" where
  "validHarvestDate s =
     (case parse_date s of None \<Rightarrow> False | Some t \<Rightarrow> format_date t = s)"

definition validDateTime :: "bytes \<Rightarrow> bool" where
  "validDateTime s =
     (case parse_datetime s of None \<Rightarrow> False | Some t \<Rightarrow> format_datetime t = s)"

subsection \<open>What the checks accept\<close>

definition date_ok :: "datetime \<Rightarrow> bool" where
  "date_ok t \<longleftrightarrow> 0 \<le> dt_year t \<and> dt_year t \<le> 9999
     \<and> valid_ymd (dt_year t, dt_month t, dt_day t)"

definition time_ok :: "datetime \<Rightarrow> bool" where
  "time_ok t \<longleftrightarrow> 0 \<le> dt_hour t \<and> dt_hour t < 24 \<and> 0 \<le> dt_minute t \<and> dt_minute t < 60
     \<and> 0 \<le> dt_second t \<and> dt_second t < 60 \<and> 0 \<le> dt_milli t \<and> dt_milli t < 1000"

lemma digit_val_range: "is_digit c \<Longrightarrow> 0 \<le> digit_val c \<and> digit_val c < 10"
  by (simp add: is_digit_def digit_val_def)

lemma getnum_two: "0 \<le> n \<Longrightarrow> n < 100 \<Longrightarrow> getnum fixed (two n @ s) = Some (n, s)"
  by (simp add: getnum_def two_def digit_char_props)

lemma two_digits: "0 \<le> n \<Longrightarrow> n < 100 \<Longrightarrow> list_all is_digit (two n)"
  by (simp add: two_def digit_char_props)

lemma four_decimals:
  "n div 100 div 10 * 1000 + n div 100 mod 10 * 100 + n mod 100 div 10 * 10 + n mod 100 mod 10 = n"
  for n :: int
  using div_mult_mod_eq [of n 100] div_mult_mod_eq [of "n div 100" 10]
    div_mult_mod_eq [of "n mod 100" 10]
  by linarith

lemma parse_year_four: "0 \<le> n \<Longrightarrow> n \<le> 9999 \<Longrightarrow> parse_year (four n @ s) = Some (n, s)"
proof -
  assume n: "0 \<le> n" "n \<le> 9999"
  have digits: "parse_year (digit_char a # digit_char b # digit_char c # digit_char d # s)
      = Some (a * 1000 + b * 100 + c * 10 + d, s)"
    if "0 \<le> a" "a < 10" "0 \<le> b" "b < 10" "0 \<le> c" "c < 10" "0 \<le> d" "d < 10" for a b c d
    using that by (simp add: parse_year_def digit_char_props)
  have "0 \<le> n div 100 div 10" "n div 100 div 10 < 10" using n by linarith+
  then show ?thesis
    using digits [of "n div 100 div 10" "n div 100 mod 10" "n mod 100 div 10" "n mod 100 mod 10"]
    by (simp only: four_def two_def append.simps four_decimals)
qed

lemma expect_Cons [simp]: "expect c (c # s) = Some s"
  by (simp add: expect_def)

lemma Atoi_three:
  assumes "0 \<le> a" "a < 10" "0 \<le> b" "b < 10" "0 \<le> c" "c < 10"
  shows "Atoi [digit_char a, digit_char b, digit_char c] = Some (a * 100 + b * 10 + c)"
proof -
  have "digit_char a \<noteq> CHR ''+''" "digit_char a \<noteq> CHR ''-''"
    using digit_char_props(1) [OF assms(1,2)] by (auto simp: is_digit_code)
  with assms show ?thesis by (simp add: Atoi_def ParseInt_def digit_char_props)
qed

lemma three_decimals: "n div 100 * 100 + n mod 100 div 10 * 10 + n mod 100 mod 10 = n" for n :: int
  by presburger

lemma parse_milli_three:
  assumes "0 \<le> n" "n < 1000"
  shows "parse_milli (CHR ''.'' # three n @ s) = Some (n, s)"
proof -
  have "Atoi [digit_char (n div 100), digit_char (n mod 100 div 10), digit_char (n mod 100 mod 10)]
      = Some n"
    using assms Atoi_three [of "n div 100" "n mod 100 div 10" "n mod 100 mod 10"]
    by (simp add: three_decimals)
  with assms show ?thesis by (simp add: parse_milli_def three_def two_def)
qed

lemma parse_ymd_format:
  assumes "date_ok t"
  shows "parse_ymd (format_date t @ s) = Some ((dt_year t, dt_month t, dt_day t), s)"
proof -
  have "days_in (dt_month t) (dt_year t) < 100" by (simp add: days_in_def)
  with assms show ?thesis
    by (simp add: parse_ymd_def format_date_def date_ok_def valid_ymd_def parse_year_four getnum_two)
qed

lemma parse_format_date:
  assumes "date_ok t"
  shows "\<exists>u. parse_date (format_date t) = Some u \<and> format_date u = format_date t"
  using parse_ymd_format [OF assms, of "[]"] assms
  by (simp add: parse_date_def date_ok_def format_date_def)

lemma parse_format_datetime:
  assumes "date_ok t" "time_ok t"
  shows "parse_datetime (format_datetime t) = Some t"
proof -
  have "parse_ymd (format_datetime t) = Some ((dt_year t, dt_month t, dt_day t),
      ''T'' @ two (dt_hour t) @ '':'' @ two (dt_minute t)
        @ '':'' @ two (dt_second t) @ ''.'' @ three (dt_milli t) @ ''Z'')"
    using parse_ymd_format [OF assms(1)] by (simp only: format_datetime_def)
  with assms show ?thesis
    by (simp add: parse_datetime_def getnum_two parse_milli_three time_ok_def date_ok_def)
qed

lemma parse_year_range: "parse_year s = Some (y, t) \<Longrightarrow> 0 \<le> y \<and> y \<le> 9999"
  by (auto simp: parse_year_def dest!: digit_val_range split: list.splits if_splits)

lemma getnum_range: "getnum fixed s = Some (n, t) \<Longrightarrow> 0 \<le> n \<and> n < 100"
  by (auto simp: getnum_def dest!: digit_val_range split: list.splits if_splits)

lemma Atoi_three_range: "Atoi [a, b, c] = Some n \<Longrightarrow> n < 1000"
  by (auto simp: Atoi_def ParseInt_def Let_def dest!: digit_val_range split: if_splits)

lemma parse_milli_range: "parse_milli s = Some (n, t) \<Longrightarrow> 0 \<le> n \<and> n < 1000"
  by (auto simp: parse_milli_def dest: Atoi_three_range split: list.splits if_splits option.splits)

lemma parse_ymd_ok:
  "parse_ymd s = Some ((y, m, d), t) \<Longrightarrow> 0 \<le> y \<and> y \<le> 9999"
  by (auto simp: parse_ymd_def bind_eq_Some_conv dest: parse_year_range)

text \<open>
  The checks accept exactly the canonical text of a calendar date, and of an instant of a
  day in milliseconds: nothing that Go's parser tolerates besides gets through.
\<close>

lemma validHarvestDate_iff: "validHarvestDate s \<longleftrightarrow> (\<exists>t. date_ok t \<and> s = format_date t)"
proof
  assume "validHarvestDate s"
  then obtain t where t: "parse_date s = Some t" "s = format_date t"
    by (auto simp: validHarvestDate_def split: option.splits)
  then have "date_ok t"
    by (auto simp: parse_date_def date_ok_def bind_eq_Some_conv dest: parse_ymd_ok split: if_splits)
  with t show "\<exists>t. date_ok t \<and> s = format_date t" by blast
next
  assume "\<exists>t. date_ok t \<and> s = format_date t"
  then show "validHarvestDate s"
    using parse_format_date by (fastforce simp: validHarvestDate_def)
qed

lemma validDateTime_iff: "validDateTime s \<longleftrightarrow> (\<exists>t. date_ok t \<and> time_ok t \<and> s = format_datetime t)"
proof
  assume "validDateTime s"
  then obtain t where t: "parse_datetime s = Some t" "s = format_datetime t"
    by (auto simp: validDateTime_def split: option.splits)
  then have "date_ok t" "time_ok t"
    by (auto simp: parse_datetime_def date_ok_def time_ok_def bind_eq_Some_conv
        dest: parse_ymd_ok getnum_range parse_milli_range split: if_splits)
  with t show "\<exists>t. date_ok t \<and> time_ok t \<and> s = format_datetime t" by blast
next
  assume "\<exists>t. date_ok t \<and> time_ok t \<and> s = format_datetime t"
  then show "validDateTime s"
    using parse_format_datetime by (auto simp: validDateTime_def)
qed

lemma format_date_printable: "date_ok t \<Longrightarrow> list_all printable (format_date t)"
proof -
  assume "date_ok t"
  then have "0 \<le> dt_month t" "dt_month t < 100" "0 \<le> dt_day t" "dt_day t < 100"
    "0 \<le> dt_year t div 100" "dt_year t div 100 < 100"
    by (auto simp: date_ok_def valid_ymd_def days_in_def split: if_splits)
  then have "list_all is_digit (two (dt_month t))" "list_all is_digit (two (dt_day t))"
    "list_all is_digit (four (dt_year t))"
    by (simp_all add: two_digits four_def)
  moreover have "printable (CHR ''-'')" by (simp add: printable_def)
  ultimately show ?thesis by (simp add: format_date_def digits_printable)
qed

end
