(* ===== verification/Validation.thy ===== *)
theory Validation
  imports Models Dates
begin

text \<open>
  \<open>validation.go\<close>: identifiers, strict JSON, decoding with an exact set of fields, the checks
  of every command and payload, authorization, the canonical encoding and sorted identifier
  lists.
\<close>

subsection \<open>Identifiers, organizations, states\<close>

definition validID :: "bytes \<Rightarrow> bytes \<Rightarrow> bool" where
  "validID s prefix \<longleftrightarrow> HasPrefix s (prefix @ ''-'') \<and> match_identifier s"

definition member :: "bytes \<Rightarrow> bool" where
  "member m \<longleftrightarrow> m = Producer \<or> m = Logistics \<or> m = Retailer \<or> m = Regulator"

definition validState :: "bytes \<Rightarrow> bool" where
  "validState s \<longleftrightarrow> s = Created \<or> s = PickupPending \<or> s = InTransport \<or> s = DeliveryPending
     \<or> s = Received \<or> s = RetailReported"

subsection \<open>Strict JSON\<close>

definition safeString :: "bytes \<Rightarrow> bool" where
  "safeString s \<longleftrightarrow> \<not> len s > 512 \<and> list_all (\<lambda>(r, bs). \<not> (r < 32 \<or> r > 126)) (runes s)"

definition validExplanation :: "bytes \<Rightarrow> bool" where
  "validExplanation s \<longleftrightarrow> \<not> (blank s \<or> rune_count s > 2000)
     \<and> list_all (\<lambda>(r, bs). \<not> (r < 32 \<or> r = 127 \<or> r = rune_error)) (runes s)"

text \<open>
  \<open>tokenValue\<close> pulls tokens from the decoder and rejects as it goes.  Every rejection, of the
  decoder or of a check, ends in the one error \<open>INVALID_SCHEMA\<close>, so the model parses the text
  first and runs the same checks on the tree, level by level.
\<close>

fun tokenValue :: "nat \<Rightarrow> jv \<Rightarrow> bool" where
  "tokenValue depth (JArr vs) \<longleftrightarrow>
     \<not> depth > 8 \<and> len vs \<le> 16 \<and> list_all (tokenValue (Suc depth)) vs"
| "tokenValue depth (JObj ms) \<longleftrightarrow>
     \<not> depth > 8 \<and> len ms \<le> 32 \<and> distinct (map fst ms) \<and>
     list_all (\<lambda>(k, v).
       safeString k \<and> k \<noteq> ''__proto__'' \<and> k \<noteq> ''constructor'' \<and> k \<noteq> ''prototype'' \<and>
       (if k = ''explanation''
        then (case v of JStr s \<Rightarrow> validExplanation s | _ \<Rightarrow> False)
        else tokenValue (Suc depth) v)) ms"
| "tokenValue depth (JNum t) \<longleftrightarrow> \<not> depth > 8 \<and> match_integer t \<and> ParseInt 64 t \<noteq> None"
| "tokenValue depth (JStr s) \<longleftrightarrow> \<not> depth > 8 \<and> safeString s"
| "tokenValue depth (JBool b) \<longleftrightarrow> \<not> depth > 8"
| "tokenValue depth JNull \<longleftrightarrow> False"

definition strictJSON :: "bytes \<Rightarrow> jv res" where
  "strictJSON raw =
     (if len raw = 0 \<or> len raw > 65536 \<or> \<not> utf8_valid raw then Inl (fail ''INVALID_SCHEMA'')
      else case json_parse raw of
        None \<Rightarrow> Inl (fail ''INVALID_SCHEMA'')
      | Some v \<Rightarrow> if tokenValue 0 v then Inr v else Inl (fail ''INVALID_SCHEMA''))"

text \<open>
  \<open>decode(raw, &dst, fields...)\<close>: the object has exactly these members, then
  \<open>json.Unmarshal\<close>.  \<open>exact\<close> of \<open>evidence.go\<close> takes the fields from the struct itself.
\<close>

definition decode :: "'r field list \<Rightarrow> bytes \<Rightarrow> 'r \<Rightarrow> bytes list \<Rightarrow> 'r res" where
  "decode fs raw dst names = rbind (strictJSON raw) (\<lambda>v.
     case v of
       JObj ms \<Rightarrow>
         if len ms \<noteq> len names then Inl (fail ''INVALID_SCHEMA'')
         else if \<not> list_all (\<lambda>k. k \<in> set (map fst ms)) names then Inl (fail ''INVALID_SCHEMA'')
         else of_option (fail ''INVALID_SCHEMA'') (Unmarshal fs raw dst)
     | _ \<Rightarrow> Inl (fail ''INVALID_SCHEMA''))"

definition exact :: "'r field list \<Rightarrow> bytes \<Rightarrow> 'r \<Rightarrow> 'r res" where
  "exact fs raw dst = decode fs raw dst (map tag fs)"

subsection \<open>Canonical encoding\<close>

text \<open>
  \<open>canonical\<close> marshals, decodes into a generic tree and encodes that tree, whose maps come out
  in key order.  \<open>None\<close> is a value that cannot be marshalled, which only an invalid raw
  message can cause.
\<close>

definition canonical :: "jv option \<Rightarrow> bytes res" where
  "canonical v =
     (case v of
       None \<Rightarrow> Inl (fail ''INTERNAL_ERROR'')
     | Some w \<Rightarrow> Inr (json_print (json_sort w)))"

definition encodedExact :: "'r field list \<Rightarrow> jv option \<Rightarrow> 'r \<Rightarrow> 'r res" where
  "encodedExact fs v dst = rbind (canonical v) (\<lambda>raw. exact fs raw dst)"

definition sortedUnique :: "bytes list \<Rightarrow> bytes list" where
  "sortedUnique ids = remdups_adj (sort ids)"

subsection \<open>Commands\<close>

definition validatePayload :: "Command \<Rightarrow> unit res" where
  "validatePayload c =
     (let k = c_Command c in
      if k = ''EvaluatePrice'' \<or> k = ''OpenReview'' \<or> k = ''ResolveReview'' then
        rbind (decode analysisInput_fields (c_Payload c) analysisInput_zero
                 (if k = ''EvaluatePrice'' then [''anomalyId'', ''reportId''] else [''anomalyId''])) (\<lambda>p.
        if \<not> validID (ai_AnomalyID p) ''ANM''
           \<or> (k = ''EvaluatePrice'' \<and> \<not> validID (ai_ReportID p) ''RPT'')
        then Inl (fail ''INVALID_IDENTIFIER'')
        else Inr ())
      else if k = ''CreateBatch'' then
        rbind (decode createInput_fields (c_Payload c) createInput_zero
                 [''productCode'', ''gradeCode'', ''quantityGrams'', ''originRegionCode'',
                  ''harvestDate'', ''logisticsMsp'', ''intendedRetailerMsp'']) (\<lambda>p.
        if ci_QuantityGrams p < 1 \<or> ci_QuantityGrams p > 100000000
        then Inl (fail ''INVALID_QUANTITY'')
        else if ci_ProductCode p \<noteq> ''TOMATO'' \<or> ci_GradeCode p \<noteq> ''STANDARD''
           \<or> ci_LogisticsMSP p \<noteq> Logistics \<or> ci_IntendedRetailerMSP p \<noteq> Retailer
        then Inl (fail ''INVALID_SCHEMA'')
        else case Atoi (ci_OriginRegionCode p) of
          None \<Rightarrow> Inl (fail ''INVALID_SCHEMA'')
        | Some r \<Rightarrow>
            if len (ci_OriginRegionCode p) \<noteq> 2 \<or> r < 1 \<or> r > 81
            then Inl (fail ''INVALID_SCHEMA'')
            else if \<not> validHarvestDate (ci_HarvestDate p) then Inl (fail ''INVALID_SCHEMA'')
            else Inr ())
      else if k = ''OfferPickup'' \<or> k = ''AcceptPickup'' \<or> k = ''OfferDelivery''
           \<or> k = ''AcceptDelivery'' then
        rbind (decode handoffInput_fields (c_Payload c) handoffInput_zero
                 [''transferId'', ''quantityGrams'']) (\<lambda>p.
        if \<not> validID (hi_TransferID p) ''TRF'' then Inl (fail ''INVALID_IDENTIFIER'')
        else if hi_QuantityGrams p < 1 \<or> hi_QuantityGrams p > 100000000
        then Inl (fail ''INVALID_QUANTITY'')
        else Inr ())
      else if k = ''RecordFreightCost'' then
        rbind (decode freightInput_fields (c_Payload c) freightInput_zero [''costId'']) (\<lambda>p.
        if \<not> validID (fi_CostID p) ''CST'' then Inl (fail ''INVALID_IDENTIFIER'') else Inr ())
      else if k = ''ReportRetailPrice'' then
        rbind (decode reportInput_fields (c_Payload c) reportInput_zero
                 [''reportId'', ''retailLotId'', ''policyId'']) (\<lambda>p.
        if \<not> validID (ri_ReportID p) ''RPT'' \<or> \<not> validID (ri_RetailLotID p) ''LOT''
           \<or> \<not> validID (ri_PolicyID p) ''CFG''
        then Inl (fail ''INVALID_IDENTIFIER'')
        else Inr ())
      else Inl (fail ''UNSUPPORTED_PILOT_OPERATION''))"

definition parseCommand :: "bytes \<Rightarrow> bytes \<Rightarrow> Command res" where
  "parseCommand fn raw =
     rbind (decode Command_fields raw Command_zero
              [''schemaVersion'', ''operationId'', ''batchId'', ''expectedVersion'', ''command'',
               ''payload'']) (\<lambda>c.
     if c_SchemaVersion c \<noteq> ''agrochain.command.v1'' then Inl (fail ''UNSUPPORTED_SCHEMA_VERSION'')
     else if c_Command c \<noteq> fn then Inl (fail ''INVALID_SCHEMA'')
     else if \<not> validID (c_BatchID c) ''BAT'' \<or> \<not> validID (c_OperationID c) ''OP''
     then Inl (fail ''INVALID_IDENTIFIER'')
     else if c_ExpectedVersion c < 0 \<or> c_ExpectedVersion c > 2147483647
     then Inl (fail ''VERSION_CONFLICT'')
     else rbind (validatePayload c) (\<lambda>_. Inr c))"

subsection \<open>Authorization\<close>

text \<open>The organization and role a function requires; empty when any member may call it.\<close>

definition expected_caller :: "bytes \<Rightarrow> bytes \<times> bytes" where
  "expected_caller fn =
     (if fn = ''EvaluatePrice'' then (Regulator, ''oracle'')
      else if fn = ''OpenReview'' \<or> fn = ''ResolveReview'' then (Regulator, ''reviewer'')
      else if fn = ''Bootstrap'' then (Regulator, ''admin'')
      else if fn = ''CreateBatch'' \<or> fn = ''OfferPickup'' then (Producer, ''producer'')
      else if fn = ''AcceptPickup'' \<or> fn = ''RecordFreightCost'' \<or> fn = ''OfferDelivery''
        then (Logistics, ''carrier'')
      else if fn = ''AcceptDelivery'' \<or> fn = ''ReportRetailPrice'' then (Retailer, ''retailer'')
      else ([], []))"

definition allowed_roles :: "bytes \<Rightarrow> bytes list" where
  "allowed_roles actor =
     (if actor = Producer then [''producer'']
      else if actor = Logistics then [''carrier'']
      else if actor = Retailer then [''retailer'']
      else if actor = Regulator then [''reviewer'', ''auditor'', ''oracle'', ''public-reader'']
      else [])"

definition authorize :: "bytes \<Rightarrow> bytes \<Rightarrow> bytes \<Rightarrow> unit res" where
  "authorize actor role fn =
     (if \<not> member actor then Inl (fail ''UNAUTHORIZED_ORGANIZATION'')
      else let (expected, expectedRole) = expected_caller fn in
        if expected \<noteq> [] \<and> actor \<noteq> expected then
          (if fn = ''AcceptPickup'' \<or> fn = ''AcceptDelivery''
           then Inl (fail ''WRONG_TRANSFER_RECIPIENT'')
           else Inl (fail ''UNAUTHORIZED_ORGANIZATION''))
        else if fn = ''Health'' then Inr ()
        else if role = [] then Inl (fail ''UNAUTHORIZED_ROLE'')
        else if expectedRole \<noteq> [] \<and> role \<noteq> expectedRole then Inl (fail ''UNAUTHORIZED_ROLE'')
        else if expectedRole = [] \<and> role \<notin> set (allowed_roles actor)
        then Inl (fail ''UNAUTHORIZED_ROLE'')
        else Inr ())"

subsection \<open>What the checks guarantee\<close>

lemma printable_text_ok: "list_all printable s \<Longrightarrow> text_ok s"
  by (rule text_ok_ascii) (simp add: list_all_iff printable_ascii)

lemma validID_text: "validID s p \<Longrightarrow> text_ok s"
  by (simp add: validID_def identifier_printable printable_text_ok)

lemma validID_printable: "validID s p \<Longrightarrow> list_all printable s"
  by (simp add: validID_def identifier_printable)

lemma validID_nonempty: "validID s p \<Longrightarrow> s \<noteq> []"
  by (auto simp: validID_def match_identifier_def)

lemma hexID_text: "match_hexID s \<Longrightarrow> text_ok s"
  by (simp add: hexID_printable printable_text_ok)

lemma parse_digits_only: "parse_digits acc s = Some n \<Longrightarrow> list_all is_digit s"
  by (induction acc s rule: parse_digits.induct) (auto split: if_splits)

lemma Atoi_text:
  assumes "Atoi s = Some n"
  shows "text_ok s"
proof -
  obtain c t where s: "s = c # t" using assms by (cases s) (auto simp: Atoi_def ParseInt_def)
  with assms obtain n' where n': "parse_digits 0 (if c = CHR ''+'' \<or> c = CHR ''-'' then t else s) = Some n'"
    by (auto simp: Atoi_def ParseInt_def Let_def split: option.splits if_splits)
  have digits: "list_all is_digit u \<Longrightarrow> text_ok u" for u
    by (simp add: digits_printable printable_text_ok)
  show ?thesis
  proof (cases "c = CHR ''+'' \<or> c = CHR ''-''")
    case True
    with n' have "list_all is_digit t" by (auto dest: parse_digits_only)
    then show ?thesis using True s digits [of t] by auto
  next
    case False
    with n' have "list_all is_digit s" by (auto dest: parse_digits_only)
    then show ?thesis by (rule digits)
  qed
qed

lemma validHarvestDate_text: "validHarvestDate s \<Longrightarrow> text_ok s"
  by (auto simp: validHarvestDate_iff format_date_printable printable_text_ok)

lemma decode_eq_Inr:
  "decode fs raw dst names = Inr r \<longleftrightarrow>
     (\<exists>ms. strictJSON raw = Inr (JObj ms) \<and> len ms = len names
        \<and> list_all (\<lambda>k. k \<in> set (map fst ms)) names \<and> Unmarshal fs raw dst = Some r)"
proof (cases "strictJSON raw")
  case (Inr v)
  then show ?thesis
    by (cases v) (simp_all add: decode_def if_Inl_eq_Inr of_option_eq_Inr)
qed (simp add: decode_def)

lemma decode_Unmarshal: "decode fs raw dst names = Inr r \<Longrightarrow> Unmarshal fs raw dst = Some r"
  by (auto simp: decode_eq_Inr)

text \<open>
  Who may call what: \<open>permitted\<close> is the table the code's early returns come to.  A function
  with a prescribed caller wants exactly that organization and role; any other wants one of the
  roles of the caller's organization; \<open>Health\<close> wants only membership.
\<close>

definition permitted :: "bytes \<Rightarrow> bytes \<Rightarrow> bytes \<Rightarrow> bool" where
  "permitted actor role fn \<longleftrightarrow> member actor \<and>
     (fn = ''Health''
      \<or> (if fst (expected_caller fn) = [] then role \<in> set (allowed_roles actor)
         else (actor, role) = expected_caller fn))"

lemma authorize_permitted: "authorize actor role fn = Inr u \<longleftrightarrow> permitted actor role fn"
proof -
  have roles: "[] \<notin> set (allowed_roles actor)" by (simp add: allowed_roles_def)
  have expected: "fst (expected_caller fn) = [] \<longleftrightarrow> snd (expected_caller fn) = []"
    "snd (expected_caller ''Health'') = []" "fst (expected_caller ''Health'') = []"
    by (simp_all add: expected_caller_def)
  obtain e er where ec: "expected_caller fn = (e, er)" by force
  show ?thesis
  proof (cases "fn = ''Health''")
    case True
    then show ?thesis using expected by (auto simp: authorize_def permitted_def Let_def split: prod.splits)
  next
    case False
    then show ?thesis
      using roles expected ec by (auto simp: authorize_def permitted_def Let_def)
  qed
qed

text \<open>The caller of a mutation, from the table.\<close>

lemma permitted_caller:
  "permitted actor role fn \<Longrightarrow> fst (expected_caller fn) \<noteq> [] \<Longrightarrow> fn \<noteq> ''Health'' \<Longrightarrow>
     actor = fst (expected_caller fn) \<and> role = snd (expected_caller fn)"
  by (cases "expected_caller fn") (auto simp: permitted_def split: if_splits)

lemma member_text: "member m \<Longrightarrow> text_ok m"
  by (auto simp: member_def msp_defs)

lemma validate_create:
  assumes "validatePayload c = Inr u" "c_Command c = ''CreateBatch''"
  obtains p where "Unmarshal createInput_fields (c_Payload c) createInput_zero = Some p"
    "1 \<le> ci_QuantityGrams p" "ci_QuantityGrams p \<le> 100000000"
    "ci_ProductCode p = ''TOMATO''" "ci_GradeCode p = ''STANDARD''"
    "ci_LogisticsMSP p = Logistics" "ci_IntendedRetailerMSP p = Retailer"
    "text_ok (ci_OriginRegionCode p)" "validHarvestDate (ci_HarvestDate p)"
  using assms
  by (auto simp: validatePayload_def Let_def rbind_eq_Inr split: if_splits option.splits
      dest!: decode_Unmarshal dest: Atoi_text)

lemma validate_handoff:
  assumes "validatePayload c = Inr u"
    "c_Command c \<in> {''OfferPickup'', ''AcceptPickup'', ''OfferDelivery'', ''AcceptDelivery''}"
  obtains p where "Unmarshal handoffInput_fields (c_Payload c) handoffInput_zero = Some p"
    "validID (hi_TransferID p) ''TRF''" "1 \<le> hi_QuantityGrams p" "hi_QuantityGrams p \<le> 100000000"
  using assms
  by (auto simp: validatePayload_def Let_def rbind_eq_Inr split: if_splits
      dest!: decode_Unmarshal)

lemma validate_freight:
  assumes "validatePayload c = Inr u" "c_Command c = ''RecordFreightCost''"
  obtains p where "Unmarshal freightInput_fields (c_Payload c) freightInput_zero = Some p"
    "validID (fi_CostID p) ''CST''"
  using assms
  by (auto simp: validatePayload_def Let_def rbind_eq_Inr split: if_splits dest!: decode_Unmarshal)

lemma validate_report:
  assumes "validatePayload c = Inr u" "c_Command c = ''ReportRetailPrice''"
  obtains p where "Unmarshal reportInput_fields (c_Payload c) reportInput_zero = Some p"
    "validID (ri_ReportID p) ''RPT''" "validID (ri_RetailLotID p) ''LOT''" "validID (ri_PolicyID p) ''CFG''"
  using assms
  by (auto simp: validatePayload_def Let_def rbind_eq_Inr split: if_splits dest!: decode_Unmarshal)

lemma validate_analysis:
  assumes "validatePayload c = Inr u" "c_Command c \<in> {''EvaluatePrice'', ''OpenReview'', ''ResolveReview''}"
  obtains p where "Unmarshal analysisInput_fields (c_Payload c) analysisInput_zero = Some p"
    "validID (ai_AnomalyID p) ''ANM''" "c_Command c = ''EvaluatePrice'' \<Longrightarrow> validID (ai_ReportID p) ''RPT''"
  using assms
  by (auto simp: validatePayload_def Let_def rbind_eq_Inr split: if_splits dest!: decode_Unmarshal)

lemma parseCommand_ids:
  assumes "parseCommand fn raw = Inr c"
  shows "c_Command c = fn" "validID (c_BatchID c) ''BAT''" "validID (c_OperationID c) ''OP''"
    "0 \<le> c_ExpectedVersion c" "c_ExpectedVersion c \<le> 2147483647" "validatePayload c = Inr ()"
  using assms by (auto simp: parseCommand_def rbind_eq_Inr split: if_splits)

end
