(* ===== verification/Ledger.thy ===== *)
theory Ledger
  imports Validation
begin

text \<open>
  \<open>ledger.go\<close>: the ledger interface, composite keys, loading and storing values, and the
  write plan that is flushed in key order.

  The Go interfaces \<open>ledger\<close> and \<open>privateLedger\<close> are a record of operations on a state \<open>'s\<close>
  that the model never looks into.  Reads do not change the state; \<open>None\<close> is an error.  An
  operation that writes returns its result together with the state it leaves, also when it
  fails half way.
\<close>

subsection \<open>What the program takes from other packages\<close>

text \<open>
  \<open>shim.CreateCompositeKey\<close> of the Fabric library and the two cryptographic functions are
  parameters; every theorem holds for all of them, under the laws it names.
\<close>

record externals =
  CreateCompositeKey :: "bytes \<Rightarrow> bytes list \<Rightarrow> bytes option"
  Sha256 :: "bytes \<Rightarrow> bytes"
  Ed25519Verify :: "bytes \<Rightarrow> bytes \<Rightarrow> bytes \<Rightarrow> bool"

record entry =
  en_Key :: bytes
  en_Value :: bytes

record 's privateOps =
  p_read :: "'s \<Rightarrow> bytes \<Rightarrow> bytes \<Rightarrow> bytes option"
  p_write :: "bytes \<Rightarrow> bytes \<Rightarrow> bytes \<Rightarrow> 's \<Rightarrow> 's option"

text \<open>\<open>l_private\<close> is the outcome of the type assertion \<open>s.(privateLedger)\<close>.\<close>

record 's ledger = externals +
  l_read :: "'s \<Rightarrow> bytes \<Rightarrow> bytes option"
  l_write :: "bytes \<Rightarrow> bytes \<Rightarrow> 's \<Rightarrow> 's option"
  l_remove :: "bytes \<Rightarrow> 's \<Rightarrow> 's option"
  l_page :: "'s \<Rightarrow> bytes \<Rightarrow> bytes list \<Rightarrow> int \<Rightarrow> bytes \<Rightarrow> (entry list \<times> bytes) res"
  l_emit :: "bytes \<Rightarrow> bytes \<Rightarrow> 's \<Rightarrow> 's option"
  l_private :: "'s privateOps option"

subsection \<open>Keys, loads, absence\<close>

definition key :: "('e) externals_scheme \<Rightarrow> bytes \<Rightarrow> bytes list \<Rightarrow> bytes res" where
  "key L kind attrs =
     of_option (Panic ''invalid internal composite key'') (CreateCompositeKey L kind attrs)"

text \<open>\<open>load(s, k, &dst)\<close>: whether there is a value, and \<open>dst\<close> with the value stored over it.\<close>

definition load :: "'s ledger \<Rightarrow> 's \<Rightarrow> bytes \<Rightarrow> 'v codec \<Rightarrow> 'v \<Rightarrow> (bool \<times> 'v) res" where
  "load L s k c dst =
     (case l_read L s k of
       None \<Rightarrow> Inl (fail ''INTERNAL_ERROR'')
     | Some b \<Rightarrow>
         if len b = 0 then Inr (False, dst)
         else case Option.bind (json_parse b) (\<lambda>v. dec c v dst) of
           None \<Rightarrow> Inl (fail ''INTERNAL_ERROR'')
         | Some x \<Rightarrow> Inr (True, x))"

definition absent :: "'s ledger \<Rightarrow> 's \<Rightarrow> bytes \<Rightarrow> bytes \<Rightarrow> unit res" where
  "absent L s k code =
     (case l_read L s k of
       None \<Rightarrow> Inl (fail ''INTERNAL_ERROR'')
     | Some b \<Rightarrow> if len b \<noteq> 0 then Inl (fail code) else Inr ())"

subsection \<open>The write plan\<close>

text \<open>A map from keys to values; \<open>None\<close> is Go's nil value, which removes the key.\<close>

type_synonym writePlan = "(bytes \<times> bytes option) list"

definition put :: "writePlan \<Rightarrow> bytes \<Rightarrow> jv option \<Rightarrow> writePlan res" where
  "put p k v = rbind (canonical v) (\<lambda>b. Inr (put_entry k (Some b) p))"

definition delete_key :: "writePlan \<Rightarrow> bytes \<Rightarrow> writePlan" where
  "delete_key p k = put_entry k None p"

text \<open>\<open>for k, v := range q \{ p[k] = v \}\<close>.\<close>

definition merge_plan :: "writePlan \<Rightarrow> writePlan \<Rightarrow> writePlan" where
  "merge_plan q p = fold (\<lambda>(k, v). put_entry k v) q p"

fun flush_keys :: "'s ledger \<Rightarrow> writePlan \<Rightarrow> bytes list \<Rightarrow> 's \<Rightarrow> unit res \<times> 's" where
  "flush_keys L p [] s = (Inr (), s)"
| "flush_keys L p (k # ks) s =
     (case (case map_of p k of Some (Some v) \<Rightarrow> l_write L k v s | _ \<Rightarrow> l_remove L k s) of
       None \<Rightarrow> (Inl (fail ''INTERNAL_ERROR''), s)
     | Some s' \<Rightarrow> flush_keys L p ks s')"

definition flush :: "'s ledger \<Rightarrow> writePlan \<Rightarrow> Event \<Rightarrow> 's \<Rightarrow> unit res \<times> 's" where
  "flush L p event s =
     (case canonical (Some (marshal Event_fields event)) of
       Inl e \<Rightarrow> (Inl e, s)
     | Inr b \<Rightarrow>
         case flush_keys L p (sort (map fst p)) s of
           (Inl e, s1) \<Rightarrow> (Inl e, s1)
         | (Inr _, s1) \<Rightarrow>
             case l_emit L (ev_EventType event) b s1 of
               None \<Rightarrow> (Inl (fail ''INTERNAL_ERROR''), s1)
             | Some s2 \<Rightarrow> (Inr (), s2))"

subsection \<open>Facts on loads and plans\<close>

lemma key_eq_Inr [result_simps]: "key L kind attrs = Inr k \<longleftrightarrow> CreateCompositeKey L kind attrs = Some k"
  by (simp add: key_def of_option_eq_Inr)

lemma absent_eq_Inr [result_simps]: "absent L s k code = Inr u \<longleftrightarrow> l_read L s k = Some []"
  by (auto simp: absent_def len_def split: option.splits if_splits)

lemma put_eq_Inr [result_simps]:
  "put p k v = Inr q \<longleftrightarrow>
     (\<exists>w. v = Some w \<and> q = put_entry k (Some (json_print (json_sort w))) p)"
  by (cases v) (auto simp: put_def canonical_def)

lemma put_Some [simp]: "put p k (Some w) = Inr (put_entry k (Some (json_print (json_sort w))) p)"
  by (simp add: put_def canonical_def)

lemma map_of_delete_key [simp]: "map_of (delete_key p k) = (map_of p)(k \<mapsto> None)"
  by (simp add: delete_key_def)

lemma map_of_merge_plan:
  "distinct (map fst q) \<Longrightarrow> map_of (merge_plan q p) = map_of p ++ map_of q"
proof (induction q arbitrary: p)
  case Nil
  then show ?case by (simp add: merge_plan_def)
next
  case (Cons e q)
  obtain k v where e: "e = (k, v)" by force
  have "map_of (merge_plan (e # q) p) = map_of (put_entry k v p) ++ map_of q"
    using Cons e by (simp add: merge_plan_def)
  moreover have "map_of q k = None" using Cons.prems e by (auto simp: map_of_eq_None_iff)
  ultimately show ?case using e by (auto simp: fun_eq_iff map_add_def split: option.splits)
qed

text \<open>
  \<open>outcome p k v\<close>: the value at \<open>k\<close> when the plan \<open>p\<close> has been flushed over a state that held
  \<open>v\<close> there; the empty value is absence.
\<close>

abbreviation encoded :: "jv \<Rightarrow> bytes" where
  "encoded v \<equiv> json_print (json_sort v)"

definition decoded :: "'v codec \<Rightarrow> 'v \<Rightarrow> bytes \<Rightarrow> 'v option" where
  "decoded c dst b = Option.bind (json_parse b) (\<lambda>v. dec c v dst)"

lemma encoded_nonempty: "json_ok v \<Longrightarrow> encoded v \<noteq> []"
  using json_print_start [OF json_ok_sort, of v] by auto

lemma decoded_struct [simp]: "decoded (struct_codec fs) dst b = Unmarshal fs b dst"
  by (simp add: decoded_def struct_codec_def Unmarshal_def)

lemma decoded_string [simp]: "text_ok s \<Longrightarrow> decoded string_codec dst (encoded (JStr s)) = Some s"
  by (simp add: decoded_def string_codec_def json_parse_print del: json_print.simps)

definition outcome :: "(bytes \<rightharpoonup> bytes option) \<Rightarrow> (bytes \<Rightarrow> bytes) \<Rightarrow> bytes \<Rightarrow> bytes" where
  "outcome p f k = (case p k of None \<Rightarrow> f k | Some None \<Rightarrow> [] | Some (Some v) \<Rightarrow> v)"

lemma outcome_simps [simp]:
  "outcome Map.empty f = f"
  "outcome (m(k \<mapsto> Some v)) f = (outcome m f)(k := v)"
  "outcome (m(k \<mapsto> None)) f = (outcome m f)(k := [])"
  by (auto simp: outcome_def fun_eq_iff)

text \<open>The value at a composite key; the empty value when there is no such key.\<close>

definition at :: "('e) externals_scheme \<Rightarrow> (bytes \<Rightarrow> bytes) \<Rightarrow> bytes \<Rightarrow> bytes list \<Rightarrow> bytes" where
  "at L w kind attrs = (case CreateCompositeKey L kind attrs of Some k \<Rightarrow> w k | None \<Rightarrow> [])"

text \<open>A plan all of whose keys are composite keys of the given kinds.\<close>

definition plan_within :: "('e) externals_scheme \<Rightarrow> bytes list \<Rightarrow> writePlan \<Rightarrow> bool" where
  "plan_within L kinds p \<longleftrightarrow>
     (\<forall>k \<in> fst ` set p. \<exists>kind \<in> set kinds. \<exists>attrs. CreateCompositeKey L kind attrs = Some k)"

lemma plan_within_empty [simp]: "plan_within L kinds []"
  by (simp add: plan_within_def)

lemma plan_within_put:
  "plan_within L kinds p \<Longrightarrow> CreateCompositeKey L kind attrs = Some k \<Longrightarrow> kind \<in> set kinds \<Longrightarrow>
     plan_within L kinds (put_entry k v p)"
  by (auto simp: plan_within_def)

subsection \<open>The ledger as its clients see it\<close>

text \<open>
  The contract between the program and a ledger.  \<open>view s k\<close> is the public value at \<open>k\<close> once
  the writes made so far are committed, \<open>private_view\<close> the same for a collection, and
  \<open>events\<close> the event the transaction carries.  A read at the start of a transaction
  (\<open>fresh\<close>) returns that value or fails; whether later reads see the transaction's own writes
  is left open, as Fabric answers them from the committed state.  Private data may be missing
  on a peer.  Different arguments never make the same composite key.
\<close>

locale ledger_store =
  fixes L :: "'s ledger"
    and fresh :: "'s \<Rightarrow> bool"
    and view :: "'s \<Rightarrow> bytes \<Rightarrow> bytes"
    and private_view :: "'s \<Rightarrow> bytes \<Rightarrow> bytes \<Rightarrow> bytes"
  assumes key_inject:
      "CreateCompositeKey L kind as = Some k \<Longrightarrow> CreateCompositeKey L kind' as' = Some k
        \<Longrightarrow> kind = kind' \<and> as = as'"
    and read_view: "fresh s \<Longrightarrow> l_read L s k = Some v \<Longrightarrow> v = view s k"
    and view_write: "l_write L k v s = Some s' \<Longrightarrow> view s' = (view s)(k := v)"
    and view_remove: "l_remove L k s = Some s' \<Longrightarrow> view s' = (view s)(k := [])"
    and view_emit: "l_emit L n v s = Some s' \<Longrightarrow> view s' = view s"
    and private_write: "l_write L k v s = Some s' \<Longrightarrow> private_view s' = private_view s"
    and private_remove: "l_remove L k s = Some s' \<Longrightarrow> private_view s' = private_view s"
    and private_emit: "l_emit L n v s = Some s' \<Longrightarrow> private_view s' = private_view s"
    and view_private_write: "l_private L = Some P \<Longrightarrow> p_write P c k v s = Some s' \<Longrightarrow> view s' = view s"
    and private_private_write: "l_private L = Some P \<Longrightarrow> p_write P c k v s = Some s'
          \<Longrightarrow> private_view s' = (private_view s)(c := (private_view s c)(k := v))"
    and private_read: "fresh s \<Longrightarrow> l_private L = Some P \<Longrightarrow> p_read P s c k = Some v \<Longrightarrow> v \<noteq> []
          \<Longrightarrow> v = private_view s c k"
begin

lemma flush_keys_view:
  assumes "flush_keys L p ks s = (Inr u, s')" and "set ks \<subseteq> fst ` set p"
  shows "view s' k = (if k \<in> set ks then outcome (map_of p) (view s) k else view s k)
       \<and> private_view s' = private_view s"
  using assms
proof (induction ks arbitrary: s)
  case Nil
  then show ?case by simp
next
  case (Cons k0 ks)
  then have "k0 \<in> dom (map_of p)" by (simp add: dom_map_of_conv_image_fst)
  then obtain o0 where o0: "map_of p k0 = Some o0" by auto
  define st where "st = (case o0 of Some v \<Rightarrow> l_write L k0 v s | None \<Rightarrow> l_remove L k0 s)"
  from Cons.prems o0 obtain s1 where s1: "st = Some s1" "flush_keys L p ks s1 = (Inr u, s')"
    by (auto simp: st_def split: option.splits)
  have v1: "view s1 = (view s)(k0 := (case o0 of Some v \<Rightarrow> v | None \<Rightarrow> []))"
    and p1: "private_view s1 = private_view s"
    using s1(1) view_write view_remove private_write private_remove
    by (auto simp: st_def split: option.splits)
  have "view s' k = (if k \<in> set ks then outcome (map_of p) (view s1) k else view s1 k)
       \<and> private_view s' = private_view s1"
    using Cons.IH [OF s1(2)] Cons.prems(2) by simp
  then show ?case using v1 p1 o0 by (auto simp: outcome_def split: option.splits)
qed

text \<open>A successful flush has exactly the effect of its plan.\<close>

lemma flush_view:
  assumes "flush L p event s = (Inr u, s')"
  shows "view s' = outcome (map_of p) (view s)" and "private_view s' = private_view s"
proof -
  obtain s1 b where 1: "flush_keys L p (sort (map fst p)) s = (Inr (), s1)"
      "l_emit L (ev_EventType event) b s1 = Some s'"
    using assms by (auto simp: flush_def canonical_def split: prod.splits sum.splits option.splits)
  have "view s1 k = outcome (map_of p) (view s) k \<and> private_view s1 = private_view s" for k
    using flush_keys_view [OF 1(1), of k]
      map_of_eq_None_iff [of p k]
    by (cases "k \<in> fst ` set p") (simp_all add: outcome_def)
  then show "view s' = outcome (map_of p) (view s)" "private_view s' = private_view s"
    using view_emit [OF 1(2)] private_emit [OF 1(2)] by auto
qed

lemma key_eq_iff:
  "CreateCompositeKey L kind as = Some k \<Longrightarrow> CreateCompositeKey L kind' as' = Some k' \<Longrightarrow>
     k = k' \<longleftrightarrow> kind = kind' \<and> as = as'"
  using key_inject by fastforce

lemma at_upd:
  assumes "CreateCompositeKey L kind as = Some k"
  shows "at L (w(k := v)) kind' as' = (if kind' = kind \<and> as' = as then v else at L w kind' as')"
  using assms key_eq_iff [OF assms, of kind' as'] by (auto simp: at_def split: option.splits)

lemma at_key: "CreateCompositeKey L kind as = Some k \<Longrightarrow> at L w kind as = w k"
  by (simp add: at_def)

lemma load_view:
  assumes "load L s k c dst = Inr (found, r)" and "fresh s"
  shows "found \<longleftrightarrow> view s k \<noteq> []" and "found \<Longrightarrow> decoded c dst (view s k) = Some r"
    and "\<not> found \<Longrightarrow> r = dst"
proof -
  obtain b where b: "l_read L s k = Some b"
    using assms(1) by (auto simp: load_def split: option.splits)
  then have "b = view s k" using read_view [OF assms(2)] by simp
  with b assms(1) show "found \<longleftrightarrow> view s k \<noteq> []" "found \<Longrightarrow> decoded c dst (view s k) = Some r"
    "\<not> found \<Longrightarrow> r = dst"
    by (auto simp: load_def decoded_def len_def split: if_splits option.splits)
qed

lemma absent_view: "absent L s k code = Inr u \<Longrightarrow> fresh s \<Longrightarrow> view s k = []"
  using read_view by (auto simp: absent_eq_Inr)

lemma at_outcome_within:
  assumes "plan_within L kinds p" and "kind \<notin> set kinds"
  shows "at L (outcome (m ++ map_of p) w) kind attrs = at L (outcome m w) kind attrs"
proof (cases "CreateCompositeKey L kind attrs")
  case (Some k)
  have "k \<notin> fst ` set p"
    using assms key_eq_iff [OF Some] by (fastforce simp: plan_within_def)
  then have "map_of p k = None" by (simp add: map_of_eq_None_iff)
  then show ?thesis
    using Some by (simp add: at_def outcome_def map_add_def)
qed (simp add: at_def)

end

end
