(* ===== verification/Domain.thy ===== *)
theory Domain
  imports Ledger
begin

text \<open>
  \<open>domain.go\<close>: the engine that applies a command to a batch, one definition per case of its
  switch, between the checks every command shares and the writes that end it.
\<close>

subsection \<open>Execution context and verified evidence\<close>

record execution =
  x_Actor :: bytes
  x_Role :: bytes
  x_TxID :: bytes
  x_Time :: TxTime

record privateWrite =
  pw_Collection :: bytes
  pw_Key :: bytes
  pw_Value :: bytes

record verified =
  v_Public :: writePlan
  v_Private :: "privateWrite list"
  v_CKS :: bytes
  v_Purchase :: bytes
  v_HKS :: bytes
  v_Manifest :: bytes
  v_Quantity :: int
  v_PurchasePrice :: int
  v_PurchaseTotal :: int
  v_FreightTotal :: int
  v_RetailPrice :: int
  v_Currency :: bytes
  v_TaxBasis :: bytes
  v_PolicyID :: bytes

definition verified_zero :: verified where
  "verified_zero = \<lparr> v_Public = [], v_Private = [], v_CKS = [], v_Purchase = [], v_HKS = [],
     v_Manifest = [], v_Quantity = 0, v_PurchasePrice = 0, v_PurchaseTotal = 0,
     v_FreightTotal = 0, v_RetailPrice = 0, v_Currency = [], v_TaxBasis = [], v_PolicyID = [] \<rparr>"

text \<open>The interface \<open>evidenceProvider\<close> is its one method.\<close>

type_synonym evidenceProvider = "Command \<Rightarrow> Batch \<Rightarrow> EvidenceRefs \<Rightarrow> verified res"

definition closedEvidence :: evidenceProvider where
  "closedEvidence c b refs = Inl (fail ''EVIDENCE_VERIFICATION_UNAVAILABLE'')"

text \<open>\<open>_ = json.Unmarshal(c.Payload, &p)\<close>, for a payload that was validated before.\<close>

definition payload_of :: "'r field list \<Rightarrow> 'r \<Rightarrow> Command \<Rightarrow> 'r" where
  "payload_of fs z c = (case Unmarshal fs (c_Payload c) z of Some p \<Rightarrow> p | None \<Rightarrow> z)"

subsection \<open>Money and documents\<close>

text \<open>\<open>int64\<close> arithmetic wraps.\<close>

definition wrap64 :: "int \<Rightarrow> int" where
  "wrap64 i = (i + 2 ^ 63) mod 2 ^ 64 - 2 ^ 63"

definition validPurchase :: "verified \<Rightarrow> bool" where
  "validPurchase p \<longleftrightarrow>
     v_Quantity p > 0 \<and> v_Quantity p \<le> 100000000 \<and> v_PurchasePrice p > 0
   \<and> v_PurchasePrice p \<le> 1000000000 \<and> v_PurchaseTotal p > 0 \<and> v_PurchaseTotal p \<le> 1000000000000
   \<and> v_Currency p = ''TRY'' \<and> v_TaxBasis p = ''EXCLUDING_TAX''
   \<and> wrap64 (v_PurchasePrice p * v_Quantity p) = wrap64 (v_PurchaseTotal p * 1000)"

definition consumeDocument ::
  "'s ledger \<Rightarrow> 's \<Rightarrow> bytes \<Rightarrow> Command \<Rightarrow> writePlan \<Rightarrow> writePlan res" where
  "consumeDocument L s doc c p =
     (if \<not> validID doc ''DOC'' then Inl (fail ''MISSING_EVIDENCE'')
      else rbind (key L ''documentReference'' [doc]) (\<lambda>k.
        if map_of p k \<noteq> None then Inl (fail ''DOCUMENT_ALREADY_USED'')
        else rbind (absent L s k ''DOCUMENT_ALREADY_USED'') (\<lambda>_.
          put p k (Some (JObj [(''batchId'', JStr (c_BatchID c)),
                               (''operationId'', JStr (c_OperationID c))])))))"

subsection \<open>The cases of the switch\<close>

text \<open>What a case leaves behind: the batch, its references, the plan, the object ids, the event.\<close>

record draft =
  d_batch :: Batch
  d_refs :: EvidenceRefs
  d_plan :: writePlan
  d_ids :: "bytes list"
  d_event :: bytes

definition apply_analysis :: "Command \<Rightarrow> Batch \<Rightarrow> EvidenceRefs \<Rightarrow> draft res" where
  "apply_analysis c b refs =
     (let p = payload_of analysisInput_fields analysisInput_zero c;
          ids = [c_BatchID c, ai_AnomalyID p]
      in if c_Command c = ''EvaluatePrice''
         then Inr \<lparr> d_batch = b, d_refs = refs, d_plan = [], d_ids = ids @ [ai_ReportID p],
                    d_event = ''PriceEvaluated'' \<rparr>
         else Inr \<lparr> d_batch = b, d_refs = refs, d_plan = [], d_ids = ids,
                    d_event = ''ReviewUpdated'' \<rparr>)"

definition new_batch :: "Command \<Rightarrow> execution \<Rightarrow> createInput \<Rightarrow> Batch" where
  "new_batch c x p = Batch_zero
     \<lparr> b_SchemaVersion := ''agrochain.batch.v1'', b_BatchID := c_BatchID c,
       b_ProductCode := ci_ProductCode p, b_GradeCode := ci_GradeCode p,
       b_QuantityGrams := ci_QuantityGrams p, b_OriginRegionCode := ci_OriginRegionCode p,
       b_HarvestDate := ci_HarvestDate p, b_ProducerMSP := x_Actor x,
       b_LogisticsMSP := ci_LogisticsMSP p, b_IntendedRetailerMSP := ci_IntendedRetailerMSP p,
       b_OwnerMSP := x_Actor x, b_CustodianMSP := x_Actor x, b_State := Created,
       b_CreatedTxID := x_TxID x \<rparr>"

definition apply_create ::
  "'s ledger \<Rightarrow> 's \<Rightarrow> Command \<Rightarrow> execution \<Rightarrow> EvidenceRefs \<Rightarrow> verified \<Rightarrow> draft res" where
  "apply_create L s c x refs v =
     (let p = payload_of createInput_fields createInput_zero c; b = new_batch c x p
      in if v_Quantity v \<noteq> b_QuantityGrams b then Inl (fail ''SOURCE_BINDING_MISMATCH'')
         else rbind (consumeDocument L s (v_CKS v) c []) (\<lambda>plan.
           Inr \<lparr> d_batch = b, d_refs = refs \<lparr> e_CKSDocumentID := v_CKS v \<rparr>, d_plan = plan,
                 d_ids = [c_BatchID c, v_CKS v], d_event = ''BatchCreated'' \<rparr>))"

text \<open>
  The part of an offer that only a pickup has: the evidence of the sale and the three
  documents it consumes.
\<close>

definition consume_and_note ::
  "'s ledger \<Rightarrow> 's \<Rightarrow> Command \<Rightarrow> bytes \<Rightarrow> writePlan \<times> bytes list
     \<Rightarrow> (writePlan \<times> bytes list) res" where
  "consume_and_note L s c doc acc =
     rbind (consumeDocument L s doc c (fst acc)) (\<lambda>plan. Inr (plan, snd acc @ [doc]))"

definition offer_pickup_evidence ::
  "'s ledger \<Rightarrow> 's \<Rightarrow> Command \<Rightarrow> Batch \<Rightarrow> EvidenceRefs \<Rightarrow> verified
     \<Rightarrow> (EvidenceRefs \<times> writePlan \<times> bytes list) res" where
  "offer_pickup_evidence L s c b refs v =
     (if e_CKSDocumentID refs = [] then Inl (fail ''MISSING_EVIDENCE'')
      else if v_Quantity v \<noteq> b_QuantityGrams b then Inl (fail ''SOURCE_BINDING_MISMATCH'')
      else if \<not> validPurchase v then Inl (fail ''INVALID_MONEY'')
      else rbind (fold_result (consume_and_note L s c) [v_Purchase v, v_HKS v, v_Manifest v]
                    ([], [c_BatchID c])) (\<lambda>(plan, ids).
        Inr (refs \<lparr> e_PurchaseDocumentID := v_Purchase v, e_HKSDocumentID := v_HKS v,
                    e_TransportDocumentID := v_Manifest v \<rparr>, plan, ids)))"

definition apply_offer ::
  "'s ledger \<Rightarrow> 's \<Rightarrow> Command \<Rightarrow> execution \<Rightarrow> Batch \<Rightarrow> EvidenceRefs \<Rightarrow> verified \<Rightarrow> draft res" where
  "apply_offer L s c x b refs v =
     (let p = payload_of handoffInput_fields handoffInput_zero c;
          delivery = (c_Command c = ''OfferDelivery'');
          state = (if delivery then InTransport else Created);
          next = (if delivery then DeliveryPending else PickupPending);
          kind = (if delivery then ''DELIVERY'' else ''PICKUP'');
          recipient = (if delivery then b_IntendedRetailerMSP b else b_LogisticsMSP b)
      in if b_State b \<noteq> state then Inl (fail ''INVALID_STATE_TRANSITION'')
      else if x_Actor x \<noteq> b_CustodianMSP b \<or> (kind = ''PICKUP'' \<and> x_Actor x \<noteq> b_OwnerMSP b)
      then Inl (fail ''UNAUTHORIZED_ORGANIZATION'')
      else if hi_QuantityGrams p \<noteq> b_QuantityGrams b then Inl (fail ''INVALID_QUANTITY'')
      else rbind (key L ''pendingTransfer'' [b_BatchID b]) (\<lambda>pendingKey.
           rbind (absent L s pendingKey ''INVALID_STATE_TRANSITION'') (\<lambda>_.
           rbind (key L ''transfer'' [hi_TransferID p]) (\<lambda>transferKey.
           rbind (absent L s transferKey ''TRANSFER_ALREADY_EXISTS'') (\<lambda>_.
           rbind (if kind = ''PICKUP'' then offer_pickup_evidence L s c b refs v
                  else if e_TransportDocumentID refs = [] then Inl (fail ''MISSING_EVIDENCE'')
                  else Inr (refs, [], [c_BatchID c])) (\<lambda>(refs', plan, ids).
           rbind (put plan transferKey (Some (marshal Transfer_fields (Transfer_zero
             \<lparr> t_SchemaVersion := ''agrochain.custody-transfer.v1'', t_TransferID := hi_TransferID p,
               t_BatchID := b_BatchID b, t_Kind := kind, t_Status := ''OFFERED'',
               t_FromMSP := x_Actor x, t_ToMSP := recipient, t_QuantityGrams := b_QuantityGrams b,
               t_OfferOperationID := c_OperationID c, t_OfferedTxID := x_TxID x \<rparr>)))) (\<lambda>plan1.
           rbind (put plan1 pendingKey (Some (JStr (hi_TransferID p)))) (\<lambda>plan2.
           Inr \<lparr> d_batch = b \<lparr> b_State := next \<rparr>, d_refs = refs', d_plan = plan2,
                 d_ids = ids @ [hi_TransferID p],
                 d_event = (if delivery then ''DeliveryOffered'' else ''PickupOffered'') \<rparr>))))))))"

definition apply_accept ::
  "'s ledger \<Rightarrow> 's \<Rightarrow> Command \<Rightarrow> execution \<Rightarrow> Batch \<Rightarrow> EvidenceRefs \<Rightarrow> draft res" where
  "apply_accept L s c x b refs =
     (let p = payload_of handoffInput_fields handoffInput_zero c;
          delivery = (c_Command c = ''AcceptDelivery'');
          state = (if delivery then DeliveryPending else PickupPending);
          next = (if delivery then Received else InTransport);
          kind = (if delivery then ''DELIVERY'' else ''PICKUP'')
      in rbind (key L ''transfer'' [hi_TransferID p]) (\<lambda>transferKey.
         rbind (load L s transferKey (struct_codec Transfer_fields) Transfer_zero) (\<lambda>(found, t).
         if \<not> found \<or> t_BatchID t \<noteq> b_BatchID b then Inl (fail ''TRANSFER_NOT_FOUND'')
         else if t_ToMSP t \<noteq> x_Actor x then Inl (fail ''WRONG_TRANSFER_RECIPIENT'')
         else rbind (key L ''pendingTransfer'' [b_BatchID b]) (\<lambda>pendingKey.
              rbind (load L s pendingKey string_codec []) (\<lambda>(_, pending).
         if b_State b \<noteq> state \<or> t_Status t \<noteq> ''OFFERED'' \<or> t_Kind t \<noteq> kind
            \<or> pending \<noteq> t_TransferID t
         then Inl (fail ''INVALID_STATE_TRANSITION'')
         else if hi_QuantityGrams p \<noteq> b_QuantityGrams b \<or> t_QuantityGrams t \<noteq> b_QuantityGrams b
         then Inl (fail ''INVALID_QUANTITY'')
         else if t_FromMSP t \<noteq> b_CustodianMSP b then Inl (fail ''UNAUTHORIZED_ORGANIZATION'')
         else if kind = ''DELIVERY'' \<and> e_FreightCostID refs = []
         then Inl (fail ''MISSING_EVIDENCE'')
         else let t' = t \<lparr> t_Status := ''ACCEPTED'', t_AcceptOperationID := c_OperationID c,
                          t_AcceptedTxID := x_TxID x \<rparr> in
              rbind (key L ''transfer'' [t_TransferID t']) (\<lambda>acceptedKey.
              rbind (put [] acceptedKey (Some (marshal Transfer_fields t'))) (\<lambda>plan.
              let b' = b \<lparr> b_State := next, b_CustodianMSP := x_Actor x \<rparr> in
              Inr \<lparr> d_batch = (if delivery then b' \<lparr> b_OwnerMSP := x_Actor x \<rparr> else b'),
                    d_refs = refs, d_plan = delete_key plan pendingKey,
                    d_ids = [c_BatchID c, hi_TransferID p],
                    d_event = (if delivery then ''DeliveryAccepted'' else ''PickupAccepted'') \<rparr>)))))))"

definition apply_freight ::
  "'s ledger \<Rightarrow> 's \<Rightarrow> Command \<Rightarrow> execution \<Rightarrow> Batch \<Rightarrow> EvidenceRefs \<Rightarrow> verified \<Rightarrow> draft res" where
  "apply_freight L s c x b refs v =
     (let p = payload_of freightInput_fields freightInput_zero c
      in if b_State b \<noteq> InTransport \<and> b_State b \<noteq> DeliveryPending
         then Inl (fail ''INVALID_STATE_TRANSITION'')
         else if b_CustodianMSP b \<noteq> x_Actor x then Inl (fail ''UNAUTHORIZED_ORGANIZATION'')
         else if e_FreightCostID refs \<noteq> [] then Inl (fail ''COST_ALREADY_EXISTS'')
         else rbind (key L ''costReference'' [fi_CostID p]) (\<lambda>costKey.
              rbind (absent L s costKey ''COST_ALREADY_EXISTS'') (\<lambda>_.
         if v_Quantity v \<noteq> b_QuantityGrams b then Inl (fail ''SOURCE_BINDING_MISMATCH'')
         else if v_FreightTotal v < 0 \<or> v_FreightTotal v > 1000000000000
            \<or> v_Currency v \<noteq> ''TRY'' \<or> v_TaxBasis v \<noteq> ''EXCLUDING_TAX''
         then Inl (fail ''INVALID_MONEY'')
         else rbind (put [] costKey (Some (JStr (c_BatchID c)))) (\<lambda>plan.
              Inr \<lparr> d_batch = b, d_refs = refs \<lparr> e_FreightCostID := fi_CostID p \<rparr>,
                    d_plan = plan, d_ids = [c_BatchID c, fi_CostID p],
                    d_event = ''FreightCostRecorded'' \<rparr>))))"

definition apply_report ::
  "'s ledger \<Rightarrow> 's \<Rightarrow> Command \<Rightarrow> execution \<Rightarrow> Batch \<Rightarrow> EvidenceRefs \<Rightarrow> verified \<Rightarrow> draft res" where
  "apply_report L s c x b refs v =
     (let p = payload_of reportInput_fields reportInput_zero c
      in if b_State b \<noteq> Received then Inl (fail ''INVALID_STATE_TRANSITION'')
         else if b_OwnerMSP b \<noteq> x_Actor x \<or> b_CustodianMSP b \<noteq> x_Actor x
         then Inl (fail ''UNAUTHORIZED_ORGANIZATION'')
         else if e_PurchaseDocumentID refs = [] \<or> e_FreightCostID refs = []
         then Inl (fail ''MISSING_EVIDENCE'')
         else if e_RetailReportID refs \<noteq> [] \<or> b_RetailLotID b \<noteq> []
         then Inl (fail ''REPORT_ALREADY_EXISTS'')
         else rbind (key L ''lot'' [ri_RetailLotID p]) (\<lambda>lotKey.
              rbind (absent L s lotKey ''LOT_ALREADY_EXISTS'') (\<lambda>_.
              rbind (key L ''reportReference'' [ri_ReportID p]) (\<lambda>reportKey.
              rbind (absent L s reportKey ''REPORT_ALREADY_EXISTS'') (\<lambda>_.
         if v_Quantity v \<noteq> b_QuantityGrams b then Inl (fail ''SOURCE_BINDING_MISMATCH'')
         else if \<not> validPurchase v \<or> v_RetailPrice v < 0 \<or> v_RetailPrice v > 1000000000
         then Inl (fail ''INVALID_MONEY'')
         else if ri_PolicyID p \<noteq> v_PolicyID v then Inl (fail ''POLICY_MISMATCH'')
         else rbind (put [] lotKey (Some (marshal Lot_fields
                 \<lparr> l_SchemaVersion = ''agrochain.retail-lot.v1'', l_RetailLotID = ri_RetailLotID p,
                   l_BatchID = b_BatchID b, l_QuantityGrams = b_QuantityGrams b,
                   l_RetailerMSP = x_Actor x, l_ReportID = ri_ReportID p, l_TxID = x_TxID x \<rparr>)))
              (\<lambda>plan.
              rbind (put plan reportKey (Some (JStr (c_BatchID c)))) (\<lambda>plan1.
              Inr \<lparr> d_batch = b \<lparr> b_RetailLotID := ri_RetailLotID p, b_State := RetailReported \<rparr>,
                    d_refs = refs \<lparr> e_RetailReportID := ri_ReportID p \<rparr>, d_plan = plan1,
                    d_ids = [c_BatchID c, ri_ReportID p, ri_RetailLotID p, ri_PolicyID p],
                    d_event = ''RetailPriceReported'' \<rparr>)))))))"

definition apply_command ::
  "'s ledger \<Rightarrow> 's \<Rightarrow> Command \<Rightarrow> execution \<Rightarrow> Batch \<Rightarrow> EvidenceRefs \<Rightarrow> verified \<Rightarrow> draft res" where
  "apply_command L s c x b refs v =
     (let k = c_Command c in
      if k = ''EvaluatePrice'' \<or> k = ''OpenReview'' \<or> k = ''ResolveReview''
      then apply_analysis c b refs
      else if k = ''CreateBatch'' then apply_create L s c x refs v
      else if k = ''OfferPickup'' \<or> k = ''OfferDelivery'' then apply_offer L s c x b refs v
      else if k = ''AcceptPickup'' \<or> k = ''AcceptDelivery'' then apply_accept L s c x b refs
      else if k = ''RecordFreightCost'' then apply_freight L s c x b refs v
      else if k = ''ReportRetailPrice'' then apply_report L s c x b refs v
      else Inl (fail ''UNSUPPORTED_PILOT_OPERATION''))"


subsection \<open>Before and after the switch\<close>

definition valid_context :: "execution \<Rightarrow> bool" where
  "valid_context x \<longleftrightarrow>
     (case ParseInt 64 (tm_Seconds (x_Time x)) of
       None \<Rightarrow> False
     | Some n \<Rightarrow> \<not> (n < 0 \<or> FormatInt n \<noteq> tm_Seconds (x_Time x)
                   \<or> tm_Nanos (x_Time x) < 0 \<or> tm_Nanos (x_Time x) > 999999999))"

text \<open>The checks every command shares; the result is whether the batch exists, it, its references.\<close>

definition apply_checks ::
  "'s ledger \<Rightarrow> 's \<Rightarrow> Command \<Rightarrow> execution \<Rightarrow> (bool \<times> Batch \<times> EvidenceRefs) res" where
  "apply_checks L s c x =
     rbind (authorize (x_Actor x) (x_Role x) (c_Command c)) (\<lambda>_.
     rbind (validatePayload c) (\<lambda>_.
     if \<not> match_hexID (x_TxID x) then Inl (fail ''INTERNAL_ERROR'')
     else if \<not> valid_context x then Inl (fail ''INTERNAL_ERROR'')
     else rbind (key L ''operation'' [x_Actor x, c_OperationID c]) (\<lambda>operationKey.
          rbind (absent L s operationKey ''DUPLICATE_TRANSACTION'') (\<lambda>_.
          rbind (key L ''batch'' [c_BatchID c]) (\<lambda>batchKey.
          rbind (load L s batchKey (struct_codec Batch_fields) Batch_zero) (\<lambda>(exists, b).
     if c_Command c = ''CreateBatch'' \<and> exists then Inl (fail ''BATCH_ALREADY_EXISTS'')
     else if c_Command c \<noteq> ''CreateBatch'' \<and> \<not> exists then Inl (fail ''BATCH_NOT_FOUND'')
     else if b_Version b \<noteq> c_ExpectedVersion c \<or> b_Version b = 2147483647
     then Inl (fail ''VERSION_CONFLICT'')
     else let refs = EvidenceRefs_zero \<lparr> e_SchemaVersion := ''agrochain.batch-evidence.v1'',
                                        e_BatchID := c_BatchID c \<rparr> in
          if exists
          then rbind (key L ''batchEvidence'' [c_BatchID c]) (\<lambda>refsKey.
               rbind (load L s refsKey (struct_codec EvidenceRefs_fields) refs) (\<lambda>(_, refs').
               Inr (exists, b, refs')))
          else Inr (exists, b, refs)))))))"

text \<open>What every successful command adds: the new version, the receipt, the six entries, the event.\<close>

definition advance :: "execution \<Rightarrow> Batch \<Rightarrow> Batch \<Rightarrow> Batch" where
  "advance x old b = b \<lparr> b_Version := wrap64 (b_Version old + 1), b_UpdatedTxID := x_TxID x,
                         b_TxTime := x_Time x \<rparr>"

definition receipt_for :: "Command \<Rightarrow> execution \<Rightarrow> Batch \<Rightarrow> bytes list \<Rightarrow> Receipt" where
  "receipt_for c x b ids =
     \<lparr> r_SchemaVersion = ''agrochain.receipt.v1'', r_OperationID = c_OperationID c,
       r_BatchID = c_BatchID c, r_Command = c_Command c, r_ActorMSP = x_Actor x,
       r_TxID = x_TxID x, r_TxTime = x_Time x, r_ResultVersion = b_Version b, r_ObjectIDs = ids \<rparr>"

definition event_for ::
  "Command \<Rightarrow> execution \<Rightarrow> bytes \<Rightarrow> Batch \<Rightarrow> Batch \<Rightarrow> bytes list \<Rightarrow> Event" where
  "event_for c x event old b ids =
     \<lparr> ev_SchemaVersion = ''agrochain.event.v1'', ev_EventType = event,
       ev_OperationID = c_OperationID c, ev_BatchID = c_BatchID c, ev_ActorMSP = x_Actor x,
       ev_TxID = x_TxID x, ev_TxTime = x_Time x, ev_ResultVersion = b_Version b,
       ev_ObjectIDs = ids, ev_PreviousState = b_State old, ev_NewState = b_State b \<rparr>"

text \<open>One entry of the table of records: its key is computed, then its value is put.\<close>

definition put_record ::
  "'s ledger \<Rightarrow> bytes \<times> bytes list \<times> jv \<Rightarrow> writePlan \<Rightarrow> writePlan res" where
  "put_record L item plan =
     (case item of (kind, attrs, v) \<Rightarrow>
        rbind (key L kind attrs) (\<lambda>k. put plan k (Some v)))"

text \<open>An index entry that no longer holds is deleted.\<close>

definition drop_stale :: "'s ledger \<Rightarrow> bool \<Rightarrow> bytes \<Rightarrow> bytes list \<Rightarrow> writePlan \<Rightarrow> writePlan res" where
  "drop_stale L stale kind attrs plan =
     (if stale then rbind (key L kind attrs) (\<lambda>k. Inr (delete_key plan k)) else Inr plan)"

definition finish ::
  "'s ledger \<Rightarrow> Command \<Rightarrow> execution \<Rightarrow> bool \<Rightarrow> Batch \<Rightarrow> draft \<Rightarrow> writePlan
     \<Rightarrow> (Receipt \<times> writePlan \<times> Event) res" where
  "finish L c x exists old d public =
     (let b = advance x old (d_batch d);
          ids = sortedUnique (d_ids d);
          receipt = receipt_for c x b ids
      in rbind (fold_result (put_record L)
           [(''batch'', [c_BatchID c], marshal Batch_fields b),
            (''batchEvidence'', [c_BatchID c], marshal EvidenceRefs_fields (d_refs d)),
            (''operation'', [x_Actor x, c_OperationID c], marshal Receipt_fields receipt),
            (''history'', [c_BatchID c, format_padded (b_Version b)], marshal Receipt_fields receipt),
            (''owner'', [b_OwnerMSP b, b_BatchID b], JStr (b_BatchID b)),
            (''state'', [b_State b, b_BatchID b], JStr (b_BatchID b))] (d_plan d)) (\<lambda>plan.
         rbind (drop_stale L (exists \<and> b_OwnerMSP old \<noteq> b_OwnerMSP b)
                  ''owner'' [b_OwnerMSP old, b_BatchID b] plan) (\<lambda>plan1.
         rbind (drop_stale L (exists \<and> b_State old \<noteq> b_State b)
                  ''state'' [b_State old, b_BatchID b] plan1) (\<lambda>plan2.
         Inr (receipt, merge_plan public plan2, event_for c x (d_event d) old b ids)))))"

text \<open>Everything \<open>apply\<close> computes before its first write.\<close>

definition apply_plan ::
  "'s ledger \<Rightarrow> evidenceProvider \<Rightarrow> Command \<Rightarrow> execution \<Rightarrow> 's
     \<Rightarrow> (Receipt \<times> writePlan \<times> Event \<times> privateWrite list) res" where
  "apply_plan L evidence c x s =
     rbind (apply_checks L s c x) (\<lambda>(exists, b, refs).
     rbind (evidence c b refs) (\<lambda>v.
     rbind (apply_command L s c x b refs v) (\<lambda>d.
     rbind (finish L c x exists b d (v_Public v)) (\<lambda>(receipt, plan, event).
     Inr (receipt, plan, event, v_Private v)))))"

fun write_private_all :: "'s privateOps \<Rightarrow> privateWrite list \<Rightarrow> 's \<Rightarrow> unit res \<times> 's" where
  "write_private_all P [] s = (Inr (), s)"
| "write_private_all P (w # ws) s =
     (case p_write P (pw_Collection w) (pw_Key w) (pw_Value w) s of
       None \<Rightarrow> (Inl (fail ''INTERNAL_ERROR''), s)
     | Some s' \<Rightarrow> write_private_all P ws s')"

definition write_private :: "'s ledger \<Rightarrow> privateWrite list \<Rightarrow> 's \<Rightarrow> unit res \<times> 's" where
  "write_private L ws s =
     (if len ws > 0
      then (case l_private L of
              None \<Rightarrow> (Inl (fail ''INTERNAL_ERROR''), s)
            | Some P \<Rightarrow> write_private_all P ws s)
      else (Inr (), s))"

definition engine_apply ::
  "'s ledger \<Rightarrow> evidenceProvider \<Rightarrow> Command \<Rightarrow> execution \<Rightarrow> 's \<Rightarrow> Receipt res \<times> 's" where
  "engine_apply L evidence c x s =
     (case apply_plan L evidence c x s of
       Inl e \<Rightarrow> (Inl e, s)
     | Inr (receipt, plan, event, private) \<Rightarrow>
         case write_private L private s of
           (Inl e, s1) \<Rightarrow> (Inl e, s1)
         | (Inr _, s1) \<Rightarrow>
             case flush L plan event s1 of
               (Inl e, s2) \<Rightarrow> (Inl e, s2)
             | (Inr _, s2) \<Rightarrow> (Inr receipt, s2))"

subsection \<open>The effect of a successful command\<close>

text \<open>
  The kinds of key that only an evidence provider writes.  A provider whose public marks stay
  among them cannot touch a batch, its indexes or its transfers.
\<close>

definition evidence_kinds :: "bytes list" where
  "evidence_kinds = [''document'', ''sourceUse'', ''nonceUse'', ''evaluation'', ''anomalyReference'',
     ''reviewActionReference'']"

definition evidence_plan :: "('e) externals_scheme \<Rightarrow> writePlan \<Rightarrow> bool" where
  "evidence_plan L p \<longleftrightarrow> distinct (map fst p) \<and> plan_within L evidence_kinds p"

locale evidence_provider =
  fixes L :: "'s ledger" and evidence :: evidenceProvider
  assumes public_marks: "evidence c b refs = Inr v \<Longrightarrow> evidence_plan L (v_Public v)"
    and analysis_phase: "evidence c b refs = Inr v \<Longrightarrow>
      c_Command c \<in> {''EvaluatePrice'', ''OpenReview'', ''ResolveReview''} \<Longrightarrow>
      b_State b = RetailReported"

text \<open>
  What the shared end of \<open>apply\<close> makes of the public values \<open>f\<close> that the case of the switch
  left, at every kind of key the evidence does not own.
\<close>

definition settled ::
  "Command \<Rightarrow> execution \<Rightarrow> bool \<Rightarrow> Batch \<Rightarrow> draft \<Rightarrow> (bytes \<Rightarrow> bytes list \<Rightarrow> bytes)
     \<Rightarrow> bytes \<Rightarrow> bytes list \<Rightarrow> bytes" where
  "settled c x exists old d f kind attrs =
     (let b = advance x old (d_batch d);
          receipt = encoded (marshal Receipt_fields (receipt_for c x b (sortedUnique (d_ids d))))
      in if (exists \<and> b_State old \<noteq> b_State b) \<and> kind = ''state''
            \<and> attrs = [b_State old, b_BatchID b] then []
         else if (exists \<and> b_OwnerMSP old \<noteq> b_OwnerMSP b) \<and> kind = ''owner''
            \<and> attrs = [b_OwnerMSP old, b_BatchID b] then []
         else if kind = ''state'' \<and> attrs = [b_State b, b_BatchID b]
         then encoded (JStr (b_BatchID b))
         else if kind = ''owner'' \<and> attrs = [b_OwnerMSP b, b_BatchID b]
         then encoded (JStr (b_BatchID b))
         else if kind = ''history'' \<and> attrs = [c_BatchID c, format_padded (b_Version b)] then receipt
         else if kind = ''operation'' \<and> attrs = [x_Actor x, c_OperationID c] then receipt
         else if kind = ''batchEvidence'' \<and> attrs = [c_BatchID c]
         then encoded (marshal EvidenceRefs_fields (d_refs d))
         else if kind = ''batch'' \<and> attrs = [c_BatchID c] then encoded (marshal Batch_fields b)
         else f kind attrs)"

context ledger_store begin

lemma put_record_at:
  assumes "put_record L (kind, attrs, v) p = Inr q"
  shows "at L (outcome (map_of q) w) kind' attrs' =
     (if kind' = kind \<and> attrs' = attrs then encoded v else at L (outcome (map_of p) w) kind' attrs')"
  using assms by (auto simp: put_record_def rbind_eq_Inr key_eq_Inr at_upd)

lemma drop_stale_at:
  assumes "drop_stale L stale kind attrs p = Inr q"
  shows "at L (outcome (map_of q) w) kind' attrs' =
     (if stale \<and> kind' = kind \<and> attrs' = attrs then [] else at L (outcome (map_of p) w) kind' attrs')"
  using assms
  by (auto simp: drop_stale_def delete_key_def rbind_eq_Inr key_eq_Inr at_upd split: if_splits)

lemma finish_effect:
  assumes "finish L c x exists old d public = Inr (receipt, plan, event)"
    and "evidence_plan L public" and "kind \<notin> set evidence_kinds"
  shows "at L (outcome (map_of plan) w) kind attrs =
           settled c x exists old d (at L (outcome (map_of (d_plan d)) w)) kind attrs"
proof -
  let ?b = "advance x old (d_batch d)"
  let ?r = "marshal Receipt_fields (receipt_for c x ?b (sortedUnique (d_ids d)))"
  obtain p1 p2 p3 p4 p5 p6 p7 p8 where
    p: "put_record L (''batch'', [c_BatchID c], marshal Batch_fields ?b) (d_plan d) = Inr p1"
       "put_record L (''batchEvidence'', [c_BatchID c], marshal EvidenceRefs_fields (d_refs d)) p1 = Inr p2"
       "put_record L (''operation'', [x_Actor x, c_OperationID c], ?r) p2 = Inr p3"
       "put_record L (''history'', [c_BatchID c, format_padded (b_Version ?b)], ?r) p3 = Inr p4"
       "put_record L (''owner'', [b_OwnerMSP ?b, b_BatchID ?b], JStr (b_BatchID ?b)) p4 = Inr p5"
       "put_record L (''state'', [b_State ?b, b_BatchID ?b], JStr (b_BatchID ?b)) p5 = Inr p6"
       "drop_stale L (exists \<and> b_OwnerMSP old \<noteq> b_OwnerMSP ?b) ''owner'' [b_OwnerMSP old, b_BatchID ?b] p6 = Inr p7"
       "drop_stale L (exists \<and> b_State old \<noteq> b_State ?b) ''state'' [b_State old, b_BatchID ?b] p7 = Inr p8"
    and plan: "plan = merge_plan public p8"
    using assms(1) by (auto simp: finish_def Let_def rbind_eq_Inr)
  have "map_of plan = map_of p8 ++ map_of public"
    using assms(2) unfolding plan by (intro map_of_merge_plan) (simp add: evidence_plan_def)
  then have "at L (outcome (map_of plan) w) kind attrs = at L (outcome (map_of p8) w) kind attrs"
    using at_outcome_within [OF _ assms(3)] assms(2) by (simp add: evidence_plan_def)
  then show ?thesis
    unfolding settled_def Let_def drop_stale_at [OF p(8)] drop_stale_at [OF p(7)]
      put_record_at [OF p(6)] put_record_at [OF p(5)] put_record_at [OF p(4)]
      put_record_at [OF p(3)] put_record_at [OF p(2)] put_record_at [OF p(1)] .
qed

text \<open>Writes to private collections leave the public state alone.\<close>

lemma write_private_view: "write_private L ws s = (Inr u, s') \<Longrightarrow> view s' = view s"
proof -
  have all: "write_private_all P vs t = (Inr u, t') \<Longrightarrow> view t' = view t"
    if P: "l_private L = Some P" for P vs t t'
  proof (induction vs arbitrary: t)
    case Nil
    then show ?case by simp
  next
    case (Cons w vs)
    then obtain t1 where "p_write P (pw_Collection w) (pw_Key w) (pw_Value w) t = Some t1"
      and "write_private_all P vs t1 = (Inr u, t')"
      by (auto split: option.splits)
    then show ?case using Cons.IH view_private_write [OF P] by metis
  qed
  show "write_private L ws s = (Inr u, s') \<Longrightarrow> view s' = view s"
    using all by (auto simp: write_private_def split: if_splits option.splits)
qed

lemma engine_apply_view:
  assumes "engine_apply L evidence c x s = (Inr receipt, s')"
  obtains exists old refs v d plan event where
    "apply_checks L s c x = Inr (exists, old, refs)" "evidence c old refs = Inr v"
    "apply_command L s c x old refs v = Inr d"
    "finish L c x exists old d (v_Public v) = Inr (receipt, plan, event)"
    "view s' = outcome (map_of plan) (view s)"
proof -
  obtain plan event ws s1 where plan: "apply_plan L evidence c x s = Inr (receipt, plan, event, ws)"
    and ws: "write_private L ws s = (Inr (), s1)"
    and fl: "flush L plan event s1 = (Inr (), s')"
    using assms by (auto simp: engine_apply_def split: sum.splits prod.splits)
  from plan obtain exists old refs v d where
    "apply_checks L s c x = Inr (exists, old, refs)" "evidence c old refs = Inr v"
    "apply_command L s c x old refs v = Inr d"
    "finish L c x exists old d (v_Public v) = Inr (receipt, plan, event)"
    by (auto simp: apply_plan_def rbind_eq_Inr)
  moreover have "view s' = outcome (map_of plan) (view s)"
    using flush_view(1) [OF fl] write_private_view [OF ws] by simp
  ultimately show ?thesis by (rule that)
qed

end

end
