(* ===== verification/Base64.thy ===== *)
theory Base64
  imports Text
begin

text \<open>
  \<open>base64.RawURLEncoding\<close> (no padding) and \<open>hex\<close>, on bytes.  Three bytes are four sextets;
  two bytes are three and one byte is two, the unused low bits being zero.  Go's decoder skips
  carriage returns and line feeds; the strict variant also rejects non-zero unused bits.
\<close>

definition alphabet :: bytes where
  "alphabet = ''ABCDEFGHIJKLMNOPQRSTUVWXYZabcdefghijklmnopqrstuvwxyz0123456789-_''"

definition sextet_char :: "nat \<Rightarrow> char" where
  "sextet_char n = alphabet ! n"

text \<open>The position of a character in the alphabet, by its ranges.\<close>

definition sextet_val :: "char \<Rightarrow> nat option" where
  "sextet_val c =
     (if is_upper c then Some (byte c - 65)
      else if 97 \<le> byte c \<and> byte c \<le> 122 then Some (byte c - 71)
      else if is_digit c then Some (byte c + 4)
      else if c = CHR ''-'' then Some 62
      else if c = CHR ''_'' then Some 63
      else None)"

fun encode64 :: "bytes \<Rightarrow> bytes" where
  "encode64 (a # b # c # s) =
     [sextet_char (byte a div 4),
      sextet_char (byte a mod 4 * 16 + byte b div 16),
      sextet_char (byte b mod 16 * 4 + byte c div 64),
      sextet_char (byte c mod 64)] @ encode64 s"
| "encode64 [a, b] =
     [sextet_char (byte a div 4),
      sextet_char (byte a mod 4 * 16 + byte b div 16),
      sextet_char (byte b mod 16 * 4)]"
| "encode64 [a] = [sextet_char (byte a div 4), sextet_char (byte a mod 4 * 16)]"
| "encode64 [] = []"

fun decode_sextets :: "bool \<Rightarrow> nat list \<Rightarrow> bytes option" where
  "decode_sextets strict (p # q # r # t # s) =
     map_option (\<lambda>rest.
       [char_of (p * 4 + q div 16),
        char_of (q mod 16 * 16 + r div 4),
        char_of (r mod 4 * 64 + t)] @ rest) (decode_sextets strict s)"
| "decode_sextets strict [p, q, r] =
     (if strict \<and> r mod 4 \<noteq> 0 then None
      else Some [char_of (p * 4 + q div 16), char_of (q mod 16 * 16 + r div 4)])"
| "decode_sextets strict [p, q] =
     (if strict \<and> q mod 16 \<noteq> 0 then None else Some [char_of (p * 4 + q div 16)])"
| "decode_sextets strict [p] = None"
| "decode_sextets strict [] = Some []"

definition decode64 :: "bool \<Rightarrow> bytes \<Rightarrow> bytes option" where
  "decode64 strict s =
     Option.bind (those (map sextet_val (filter (\<lambda>c. c \<noteq> CHR 0x0A \<and> c \<noteq> CHR 0x0D) s)))
       (decode_sextets strict)"

text \<open>Hexadecimal, as \<open>hex.DecodeString\<close> reads the salts that \<open>hexID\<close> accepts.\<close>

definition hex_nibble :: "char \<Rightarrow> nat" where
  "hex_nibble c = (if is_digit c then byte c - 48 else byte c - 87)"

fun hex_decode :: "bytes \<Rightarrow> bytes" where
  "hex_decode (a # b # s) = char_of (hex_nibble a * 16 + hex_nibble b) # hex_decode s"
| "hex_decode _ = []"

definition hex_encode :: "bytes \<Rightarrow> bytes" where
  "hex_encode s = concat (map (\<lambda>c.
     [''0123456789abcdef'' ! (byte c div 16), ''0123456789abcdef'' ! (byte c mod 16)]) s)"

subsection \<open>Decoding what was encoded\<close>

lemma byte_less: "byte c < 256"
  by simp

lemma byte_parts: "byte c div 4 < 64" "byte c div 16 < 16" "byte c div 64 < 4"
  using byte_less [of c] by (simp_all only: less_mult_imp_div_less)

lemma pack: "k < n \<Longrightarrow> (m * n + k) div n = m" "k < n \<Longrightarrow> (m * n + k) mod n = k" for k m n :: nat
  by simp_all

lemma pack_less: "m < k \<Longrightarrow> j < n \<Longrightarrow> m * n + j < k * n" for j k m n :: nat
proof -
  assume "m < k" "j < n"
  then have "m * n + j < Suc m * n" by simp
  also have "\<dots> \<le> k * n" using \<open>m < k\<close> by (intro mult_right_mono) auto
  finally show ?thesis .
qed

lemma sextet_val_char:
  assumes "n < 64"
  shows "sextet_val (sextet_char n) = Some n"
    and "sextet_char n \<noteq> CHR 0x0A" "sextet_char n \<noteq> CHR 0x0D"
proof -
  have "list_all (\<lambda>n. sextet_val (sextet_char n) = Some n
      \<and> sextet_char n \<noteq> CHR 0x0A \<and> sextet_char n \<noteq> CHR 0x0D) [0..<64]"
    by code_simp
  with assms show "sextet_val (sextet_char n) = Some n"
    "sextet_char n \<noteq> CHR 0x0A" "sextet_char n \<noteq> CHR 0x0D"
    by (simp_all add: list_all_iff)
qed

lemma encode64_sextets:
  "\<exists>ns. encode64 s = map sextet_char ns \<and> (\<forall>n \<in> set ns. n < 64) \<and> decode_sextets strict ns = Some s"
proof (induction s rule: encode64.induct)
  case (1 a b c s)
  then obtain ns where ns: "encode64 s = map sextet_char ns" "\<forall>n \<in> set ns. n < 64"
    "decode_sextets strict ns = Some s" by blast
  let ?p = "byte a div 4" and ?q = "byte a mod 4 * 16 + byte b div 16"
  let ?r = "byte b mod 16 * 4 + byte c div 64" and ?t = "byte c mod 64"
  have less: "?p < 64" "?q < 64" "?r < 64" "?t < 64"
    using byte_parts [of a] byte_parts [of b] byte_parts [of c]
      pack_less [of "byte a mod 4" 4 "byte b div 16" 16]
      pack_less [of "byte b mod 16" 16 "byte c div 64" 4] by simp_all
  have "?p * 4 + ?q div 16 = byte a" "?q mod 16 * 16 + ?r div 4 = byte b"
    "?r mod 4 * 64 + ?t = byte c"
    by (simp_all only: pack byte_parts div_mult_mod_eq)
  then have "decode_sextets strict (?p # ?q # ?r # ?t # ns) = Some (a # b # c # s)"
    using ns(3) by simp
  with ns less show ?case by (intro exI [of _ "?p # ?q # ?r # ?t # ns"]) simp
next
  case (2 a b)
  let ?p = "byte a div 4" and ?q = "byte a mod 4 * 16 + byte b div 16" and ?r = "byte b mod 16 * 4"
  have less: "?p < 64" "?q < 64" "?r < 64" "?r mod 4 = 0"
    using byte_parts [of a] byte_parts [of b]
      pack_less [of "byte a mod 4" 4 "byte b div 16" 16] pack_less [of "byte b mod 16" 16 0 4]
    by simp_all
  have "?p * 4 + ?q div 16 = byte a" "?q mod 16 * 16 + ?r div 4 = byte b"
    by (simp_all add: pack byte_parts)
  then have "decode_sextets strict [?p, ?q, ?r] = Some [a, b]"
    using less by simp
  with less show ?case by (intro exI [of _ "[?p, ?q, ?r]"]) simp
next
  case (3 a)
  let ?p = "byte a div 4" and ?q = "byte a mod 4 * 16"
  have less: "?p < 64" "?q < 64" "?q mod 16 = 0"
    using byte_parts [of a] pack_less [of "byte a mod 4" 4 0 16] by simp_all
  have "?p * 4 + ?q div 16 = byte a" by simp
  then have "decode_sextets strict [?p, ?q] = Some [a]"
    using less by simp
  with less show ?case by (intro exI [of _ "[?p, ?q]"]) simp
next
  case 4
  show ?case by (intro exI [of _ "[]"]) simp
qed

text \<open>Every byte string is recovered from its encoding, by the strict decoder too.\<close>

lemma decode64_encode64: "decode64 strict (encode64 s) = Some s"
proof -
  obtain ns where ns: "encode64 s = map sextet_char ns" "\<forall>n \<in> set ns. n < 64"
    "decode_sextets strict ns = Some s" using encode64_sextets by blast
  then have "filter (\<lambda>c. c \<noteq> CHR 0x0A \<and> c \<noteq> CHR 0x0D) (map sextet_char ns) = map sextet_char ns"
    by (auto simp: filter_id_conv sextet_val_char)
  moreover have "those (map sextet_val (map sextet_char ns)) = Some ns"
    using ns(2) by (induction ns) (auto simp: sextet_val_char)
  ultimately show ?thesis using ns by (simp add: decode64_def)
qed

lemma encode64_inject: "encode64 s = encode64 t \<longleftrightarrow> s = t"
  by (metis decode64_encode64 option.inject)

end
