(* ===== verification/Evidence.thy ===== *)
theory Evidence
  imports Domain Base64
begin

text \<open>
  \<open>evidence.go\<close>: the trust configuration and source keys, signed document envelopes and
  bundles, the salted commitment, bootstrap, and the verification of a bundle.
\<close>

subsection \<open>Collections and records\<close>

definition trade :: bytes where "trade = ''tradePrivate''"
definition freight :: bytes where "freight = ''freightPrivate''"
definition audit :: bytes where "audit = ''retailAuditPrivate''"

lemma collections_distinct [simp]:
  "trade \<noteq> freight" "trade \<noteq> audit" "freight \<noteq> trade" "freight \<noteq> audit" "audit \<noteq> trade"
  "audit \<noteq> freight" "trade \<noteq> []" "freight \<noteq> []" "audit \<noteq> []"
  by (simp_all add: trade_def freight_def audit_def)

record sourceKey =
  sk_SchemaVersion :: bytes
  sk_IssuerID :: bytes
  sk_SourceSystem :: bytes
  sk_DocumentTypes :: "bytes list"
  sk_KeyID :: bytes
  sk_PublicKey :: bytes
  sk_Enabled :: bool

definition sourceKey_fields :: "sourceKey field list" where
  "sourceKey_fields =
     [str ''schemaVersion'' sk_SchemaVersion sk_SchemaVersion_update,
      str ''issuerId'' sk_IssuerID sk_IssuerID_update,
      str ''sourceSystem'' sk_SourceSystem sk_SourceSystem_update,
      field ''documentTypes'' False (list_codec string_codec []) sk_DocumentTypes sk_DocumentTypes_update,
      str ''keyId'' sk_KeyID sk_KeyID_update,
      str ''publicKeyRawBase64url'' sk_PublicKey sk_PublicKey_update,
      field ''enabled'' False bool_codec sk_Enabled sk_Enabled_update]"

definition sourceKey_zero :: sourceKey where
  "sourceKey_zero = \<lparr> sk_SchemaVersion = [], sk_IssuerID = [], sk_SourceSystem = [],
     sk_DocumentTypes = [], sk_KeyID = [], sk_PublicKey = [], sk_Enabled = False \<rparr>"

definition sourceKey_ok :: "sourceKey \<Rightarrow> bool" where
  "sourceKey_ok r \<longleftrightarrow> list_all text_ok
     [sk_SchemaVersion r, sk_IssuerID r, sk_SourceSystem r, sk_KeyID r, sk_PublicKey r]
   \<and> list_all text_ok (sk_DocumentTypes r)"

interpretation source_key: struct sourceKey_fields sourceKey_ok
  by unfold_locales
    (auto simp: sourceKey_fields_def sourceKey_ok_def keeps_field intro!: field_rules)

lemma sourceKey_codec_ok: "codec_ok (struct_codec sourceKey_fields) sourceKey_ok"
  by (rule source_key.struct_codec_ok) (auto simp: sourceKey_fields_def)

lemmas field_okI_sourceKey [field_rules] = field_okI [OF sourceKey_codec_ok]

lemmas field_okI_sourceKey_list [field_rules] = field_okI [OF list_codec_ok [OF sourceKey_codec_ok]]

record configuration =
  cf_SchemaVersion :: bytes
  cf_PolicyID :: bytes
  cf_ThresholdBps :: int
  cf_Sources :: "sourceKey list"

definition configuration_fields :: "configuration field list" where
  "configuration_fields =
     [str ''schemaVersion'' cf_SchemaVersion cf_SchemaVersion_update,
      str ''policyId'' cf_PolicyID cf_PolicyID_update,
      int64 ''thresholdBps'' cf_ThresholdBps cf_ThresholdBps_update,
      field ''sources'' False (list_codec (struct_codec sourceKey_fields) sourceKey_zero) cf_Sources cf_Sources_update]"

definition configuration_zero :: configuration where
  "configuration_zero = \<lparr> cf_SchemaVersion = [], cf_PolicyID = [], cf_ThresholdBps = 0, cf_Sources = [] \<rparr>"

definition configuration_ok :: "configuration \<Rightarrow> bool" where
  "configuration_ok r \<longleftrightarrow> list_all text_ok
     [cf_SchemaVersion r, cf_PolicyID r]
   \<and> int_ok 64 (cf_ThresholdBps r)
   \<and> list_all sourceKey_ok (cf_Sources r)"

interpretation configuration: struct configuration_fields configuration_ok
  by unfold_locales
    (auto simp: configuration_fields_def configuration_ok_def keeps_field intro!: field_rules)

lemma configuration_codec_ok: "codec_ok (struct_codec configuration_fields) configuration_ok"
  by (rule configuration.struct_codec_ok) (auto simp: configuration_fields_def)

lemmas field_okI_configuration [field_rules] = field_okI [OF configuration_codec_ok]

record header =
  h_SchemaVersion :: bytes
  h_DocumentID :: bytes
  h_SourceSystem :: bytes
  h_SourceMode :: bytes
  h_IssuerID :: bytes
  h_KeyID :: bytes
  h_SourceDocumentID :: bytes
  h_DocumentType :: bytes
  h_BatchID :: bytes
  h_OperationID :: bytes
  h_IssuedAt :: bytes
  h_Nonce :: bytes
  h_CommitmentAlgorithm :: bytes
  h_Commitment :: bytes
  h_SignatureAlgorithm :: bytes

definition header_fields :: "header field list" where
  "header_fields =
     [str ''schemaVersion'' h_SchemaVersion h_SchemaVersion_update,
      str ''documentId'' h_DocumentID h_DocumentID_update,
      str ''sourceSystem'' h_SourceSystem h_SourceSystem_update,
      str ''sourceMode'' h_SourceMode h_SourceMode_update,
      str ''issuerId'' h_IssuerID h_IssuerID_update,
      str ''keyId'' h_KeyID h_KeyID_update,
      str ''sourceDocumentId'' h_SourceDocumentID h_SourceDocumentID_update,
      str ''documentType'' h_DocumentType h_DocumentType_update,
      str ''batchId'' h_BatchID h_BatchID_update,
      str ''boundOperationId'' h_OperationID h_OperationID_update,
      str ''issuedAt'' h_IssuedAt h_IssuedAt_update,
      str ''nonce'' h_Nonce h_Nonce_update,
      str ''commitmentAlgorithm'' h_CommitmentAlgorithm h_CommitmentAlgorithm_update,
      str ''commitment'' h_Commitment h_Commitment_update,
      str ''signatureAlgorithm'' h_SignatureAlgorithm h_SignatureAlgorithm_update]"

definition header_zero :: header where
  "header_zero = \<lparr> h_SchemaVersion = [], h_DocumentID = [], h_SourceSystem = [], h_SourceMode = [],
     h_IssuerID = [], h_KeyID = [], h_SourceDocumentID = [], h_DocumentType = [],
     h_BatchID = [], h_OperationID = [], h_IssuedAt = [], h_Nonce = [],
     h_CommitmentAlgorithm = [], h_Commitment = [], h_SignatureAlgorithm = [] \<rparr>"

definition header_ok :: "header \<Rightarrow> bool" where
  "header_ok r \<longleftrightarrow> list_all text_ok
     [h_SchemaVersion r, h_DocumentID r, h_SourceSystem r, h_SourceMode r,
      h_IssuerID r, h_KeyID r, h_SourceDocumentID r, h_DocumentType r, h_BatchID r,
      h_OperationID r, h_IssuedAt r, h_Nonce r, h_CommitmentAlgorithm r,
      h_Commitment r, h_SignatureAlgorithm r]"

interpretation header: struct header_fields header_ok
  by unfold_locales
    (auto simp: header_fields_def header_ok_def keeps_field intro!: field_rules)

lemma header_codec_ok: "codec_ok (struct_codec header_fields) header_ok"
  by (rule header.struct_codec_ok) (auto simp: header_fields_def)

lemmas field_okI_header [field_rules] = field_okI [OF header_codec_ok]

record envelope =
  env_Header :: header
  env_Signature :: bytes

definition envelope_fields :: "envelope field list" where
  "envelope_fields =
     [field ''header'' False (struct_codec header_fields) env_Header env_Header_update,
      str ''signature'' env_Signature env_Signature_update]"

definition envelope_zero :: envelope where
  "envelope_zero = \<lparr> env_Header = header_zero, env_Signature = [] \<rparr>"

definition envelope_ok :: "envelope \<Rightarrow> bool" where
  "envelope_ok r \<longleftrightarrow> list_all text_ok
     [env_Signature r]
   \<and> header_ok (env_Header r)"

interpretation envelope: struct envelope_fields envelope_ok
  by unfold_locales
    (auto simp: envelope_fields_def envelope_ok_def keeps_field intro!: field_rules)

lemma envelope_codec_ok: "codec_ok (struct_codec envelope_fields) envelope_ok"
  by (rule envelope.struct_codec_ok) (auto simp: envelope_fields_def)

lemmas field_okI_envelope [field_rules] = field_okI [OF envelope_codec_ok]

record bundle_t =
  bu_Envelope :: envelope
  bu_Body :: bytes
  bu_Salt :: bytes

definition bundle_fields :: "bundle_t field list" where
  "bundle_fields =
     [field ''envelope'' False (struct_codec envelope_fields) bu_Envelope bu_Envelope_update,
      field ''body'' False raw_codec bu_Body bu_Body_update,
      str ''saltHex'' bu_Salt bu_Salt_update]"

definition bundle_zero :: bundle_t where
  "bundle_zero = \<lparr> bu_Envelope = envelope_zero, bu_Body = [], bu_Salt = [] \<rparr>"

definition bundle_ok :: "bundle_t \<Rightarrow> bool" where
  "bundle_ok r \<longleftrightarrow> list_all text_ok
     [bu_Salt r]
   \<and> envelope_ok (bu_Envelope r)
   \<and> raw_ok (bu_Body r)"

interpretation bundle_q: struct bundle_fields bundle_ok
  by unfold_locales
    (auto simp: bundle_fields_def bundle_ok_def keeps_field intro!: field_rules)

lemma bundle_codec_ok: "codec_ok (struct_codec bundle_fields) bundle_ok"
  by (rule bundle_q.struct_codec_ok) (auto simp: bundle_fields_def)

lemmas field_okI_bundle [field_rules] = field_okI [OF bundle_codec_ok]

record opening_t =
  op_Body :: bytes
  op_Salt :: bytes

definition opening_fields :: "opening_t field list" where
  "opening_fields =
     [field ''body'' False raw_codec op_Body op_Body_update,
      str ''saltHex'' op_Salt op_Salt_update]"

definition opening_zero :: opening_t where
  "opening_zero = \<lparr> op_Body = [], op_Salt = [] \<rparr>"

definition opening_ok :: "opening_t \<Rightarrow> bool" where
  "opening_ok r \<longleftrightarrow> list_all text_ok
     [op_Salt r]
   \<and> raw_ok (op_Body r)"

interpretation opening_q: struct opening_fields opening_ok
  by unfold_locales
    (auto simp: opening_fields_def opening_ok_def keeps_field intro!: field_rules)

lemma opening_codec_ok: "codec_ok (struct_codec opening_fields) opening_ok"
  by (rule opening_q.struct_codec_ok) (auto simp: opening_fields_def)

lemmas field_okI_opening [field_rules] = field_okI [OF opening_codec_ok]

subsection \<open>Encodings of keys, signatures and commitments\<close>

definition rawURL :: "bytes \<Rightarrow> int \<Rightarrow> bytes res" where
  "rawURL v n =
     (case decode64 True v of
       None \<Rightarrow> Inl (fail ''INVALID_SCHEMA'')
     | Some b \<Rightarrow> if len b \<noteq> n \<or> encode64 b \<noteq> v then Inl (fail ''INVALID_SCHEMA'') else Inr b)"

text \<open>\<open>binary.BigEndian.PutUint64\<close>.\<close>

definition be64 :: "int \<Rightarrow> bytes" where
  "be64 n = map (\<lambda>i. char_of (nat (n div 2 ^ (8 * i) mod 256))) [7, 6, 5, 4, 3, 2, 1, 0]"

definition commitment :: "'s ledger \<Rightarrow> bytes \<Rightarrow> bytes \<Rightarrow> bytes res" where
  "commitment L body salt =
     (if \<not> match_hexID salt then Inl (fail ''INVALID_SCHEMA'')
      else rbind (strictJSON body) (\<lambda>v.
           rbind (canonical (Some v)) (\<lambda>b.
           Inr (hex_encode (Sha256 L
             (''AgroChain/document/v1'' @ [CHR 0x00] @ hex_decode salt @ be64 (len b) @ b))))))"

subsection \<open>Configuration and bootstrap\<close>

definition getConfig :: "'s ledger \<Rightarrow> 's \<Rightarrow> configuration res" where
  "getConfig L s =
     rbind (key L ''configuration'' [''v1'']) (\<lambda>k.
     rbind (load L s k (struct_codec configuration_fields) configuration_zero) (\<lambda>(found, c).
     if \<not> found then Inl (fail ''CONFIGURATION_REQUIRED'') else Inr c))"

definition source_types :: "bytes \<Rightarrow> bytes list option" where
  "source_types system =
     (if system = ''CKS'' then Some [''PRODUCER_ELIGIBILITY'']
      else if system = ''EFATURA'' then Some [''FREIGHT_INVOICE'', ''PURCHASE_INVOICE'']
      else if system = ''HKS'' then Some [''TRADE_NOTIFICATION'']
      else if system = ''UETDS'' then Some [''TRANSPORT_MANIFEST'']
      else None)"

text \<open>
  One round of the loop over the sources, on the plan, the registry keys and systems seen, and
  the last system.  \<open>reflect.DeepEqual\<close> with a missing entry of the table is false: the slice
  of a decoded source is never nil there.
\<close>

record bootstrap_loop =
  bl_plan :: writePlan
  bl_seenKeys :: "bytes list"
  bl_seen :: "bytes list"
  bl_last :: bytes

definition stored_source :: "sourceKey \<Rightarrow> bytes \<Rightarrow> jv" where
  "stored_source k txid =
     (case marshal sourceKey_fields k of
       JObj ms \<Rightarrow> JObj (ms @ [(''createdTxId'', JStr txid)])
     | v \<Rightarrow> v)"

definition register_source ::
  "'s ledger \<Rightarrow> execution \<Rightarrow> sourceKey \<Rightarrow> bootstrap_loop \<Rightarrow> bootstrap_loop res" where
  "register_source L x k st =
     rbind (key L ''sourceKey'' [sk_IssuerID k, sk_KeyID k]) (\<lambda>registryKey.
     if registryKey \<in> set (bl_seenKeys st) then Inl (fail ''INVALID_SCHEMA'')
     else rbind (encodedExact sourceKey_fields (Some (marshal sourceKey_fields k)) sourceKey_zero) (\<lambda>_.
     if sk_SchemaVersion k \<noteq> ''agrochain.source-key.v1'' \<or> \<not> match_reference (sk_IssuerID k)
        \<or> \<not> match_reference (sk_KeyID k) \<or> \<not> sk_Enabled k
        \<or> source_types (sk_SourceSystem k) \<noteq> Some (sk_DocumentTypes k)
        \<or> sk_SourceSystem k \<in> set (bl_seen st) \<or> sk_SourceSystem k \<le> bl_last st
     then Inl (fail ''INVALID_SCHEMA'')
     else rbind (rawURL (sk_PublicKey k) 32) (\<lambda>_.
          rbind (put (bl_plan st) registryKey (Some (stored_source k (x_TxID x)))) (\<lambda>plan.
          Inr \<lparr> bl_plan = plan, bl_seenKeys = registryKey # bl_seenKeys st,
                bl_seen = sk_SourceSystem k # bl_seen st, bl_last = sk_SourceSystem k \<rparr>))))"

definition policy_value :: "configuration \<Rightarrow> bytes \<Rightarrow> jv" where
  "policy_value c txid = JObj
     [(''schemaVersion'', JStr ''agrochain.price-policy.v1''), (''policyId'', JStr (cf_PolicyID c)),
      (''ruleVersion'', JStr ''price-increase-v1''),
      (''thresholdBps'', JNum (FormatInt (cf_ThresholdBps c))), (''currency'', JStr ''TRY''),
      (''taxBasis'', JStr ''EXCLUDING_TAX''), (''comparison'', JStr ''STRICT_GREATER''),
      (''createdTxId'', JStr txid)]"

text \<open>\<open>v.(map[string]any)["sources"].([]any)\<close>.\<close>

definition source_items :: "jv res \<Rightarrow> jv list res" where
  "source_items v =
     (case v of
       Inr (JObj ms) \<Rightarrow>
         (case map_of ms ''sources'' of
           Some (JArr items) \<Rightarrow> Inr items
         | _ \<Rightarrow> Inl (Panic ''interface conversion''))
     | _ \<Rightarrow> Inl (Panic ''interface conversion''))"

definition check_source_item :: "jv \<Rightarrow> unit \<Rightarrow> unit res" where
  "check_source_item item _ =
     rbind (encodedExact sourceKey_fields (Some item) sourceKey_zero) (\<lambda>_. Inr ())"

definition bootstrap_plan ::
  "'s ledger \<Rightarrow> 's \<Rightarrow> execution \<Rightarrow> bytes \<Rightarrow> (configuration \<times> writePlan) res" where
  "bootstrap_plan L s x raw =
     rbind (authorize (x_Actor x) (x_Role x) ''Bootstrap'') (\<lambda>_.
     rbind (key L ''configuration'' [''v1'']) (\<lambda>configKey.
     rbind (absent L s configKey ''CONFIGURATION_ALREADY_EXISTS'') (\<lambda>_.
     rbind (exact configuration_fields raw configuration_zero) (\<lambda>c.
     if cf_SchemaVersion c \<noteq> ''agrochain.bootstrap.v1'' \<or> \<not> validID (cf_PolicyID c) ''CFG''
        \<or> cf_ThresholdBps c < 0 \<or> cf_ThresholdBps c > 100000 \<or> len (cf_Sources c) \<noteq> 4
     then Inl (fail ''INVALID_SCHEMA'')
     else rbind (fold_result (register_source L x) (cf_Sources c)
                   \<lparr> bl_plan = [], bl_seenKeys = [], bl_seen = [], bl_last = [] \<rparr>) (\<lambda>st.
          rbind (source_items (strictJSON raw)) (\<lambda>items.
          rbind (fold_result check_source_item items ()) (\<lambda>_.
          rbind (put (bl_plan st) configKey (Some (marshal configuration_fields c))) (\<lambda>plan.
          rbind (key L ''policy'' [cf_PolicyID c]) (\<lambda>policyKey.
          rbind (put plan policyKey (Some (policy_value c (x_TxID x)))) (\<lambda>plan1.
          Inr (c, plan1)))))))))))"

fun write_keys :: "'s ledger \<Rightarrow> writePlan \<Rightarrow> bytes list \<Rightarrow> 's \<Rightarrow> unit res \<times> 's" where
  "write_keys L p [] s = (Inr (), s)"
| "write_keys L p (k # ks) s =
     (case l_write L k (case map_of p k of Some (Some v) \<Rightarrow> v | _ \<Rightarrow> []) s of
       None \<Rightarrow> (Inl (fail ''INTERNAL_ERROR''), s)
     | Some s' \<Rightarrow> write_keys L p ks s')"

definition bootstrap :: "'s ledger \<Rightarrow> execution \<Rightarrow> bytes \<Rightarrow> 's \<Rightarrow> configuration res \<times> 's" where
  "bootstrap L x raw s =
     (case bootstrap_plan L s x raw of
       Inl e \<Rightarrow> (Inl e, s)
     | Inr (c, plan) \<Rightarrow>
         case write_keys L plan (sort (map fst plan)) s of
           (Inl e, s1) \<Rightarrow> (Inl e, s1)
         | (Inr _, s1) \<Rightarrow> (Inr c, s1))"

subsection \<open>Verification of a bundle\<close>

definition header_well_formed :: "header \<Rightarrow> bool" where
  "header_well_formed h \<longleftrightarrow>
     \<not> (h_SchemaVersion h \<noteq> ''agrochain.source-document.v1'' \<or> h_SourceMode h \<noteq> ''SIMULATED''
        \<or> \<not> validID (h_DocumentID h) ''DOC'' \<or> \<not> validID (h_SourceDocumentID h) ''DOC''
        \<or> \<not> validID (h_BatchID h) ''BAT'' \<or> \<not> validID (h_OperationID h) ''OP''
        \<or> \<not> match_reference (h_IssuerID h) \<or> \<not> match_reference (h_KeyID h)
        \<or> \<not> match_hexID (h_Nonce h) \<or> \<not> match_hexID (h_Commitment h)
        \<or> \<not> validDateTime (h_IssuedAt h)
        \<or> h_CommitmentAlgorithm h \<noteq> ''SHA256_SALTED_JCS_V1'' \<or> h_SignatureAlgorithm h \<noteq> ''Ed25519'')"

definition signed_message :: "bytes \<Rightarrow> bytes" where
  "signed_message msg = ''AgroChain/source-signature/v1'' @ [CHR 0x00] @ msg"

definition verifyBundle :: "'s ledger \<Rightarrow> 's \<Rightarrow> bundle_t \<Rightarrow> unit res" where
  "verifyBundle L s b =
     (let h = env_Header (bu_Envelope b) in
      if \<not> header_well_formed h then Inl (fail ''INVALID_SCHEMA'')
      else rbind (key L ''sourceKey'' [h_IssuerID h, h_KeyID h]) (\<lambda>registryKey.
           rbind (load L s registryKey (struct_codec sourceKey_fields) sourceKey_zero) (\<lambda>(found, k).
      if \<not> found \<or> \<not> sk_Enabled k \<or> sk_SourceSystem k \<noteq> h_SourceSystem h
      then Inl (fail ''UNTRUSTED_SOURCE_KEY'')
      else if h_DocumentType h \<notin> set (sk_DocumentTypes k) then Inl (fail ''UNTRUSTED_SOURCE_KEY'')
      else case rawURL (sk_PublicKey k) 32 of
        Inl _ \<Rightarrow> Inl (fail ''UNTRUSTED_SOURCE_KEY'')
      | Inr pub \<Rightarrow> case rawURL (env_Signature (bu_Envelope b)) 64 of
          Inl _ \<Rightarrow> Inl (fail ''INVALID_SOURCE_SIGNATURE'')
        | Inr sig \<Rightarrow>
            rbind (canonical (Some (marshal header_fields h))) (\<lambda>msg.
            if \<not> Ed25519Verify L pub (signed_message msg) sig
            then Inl (fail ''INVALID_SOURCE_SIGNATURE'')
            else rbind (commitment L (bu_Body b) (bu_Salt b)) (\<lambda>c.
                 if c \<noteq> h_Commitment h then Inl (fail ''DOCUMENT_HASH_MISMATCH'')
                 else Inr ())))))"

text \<open>One round of the loop of \<open>decodeBundles\<close>, on the bundles so far and the last document id.\<close>

definition decode_item :: "jv \<Rightarrow> bundle_t list \<times> bytes \<Rightarrow> (bundle_t list \<times> bytes) res" where
  "decode_item item acc =
     rbind (encodedExact bundle_fields (Some item) bundle_zero) (\<lambda>b.
     case item of
       JObj obj \<Rightarrow>
         rbind (encodedExact envelope_fields (map_of obj ''envelope'') envelope_zero) (\<lambda>_.
         case map_of obj ''envelope'' of
           Some (JObj env) \<Rightarrow>
             rbind (encodedExact header_fields (map_of env ''header'') header_zero) (\<lambda>_.
             let doc = h_DocumentID (env_Header (bu_Envelope b)) in
             if doc \<le> snd acc then Inl (fail ''INVALID_SCHEMA'')
             else Inr (fst acc @ [b], doc))
         | _ \<Rightarrow> Inl (Panic ''interface conversion''))
     | _ \<Rightarrow> Inl (Panic ''interface conversion''))"

definition decodeBundles :: "bytes \<Rightarrow> bundle_t list res" where
  "decodeBundles raw = rbind (strictJSON raw) (\<lambda>v.
     case v of
       JArr arr \<Rightarrow> rbind (fold_result decode_item arr ([], [])) (\<lambda>acc. Inr (fst acc))
     | _ \<Rightarrow> Inl (fail ''INVALID_SCHEMA''))"

subsection \<open>The effect of a bootstrap\<close>

text \<open>The kinds of key a bootstrap writes.\<close>

definition trust_kinds :: "bytes list" where
  "trust_kinds = [''sourceKey'', ''configuration'', ''policy'']"

lemma register_source_within:
  assumes "register_source L x k st = Inr st'" and "plan_within L trust_kinds (bl_plan st)"
  shows "plan_within L trust_kinds (bl_plan st')"
  using assms
  by (auto simp: register_source_def rbind_eq_Inr key_eq_Inr trust_kinds_def
      intro!: plan_within_put [where kind = "''sourceKey''"] split: if_splits)

lemma bootstrap_plan_within:
  assumes "bootstrap_plan L s x raw = Inr (c, plan)"
  shows "plan_within L trust_kinds plan"
proof -
  obtain k1 k2 w1 w2 st where k: "CreateCompositeKey L ''configuration'' [''v1''] = Some k1"
      "CreateCompositeKey L ''policy'' [cf_PolicyID c] = Some k2"
    and st: "fold_result (register_source L x) (cf_Sources c)
       \<lparr> bl_plan = [], bl_seenKeys = [], bl_seen = [], bl_last = [] \<rparr> = Inr st"
    and plan: "plan = put_entry k2 w2 (put_entry k1 w1 (bl_plan st))"
    using assms
    by (auto simp: bootstrap_plan_def rbind_eq_Inr key_eq_Inr split: if_splits)
  have "plan_within L trust_kinds (bl_plan st)"
    by (rule fold_result_invariant [OF st, where P = "\<lambda>t. plan_within L trust_kinds (bl_plan t)"])
      (auto intro: register_source_within)
  then show ?thesis
    unfolding plan
    by (intro plan_within_put [OF _ k(1)] plan_within_put [OF _ k(2)]) (simp_all add: trust_kinds_def)
qed

context ledger_store begin

lemma write_keys_view:
  assumes "write_keys L p ks s = (Inr u, s')" and "set ks \<subseteq> fst ` set p"
  shows "view s' k = (if k \<in> set ks then outcome (map_of p) (view s) k else view s k)"
  using assms
proof (induction ks arbitrary: s)
  case Nil
  then show ?case by simp
next
  case (Cons k0 ks)
  then have "k0 \<in> dom (map_of p)" by (simp add: dom_map_of_conv_image_fst)
  then obtain o0 where o0: "map_of p k0 = Some o0" by auto
  from Cons.prems o0 obtain s1 where s1: "l_write L k0 (case o0 of Some v \<Rightarrow> v | None \<Rightarrow> []) s = Some s1"
    "write_keys L p ks s1 = (Inr u, s')"
    by (auto split: option.splits)
  have v1: "view s1 = (view s)(k0 := (case o0 of Some v \<Rightarrow> v | None \<Rightarrow> []))"
    using view_write [OF s1(1)] .
  have "view s' k = (if k \<in> set ks then outcome (map_of p) (view s1) k else view s1 k)"
    using Cons.IH [OF s1(2)] Cons.prems(2) by simp
  then show ?case using v1 o0 by (auto simp: outcome_def split: option.splits)
qed

lemma bootstrap_view:
  assumes "bootstrap L x raw s = (Inr c, s')"
  obtains plan where "bootstrap_plan L s x raw = Inr (c, plan)" "view s' = outcome (map_of plan) (view s)"
proof -
  obtain plan where plan: "bootstrap_plan L s x raw = Inr (c, plan)"
    "write_keys L plan (sort (map fst plan)) s = (Inr (), s')"
    using assms by (auto simp: bootstrap_def split: sum.splits prod.splits)
  have "view s' k = outcome (map_of plan) (view s) k" for k
    using write_keys_view [OF plan(2), of k] map_of_eq_None_iff [of plan k]
    by (cases "k \<in> fst ` set plan") (simp_all add: outcome_def)
  then show ?thesis using that plan(1) by blast
qed

text \<open>A bootstrap leaves every other kind of key alone.\<close>

lemma bootstrap_frame:
  assumes "bootstrap L x raw s = (Inr c, s')" and "kind \<notin> set trust_kinds"
  shows "at L (view s') kind attrs = at L (view s) kind attrs"
proof -
  obtain plan where plan: "bootstrap_plan L s x raw = Inr (c, plan)"
    and v: "view s' = outcome (map_of plan) (view s)"
    using bootstrap_view [OF assms(1)] by blast
  show ?thesis
    using at_outcome_within [OF bootstrap_plan_within [OF plan] assms(2), of Map.empty "view s" attrs] v
    by simp
qed

end

end
