(* ===== verification/PrivateData.thy ===== *)
theory PrivateData
  imports Evidence
begin

text \<open>
  The data of \<open>private.go\<close>: the bodies of the documents, the private cost and retail records,
  loading from a private collection, the transient map of a proposal, and who may read a
  collection.
\<close>

subsection \<open>Document bodies\<close>

record purchaseBody =
  pb_Seller :: bytes
  pb_Buyer :: bytes
  pb_Quantity :: int
  pb_Price :: int
  pb_Total :: int
  pb_Currency :: bytes
  pb_Tax :: bytes
  pb_Digest :: bytes
  pb_MediaType :: bytes

definition purchaseBody_fields :: "purchaseBody field list" where
  "purchaseBody_fields =
     [str ''sellerMsp'' pb_Seller pb_Seller_update,
      str ''buyerMsp'' pb_Buyer pb_Buyer_update,
      int64 ''quantityGrams'' pb_Quantity pb_Quantity_update,
      int64 ''priceKurusPerKg'' pb_Price pb_Price_update,
      int64 ''totalKurus'' pb_Total pb_Total_update,
      str ''currency'' pb_Currency pb_Currency_update,
      str ''taxBasis'' pb_Tax pb_Tax_update,
      str ''attachmentDigest'' pb_Digest pb_Digest_update,
      str ''attachmentMediaType'' pb_MediaType pb_MediaType_update]"

definition purchaseBody_zero :: purchaseBody where
  "purchaseBody_zero = \<lparr> pb_Seller = [], pb_Buyer = [], pb_Quantity = 0, pb_Price = 0, pb_Total = 0,
     pb_Currency = [], pb_Tax = [], pb_Digest = [], pb_MediaType = [] \<rparr>"

definition purchaseBody_ok :: "purchaseBody \<Rightarrow> bool" where
  "purchaseBody_ok r \<longleftrightarrow> list_all text_ok
     [pb_Seller r, pb_Buyer r, pb_Currency r, pb_Tax r, pb_Digest r, pb_MediaType r]
   \<and> int_ok 64 (pb_Quantity r)
   \<and> int_ok 64 (pb_Price r)
   \<and> int_ok 64 (pb_Total r)"

interpretation purchase_body: struct purchaseBody_fields purchaseBody_ok
  by unfold_locales
    (auto simp: purchaseBody_fields_def purchaseBody_ok_def keeps_field intro!: field_rules)

lemma purchaseBody_codec_ok: "codec_ok (struct_codec purchaseBody_fields) purchaseBody_ok"
  by (rule purchase_body.struct_codec_ok) (auto simp: purchaseBody_fields_def)

lemmas field_okI_purchaseBody [field_rules] = field_okI [OF purchaseBody_codec_ok]

record freightBody =
  fb_Carrier :: bytes
  fb_Payer :: bytes
  fb_Quantity :: int
  fb_Total :: int
  fb_Currency :: bytes
  fb_Tax :: bytes
  fb_Digest :: bytes
  fb_MediaType :: bytes

definition freightBody_fields :: "freightBody field list" where
  "freightBody_fields =
     [str ''carrierMsp'' fb_Carrier fb_Carrier_update,
      str ''payerMsp'' fb_Payer fb_Payer_update,
      int64 ''quantityGrams'' fb_Quantity fb_Quantity_update,
      int64 ''totalKurus'' fb_Total fb_Total_update,
      str ''currency'' fb_Currency fb_Currency_update,
      str ''taxBasis'' fb_Tax fb_Tax_update,
      str ''attachmentDigest'' fb_Digest fb_Digest_update,
      str ''attachmentMediaType'' fb_MediaType fb_MediaType_update]"

definition freightBody_zero :: freightBody where
  "freightBody_zero = \<lparr> fb_Carrier = [], fb_Payer = [], fb_Quantity = 0, fb_Total = 0, fb_Currency = [],
     fb_Tax = [], fb_Digest = [], fb_MediaType = [] \<rparr>"

definition freightBody_ok :: "freightBody \<Rightarrow> bool" where
  "freightBody_ok r \<longleftrightarrow> list_all text_ok
     [fb_Carrier r, fb_Payer r, fb_Currency r, fb_Tax r, fb_Digest r, fb_MediaType r]
   \<and> int_ok 64 (fb_Quantity r)
   \<and> int_ok 64 (fb_Total r)"

interpretation freight_body: struct freightBody_fields freightBody_ok
  by unfold_locales
    (auto simp: freightBody_fields_def freightBody_ok_def keeps_field intro!: field_rules)

lemma freightBody_codec_ok: "codec_ok (struct_codec freightBody_fields) freightBody_ok"
  by (rule freight_body.struct_codec_ok) (auto simp: freightBody_fields_def)

lemmas field_okI_freightBody [field_rules] = field_okI [OF freightBody_codec_ok]

text \<open>The three bodies that \<open>prepare\<close> declares in place.\<close>

record eligibilityBody =
  eb_Producer :: bytes
  eb_Product :: bytes
  eb_Grade :: bytes
  eb_Quantity :: int
  eb_Region :: bytes
  eb_Harvest :: bytes
  eb_Eligible :: bool

definition eligibilityBody_fields :: "eligibilityBody field list" where
  "eligibilityBody_fields =
     [str ''producerMsp'' eb_Producer eb_Producer_update,
      str ''productCode'' eb_Product eb_Product_update,
      str ''gradeCode'' eb_Grade eb_Grade_update,
      int64 ''quantityGrams'' eb_Quantity eb_Quantity_update,
      str ''originRegionCode'' eb_Region eb_Region_update,
      str ''harvestDate'' eb_Harvest eb_Harvest_update,
      field ''eligible'' False bool_codec eb_Eligible eb_Eligible_update]"

definition eligibilityBody_zero :: eligibilityBody where
  "eligibilityBody_zero = \<lparr> eb_Producer = [], eb_Product = [], eb_Grade = [], eb_Quantity = 0, eb_Region = [],
     eb_Harvest = [], eb_Eligible = False \<rparr>"

definition eligibilityBody_ok :: "eligibilityBody \<Rightarrow> bool" where
  "eligibilityBody_ok r \<longleftrightarrow> list_all text_ok
     [eb_Producer r, eb_Product r, eb_Grade r, eb_Region r, eb_Harvest r]
   \<and> int_ok 64 (eb_Quantity r)"

interpretation eligibility_body: struct eligibilityBody_fields eligibilityBody_ok
  by unfold_locales
    (auto simp: eligibilityBody_fields_def eligibilityBody_ok_def keeps_field intro!: field_rules)

lemma eligibilityBody_codec_ok: "codec_ok (struct_codec eligibilityBody_fields) eligibilityBody_ok"
  by (rule eligibility_body.struct_codec_ok) (auto simp: eligibilityBody_fields_def)

lemmas field_okI_eligibilityBody [field_rules] = field_okI [OF eligibilityBody_codec_ok]

record notificationBody =
  nb_Producer :: bytes
  nb_Retailer :: bytes
  nb_Product :: bytes
  nb_Quantity :: int
  nb_Notified :: bool

definition notificationBody_fields :: "notificationBody field list" where
  "notificationBody_fields =
     [str ''producerMsp'' nb_Producer nb_Producer_update,
      str ''retailerMsp'' nb_Retailer nb_Retailer_update,
      str ''productCode'' nb_Product nb_Product_update,
      int64 ''quantityGrams'' nb_Quantity nb_Quantity_update,
      field ''notified'' False bool_codec nb_Notified nb_Notified_update]"

definition notificationBody_zero :: notificationBody where
  "notificationBody_zero = \<lparr> nb_Producer = [], nb_Retailer = [], nb_Product = [], nb_Quantity = 0,
     nb_Notified = False \<rparr>"

definition notificationBody_ok :: "notificationBody \<Rightarrow> bool" where
  "notificationBody_ok r \<longleftrightarrow> list_all text_ok
     [nb_Producer r, nb_Retailer r, nb_Product r]
   \<and> int_ok 64 (nb_Quantity r)"

interpretation notification_body: struct notificationBody_fields notificationBody_ok
  by unfold_locales
    (auto simp: notificationBody_fields_def notificationBody_ok_def keeps_field intro!: field_rules)

lemma notificationBody_codec_ok: "codec_ok (struct_codec notificationBody_fields) notificationBody_ok"
  by (rule notification_body.struct_codec_ok) (auto simp: notificationBody_fields_def)

lemmas field_okI_notificationBody [field_rules] = field_okI [OF notificationBody_codec_ok]

record manifestBody =
  mb_Carrier :: bytes
  mb_Consignor :: bytes
  mb_Consignee :: bytes
  mb_Product :: bytes
  mb_Quantity :: int
  mb_Departure :: bytes

definition manifestBody_fields :: "manifestBody field list" where
  "manifestBody_fields =
     [str ''carrierMsp'' mb_Carrier mb_Carrier_update,
      str ''consignorMsp'' mb_Consignor mb_Consignor_update,
      str ''consigneeMsp'' mb_Consignee mb_Consignee_update,
      str ''productCode'' mb_Product mb_Product_update,
      int64 ''quantityGrams'' mb_Quantity mb_Quantity_update,
      str ''declaredDepartureAt'' mb_Departure mb_Departure_update]"

definition manifestBody_zero :: manifestBody where
  "manifestBody_zero = \<lparr> mb_Carrier = [], mb_Consignor = [], mb_Consignee = [], mb_Product = [],
     mb_Quantity = 0, mb_Departure = [] \<rparr>"

definition manifestBody_ok :: "manifestBody \<Rightarrow> bool" where
  "manifestBody_ok r \<longleftrightarrow> list_all text_ok
     [mb_Carrier r, mb_Consignor r, mb_Consignee r, mb_Product r, mb_Departure r]
   \<and> int_ok 64 (mb_Quantity r)"

interpretation manifest_body: struct manifestBody_fields manifestBody_ok
  by unfold_locales
    (auto simp: manifestBody_fields_def manifestBody_ok_def keeps_field intro!: field_rules)

lemma manifestBody_codec_ok: "codec_ok (struct_codec manifestBody_fields) manifestBody_ok"
  by (rule manifest_body.struct_codec_ok) (auto simp: manifestBody_fields_def)

lemmas field_okI_manifestBody [field_rules] = field_okI [OF manifestBody_codec_ok]

text \<open>Private records.\<close>

record costRecord =
  cr_SchemaVersion :: bytes
  cr_CostID :: bytes
  cr_BatchID :: bytes
  cr_Kind :: bytes
  cr_Payer :: bytes
  cr_Payee :: bytes
  cr_Quantity :: int
  cr_Total :: int
  cr_Currency :: bytes
  cr_Tax :: bytes
  cr_SourceDocumentID :: bytes
  cr_Salt :: bytes
  cr_OperationID :: bytes
  cr_TxID :: bytes

definition costRecord_fields :: "costRecord field list" where
  "costRecord_fields =
     [str ''schemaVersion'' cr_SchemaVersion cr_SchemaVersion_update,
      str ''costId'' cr_CostID cr_CostID_update,
      str ''batchId'' cr_BatchID cr_BatchID_update,
      str ''kind'' cr_Kind cr_Kind_update,
      str ''payerMsp'' cr_Payer cr_Payer_update,
      str ''payeeMsp'' cr_Payee cr_Payee_update,
      int64 ''quantityGrams'' cr_Quantity cr_Quantity_update,
      int64 ''totalKurus'' cr_Total cr_Total_update,
      str ''currency'' cr_Currency cr_Currency_update,
      str ''taxBasis'' cr_Tax cr_Tax_update,
      str ''sourceDocumentId'' cr_SourceDocumentID cr_SourceDocumentID_update,
      str ''recordSaltHex'' cr_Salt cr_Salt_update,
      str ''operationId'' cr_OperationID cr_OperationID_update,
      str ''txId'' cr_TxID cr_TxID_update]"

definition costRecord_zero :: costRecord where
  "costRecord_zero = \<lparr> cr_SchemaVersion = [], cr_CostID = [], cr_BatchID = [], cr_Kind = [], cr_Payer = [],
     cr_Payee = [], cr_Quantity = 0, cr_Total = 0, cr_Currency = [], cr_Tax = [],
     cr_SourceDocumentID = [], cr_Salt = [], cr_OperationID = [], cr_TxID = [] \<rparr>"

definition costRecord_ok :: "costRecord \<Rightarrow> bool" where
  "costRecord_ok r \<longleftrightarrow> list_all text_ok
     [cr_SchemaVersion r, cr_CostID r, cr_BatchID r, cr_Kind r, cr_Payer r,
      cr_Payee r, cr_Currency r, cr_Tax r, cr_SourceDocumentID r, cr_Salt r,
      cr_OperationID r, cr_TxID r]
   \<and> int_ok 64 (cr_Quantity r)
   \<and> int_ok 64 (cr_Total r)"

interpretation cost_record: struct costRecord_fields costRecord_ok
  by unfold_locales
    (auto simp: costRecord_fields_def costRecord_ok_def keeps_field intro!: field_rules)

lemma costRecord_codec_ok: "codec_ok (struct_codec costRecord_fields) costRecord_ok"
  by (rule cost_record.struct_codec_ok) (auto simp: costRecord_fields_def)

lemmas field_okI_costRecord [field_rules] = field_okI [OF costRecord_codec_ok]

record retailInput =
  rt_Price :: int
  rt_Currency :: bytes
  rt_Tax :: bytes
  rt_ReportedAt :: bytes
  rt_Salt :: bytes

definition retailInput_fields :: "retailInput field list" where
  "retailInput_fields =
     [int64 ''offeredPriceKurusPerKg'' rt_Price rt_Price_update,
      str ''currency'' rt_Currency rt_Currency_update,
      str ''taxBasis'' rt_Tax rt_Tax_update,
      str ''reportedAt'' rt_ReportedAt rt_ReportedAt_update,
      str ''recordSaltHex'' rt_Salt rt_Salt_update]"

definition retailInput_zero :: retailInput where
  "retailInput_zero = \<lparr> rt_Price = 0, rt_Currency = [], rt_Tax = [], rt_ReportedAt = [], rt_Salt = [] \<rparr>"

definition retailInput_ok :: "retailInput \<Rightarrow> bool" where
  "retailInput_ok r \<longleftrightarrow> list_all text_ok
     [rt_Currency r, rt_Tax r, rt_ReportedAt r, rt_Salt r]
   \<and> int_ok 64 (rt_Price r)"

interpretation retail_input: struct retailInput_fields retailInput_ok
  by unfold_locales
    (auto simp: retailInput_fields_def retailInput_ok_def keeps_field intro!: field_rules)

lemma retailInput_codec_ok: "codec_ok (struct_codec retailInput_fields) retailInput_ok"
  by (rule retail_input.struct_codec_ok) (auto simp: retailInput_fields_def)

lemmas field_okI_retailInput [field_rules] = field_okI [OF retailInput_codec_ok]

record retailRecord =
  rr_SchemaVersion :: bytes
  rr_ReportID :: bytes
  rr_BatchID :: bytes
  rr_LotID :: bytes
  rr_Quantity :: int
  rr_Retailer :: bytes
  rr_input :: retailInput
  rr_PurchaseID :: bytes
  rr_CostID :: bytes
  rr_PolicyID :: bytes
  rr_OperationID :: bytes
  rr_TxID :: bytes

definition retailRecord_fields :: "retailRecord field list" where
  "retailRecord_fields =
     [str ''schemaVersion'' rr_SchemaVersion rr_SchemaVersion_update,
      str ''reportId'' rr_ReportID rr_ReportID_update,
      str ''batchId'' rr_BatchID rr_BatchID_update,
      str ''retailLotId'' rr_LotID rr_LotID_update,
      int64 ''quantityGrams'' rr_Quantity rr_Quantity_update,
      str ''retailerMsp'' rr_Retailer rr_Retailer_update] @
     map (embed rr_input rr_input_update) retailInput_fields @
     [str ''purchaseDocumentId'' rr_PurchaseID rr_PurchaseID_update,
      str ''freightCostId'' rr_CostID rr_CostID_update,
      str ''policyId'' rr_PolicyID rr_PolicyID_update,
      str ''operationId'' rr_OperationID rr_OperationID_update,
      str ''txId'' rr_TxID rr_TxID_update]"

definition retailRecord_zero :: retailRecord where
  "retailRecord_zero = \<lparr> rr_SchemaVersion = [], rr_ReportID = [], rr_BatchID = [], rr_LotID = [],
     rr_Quantity = 0, rr_Retailer = [], rr_input = retailInput_zero, rr_PurchaseID = [],
     rr_CostID = [], rr_PolicyID = [], rr_OperationID = [], rr_TxID = [] \<rparr>"

definition retailRecord_ok :: "retailRecord \<Rightarrow> bool" where
  "retailRecord_ok r \<longleftrightarrow> list_all text_ok
     [rr_SchemaVersion r, rr_ReportID r, rr_BatchID r, rr_LotID r, rr_Retailer r,
      rr_PurchaseID r, rr_CostID r, rr_PolicyID r, rr_OperationID r, rr_TxID r]
   \<and> int_ok 64 (rr_Quantity r)
   \<and> retailInput_ok (rr_input r)"

interpretation retail_record: struct retailRecord_fields retailRecord_ok
  by unfold_locales
    (auto simp: retailRecord_fields_def retailRecord_ok_def retailInput_fields_def retailInput_ok_def keeps_field keeps_embed intro!: field_rules)

lemma retailRecord_codec_ok: "codec_ok (struct_codec retailRecord_fields) retailRecord_ok"
  by (rule retail_record.struct_codec_ok) (auto simp: retailRecord_fields_def retailInput_fields_def)

lemmas field_okI_retailRecord [field_rules] = field_okI [OF retailRecord_codec_ok]

subsection \<open>Private loads, transient data, read access\<close>

text \<open>The transient map of a proposal, one entry per name; a missing entry reads as nil.\<close>

type_synonym transient = "(bytes \<times> bytes) list"

definition entry_of :: "transient \<Rightarrow> bytes \<Rightarrow> bytes" where
  "entry_of t name = (case map_of t name of None \<Rightarrow> [] | Some v \<Rightarrow> v)"

text \<open>\<open>verified.private\<close>: one more private write.\<close>

definition add_private :: "verified \<Rightarrow> bytes \<Rightarrow> bytes \<Rightarrow> jv option \<Rightarrow> verified res" where
  "add_private v collection k value = rbind (canonical value) (\<lambda>raw.
     Inr (v \<lparr> v_Private := v_Private v @
       [\<lparr> pw_Collection = collection, pw_Key = k, pw_Value = raw \<rparr>] \<rparr>))"

text \<open>\<open>json.Marshal\<close> of an \<open>opening\<close> or a \<open>bundle\<close> fails when its raw body is not JSON.\<close>

definition marshal_opening :: "opening_t \<Rightarrow> jv option" where
  "marshal_opening o' =
     (case raw_value (op_Body o') of None \<Rightarrow> None | Some _ \<Rightarrow> Some (marshal opening_fields o'))"

definition marshal_bundle :: "bundle_t \<Rightarrow> jv option" where
  "marshal_bundle b =
     (case raw_value (bu_Body b) of None \<Rightarrow> None | Some _ \<Rightarrow> Some (marshal bundle_fields b))"

definition media :: "bytes \<Rightarrow> bytes \<Rightarrow> bool" where
  "media digest kind \<longleftrightarrow> match_hexID digest
     \<and> (kind = ''application/xml'' \<or> kind = ''application/json'' \<or> kind = ''application/pdf'')"

definition privateLoad ::
  "'s privateOps \<Rightarrow> 's \<Rightarrow> bytes \<Rightarrow> bytes \<Rightarrow> 'v codec \<Rightarrow> 'v \<Rightarrow> 'v res" where
  "privateLoad P s collection k c dst =
     (case p_read P s collection k of
       None \<Rightarrow> Inl (fail ''PRIVATE_DATA_UNAVAILABLE'')
     | Some b \<Rightarrow>
         if len b = 0 then Inl (fail ''PRIVATE_DATA_UNAVAILABLE'')
         else of_option (fail ''INTERNAL_ERROR'')
                (Option.bind (json_parse b) (\<lambda>v. dec c v dst)))"

definition mayRead :: "bytes \<Rightarrow> bytes \<Rightarrow> bytes \<Rightarrow> bool" where
  "mayRead actor role collection =
     (if actor = Regulator then role = ''reviewer'' \<or> role = ''auditor'' \<or> role = ''oracle''
      else if actor = Retailer then role = ''retailer''
      else (collection = trade \<and> actor = Producer \<and> role = ''producer'')
         \<or> (collection = freight \<and> actor = Logistics \<and> role = ''carrier''))"

end
