(* ===== verification/Analysis.thy ===== *)
theory Analysis
  imports PrivateData "HOL-Library.Signed_Division"
begin

text \<open>
  \<open>analysis.go\<close>: the price score and its classification, the evaluation of a report, the
  review state machine, and the queries on both.
\<close>

subsection \<open>Records\<close>

record score =
  sc_Increase :: int
  sc_Classification :: bytes
  sc_Reason :: bytes

definition score_fields :: "score field list" where
  "score_fields =
     [int64 ''increaseBps'' sc_Increase sc_Increase_update,
      str ''classification'' sc_Classification sc_Classification_update,
      str ''reasonCode'' sc_Reason sc_Reason_update]"

definition score_zero :: score where
  "score_zero = \<lparr> sc_Increase = 0, sc_Classification = [], sc_Reason = [] \<rparr>"

definition score_ok :: "score \<Rightarrow> bool" where
  "score_ok r \<longleftrightarrow> list_all text_ok
     [sc_Classification r, sc_Reason r]
   \<and> int_ok 64 (sc_Increase r)"

interpretation score: struct score_fields score_ok
  by unfold_locales
    (auto simp: score_fields_def score_ok_def keeps_field intro!: field_rules)

lemma score_codec_ok: "codec_ok (struct_codec score_fields) score_ok"
  by (rule score.struct_codec_ok) (auto simp: score_fields_def)

lemmas field_okI_score [field_rules] = field_okI [OF score_codec_ok]

record anomalyRecord =
  ar_SchemaVersion :: bytes
  ar_AnomalyID :: bytes
  ar_BatchID :: bytes
  ar_ReportID :: bytes
  ar_PolicyID :: bytes
  ar_Rule :: bytes
  ar_Purchase :: int
  ar_Retail :: int
  ar_Freight :: int
  ar_Quantity :: int
  ar_score :: score
  ar_Threshold :: int
  ar_ReviewState :: bytes
  ar_Salt :: bytes
  ar_OperationID :: bytes
  ar_TxID :: bytes

definition anomalyRecord_fields :: "anomalyRecord field list" where
  "anomalyRecord_fields =
     [str ''schemaVersion'' ar_SchemaVersion ar_SchemaVersion_update,
      str ''anomalyId'' ar_AnomalyID ar_AnomalyID_update,
      str ''batchId'' ar_BatchID ar_BatchID_update,
      str ''reportId'' ar_ReportID ar_ReportID_update,
      str ''policyId'' ar_PolicyID ar_PolicyID_update,
      str ''ruleVersion'' ar_Rule ar_Rule_update,
      int64 ''purchasePriceKurusPerKg'' ar_Purchase ar_Purchase_update,
      int64 ''retailPriceKurusPerKg'' ar_Retail ar_Retail_update,
      int64 ''freightTotalKurus'' ar_Freight ar_Freight_update,
      int64 ''quantityGrams'' ar_Quantity ar_Quantity_update] @
     map (embed ar_score ar_score_update) score_fields @
     [int64 ''thresholdBps'' ar_Threshold ar_Threshold_update,
      str ''reviewState'' ar_ReviewState ar_ReviewState_update,
      str ''recordSaltHex'' ar_Salt ar_Salt_update,
      str ''operationId'' ar_OperationID ar_OperationID_update,
      str ''txId'' ar_TxID ar_TxID_update]"

definition anomalyRecord_zero :: anomalyRecord where
  "anomalyRecord_zero = \<lparr> ar_SchemaVersion = [], ar_AnomalyID = [], ar_BatchID = [], ar_ReportID = [],
     ar_PolicyID = [], ar_Rule = [], ar_Purchase = 0, ar_Retail = 0, ar_Freight = 0,
     ar_Quantity = 0, ar_score = score_zero, ar_Threshold = 0, ar_ReviewState = [],
     ar_Salt = [], ar_OperationID = [], ar_TxID = [] \<rparr>"

definition anomalyRecord_ok :: "anomalyRecord \<Rightarrow> bool" where
  "anomalyRecord_ok r \<longleftrightarrow> list_all text_ok
     [ar_SchemaVersion r, ar_AnomalyID r, ar_BatchID r, ar_ReportID r, ar_PolicyID r,
      ar_Rule r, ar_ReviewState r, ar_Salt r, ar_OperationID r, ar_TxID r]
   \<and> int_ok 64 (ar_Purchase r)
   \<and> int_ok 64 (ar_Retail r)
   \<and> int_ok 64 (ar_Freight r)
   \<and> int_ok 64 (ar_Quantity r)
   \<and> score_ok (ar_score r)
   \<and> int_ok 64 (ar_Threshold r)"

interpretation anomaly_record: struct anomalyRecord_fields anomalyRecord_ok
  by unfold_locales
    (auto simp: anomalyRecord_fields_def anomalyRecord_ok_def score_fields_def score_ok_def keeps_field keeps_embed intro!: field_rules)

lemma anomalyRecord_codec_ok: "codec_ok (struct_codec anomalyRecord_fields) anomalyRecord_ok"
  by (rule anomaly_record.struct_codec_ok) (auto simp: anomalyRecord_fields_def score_fields_def)

lemmas field_okI_anomalyRecord [field_rules] = field_okI [OF anomalyRecord_codec_ok]

record evaluationReference =
  er_SchemaVersion :: bytes
  er_BatchID :: bytes
  er_ReportID :: bytes
  er_AnomalyID :: bytes
  er_TxID :: bytes

definition evaluationReference_fields :: "evaluationReference field list" where
  "evaluationReference_fields =
     [str ''schemaVersion'' er_SchemaVersion er_SchemaVersion_update,
      str ''batchId'' er_BatchID er_BatchID_update,
      str ''reportId'' er_ReportID er_ReportID_update,
      str ''anomalyId'' er_AnomalyID er_AnomalyID_update,
      str ''txId'' er_TxID er_TxID_update]"

definition evaluationReference_zero :: evaluationReference where
  "evaluationReference_zero = \<lparr> er_SchemaVersion = [], er_BatchID = [], er_ReportID = [], er_AnomalyID = [],
     er_TxID = [] \<rparr>"

definition evaluationReference_ok :: "evaluationReference \<Rightarrow> bool" where
  "evaluationReference_ok r \<longleftrightarrow> list_all text_ok
     [er_SchemaVersion r, er_BatchID r, er_ReportID r, er_AnomalyID r, er_TxID r]"

interpretation evaluation_reference: struct evaluationReference_fields evaluationReference_ok
  by unfold_locales
    (auto simp: evaluationReference_fields_def evaluationReference_ok_def keeps_field intro!: field_rules)

lemma evaluationReference_codec_ok: "codec_ok (struct_codec evaluationReference_fields) evaluationReference_ok"
  by (rule evaluation_reference.struct_codec_ok) (auto simp: evaluationReference_fields_def)

lemmas field_okI_evaluationReference [field_rules] = field_okI [OF evaluationReference_codec_ok]

record reviewInput =
  rv_Reviewer :: bytes
  rv_Outcome :: bytes
  rv_Explanation :: bytes
  rv_Salt :: bytes

definition reviewInput_fields :: "reviewInput field list" where
  "reviewInput_fields =
     [str ''reviewerRef'' rv_Reviewer rv_Reviewer_update,
      str_omitempty ''outcome'' rv_Outcome rv_Outcome_update,
      str_omitempty ''explanation'' rv_Explanation rv_Explanation_update,
      str ''recordSaltHex'' rv_Salt rv_Salt_update]"

definition reviewInput_zero :: reviewInput where
  "reviewInput_zero = \<lparr> rv_Reviewer = [], rv_Outcome = [], rv_Explanation = [], rv_Salt = [] \<rparr>"

definition reviewInput_ok :: "reviewInput \<Rightarrow> bool" where
  "reviewInput_ok r \<longleftrightarrow> list_all text_ok
     [rv_Reviewer r, rv_Outcome r, rv_Explanation r, rv_Salt r]"

interpretation review_input: struct reviewInput_fields reviewInput_ok
  by unfold_locales
    (auto simp: reviewInput_fields_def reviewInput_ok_def keeps_field intro!: field_rules)

record reviewAction =
  rw_SchemaVersion :: bytes
  rw_OperationID :: bytes
  rw_AnomalyID :: bytes
  rw_Action :: bytes
  rw_input :: reviewInput
  rw_TxID :: bytes

definition reviewAction_fields :: "reviewAction field list" where
  "reviewAction_fields =
     [str ''schemaVersion'' rw_SchemaVersion rw_SchemaVersion_update,
      str ''operationId'' rw_OperationID rw_OperationID_update,
      str ''anomalyId'' rw_AnomalyID rw_AnomalyID_update,
      str ''action'' rw_Action rw_Action_update] @
     map (embed rw_input rw_input_update) reviewInput_fields @
     [str ''txId'' rw_TxID rw_TxID_update]"

definition reviewAction_zero :: reviewAction where
  "reviewAction_zero = \<lparr> rw_SchemaVersion = [], rw_OperationID = [], rw_AnomalyID = [], rw_Action = [],
     rw_input = reviewInput_zero, rw_TxID = [] \<rparr>"

definition reviewAction_ok :: "reviewAction \<Rightarrow> bool" where
  "reviewAction_ok r \<longleftrightarrow> list_all text_ok
     [rw_SchemaVersion r, rw_OperationID r, rw_AnomalyID r, rw_Action r, rw_TxID r]
   \<and> reviewInput_ok (rw_input r)"

interpretation review_action: struct reviewAction_fields reviewAction_ok
  by unfold_locales
    (auto simp: reviewAction_fields_def reviewAction_ok_def reviewInput_fields_def reviewInput_ok_def keeps_field keeps_embed intro!: field_rules)

subsection \<open>The score\<close>

definition priceScore :: "int \<Rightarrow> int \<Rightarrow> int \<Rightarrow> score res" where
  "priceScore purchase retail threshold =
     (if purchase \<le> 0 \<or> purchase > 1000000000 \<or> retail < 0 \<or> retail > 1000000000
      then Inl (fail ''INVALID_MONEY'')
      else if threshold < 0 \<or> threshold > 100000 then Inl (fail ''POLICY_MISMATCH'')
      else let numerator = wrap64 (wrap64 (retail - purchase) * 10000);
               quotient = numerator sdiv purchase;
               increase = (if numerator < 0 \<and> numerator smod purchase \<noteq> 0
                           then wrap64 (quotient - 1) else quotient);
               s = \<lparr> sc_Increase = increase, sc_Classification = ''NO_SIGNAL'',
                     sc_Reason = ''WITHIN_PILOT_THRESHOLD'' \<rparr>
           in Inr (if numerator > wrap64 (purchase * threshold)
                   then s \<lparr> sc_Classification := ''REVIEW_REQUIRED'',
                            sc_Reason := ''ABOVE_PILOT_THRESHOLD'' \<rparr>
                   else s))"

definition readSalt :: "transient \<Rightarrow> bytes \<Rightarrow> bytes res" where
  "readSalt t name = rbind (strictJSON (entry_of t name)) (\<lambda>raw.
     case raw of
       JStr s \<Rightarrow> if \<not> match_hexID s then Inl (fail ''INVALID_SCHEMA'') else Inr s
     | _ \<Rightarrow> Inl (fail ''INVALID_SCHEMA''))"

subsection \<open>Evaluation\<close>

definition evaluation_binding ::
  "Batch \<Rightarrow> EvidenceRefs \<Rightarrow> purchaseBody \<Rightarrow> retailRecord \<Rightarrow> costRecord \<Rightarrow> bool" where
  "evaluation_binding b refs purchase report cost \<longleftrightarrow>
     \<not> (rr_BatchID report \<noteq> b_BatchID b \<or> cr_BatchID cost \<noteq> b_BatchID b
        \<or> pb_Quantity purchase \<noteq> b_QuantityGrams b \<or> rr_Quantity report \<noteq> b_QuantityGrams b
        \<or> cr_Quantity cost \<noteq> b_QuantityGrams b
        \<or> rr_PurchaseID report \<noteq> e_PurchaseDocumentID refs
        \<or> rr_CostID report \<noteq> e_FreightCostID refs)"

definition evaluation_money :: "purchaseBody \<Rightarrow> retailRecord \<Rightarrow> costRecord \<Rightarrow> bool" where
  "evaluation_money purchase report cost \<longleftrightarrow>
     \<not> (pb_Currency purchase \<noteq> ''TRY'' \<or> rt_Currency (rr_input report) \<noteq> ''TRY''
        \<or> cr_Currency cost \<noteq> ''TRY'' \<or> pb_Tax purchase \<noteq> ''EXCLUDING_TAX''
        \<or> rt_Tax (rr_input report) \<noteq> ''EXCLUDING_TAX'' \<or> cr_Tax cost \<noteq> ''EXCLUDING_TAX''
        \<or> cr_Total cost < 0 \<or> cr_Total cost > 1000000000000)"

text \<open>The three private records an evaluation compares.\<close>

definition load_prices ::
  "'s ledger \<Rightarrow> 's privateOps \<Rightarrow> 's \<Rightarrow> EvidenceRefs
     \<Rightarrow> (purchaseBody \<times> retailRecord \<times> costRecord) res" where
  "load_prices L P s refs =
     rbind (key L ''documentOpening'' [e_PurchaseDocumentID refs]) (\<lambda>buyKey.
     rbind (privateLoad P s trade buyKey (struct_codec opening_fields) opening_zero) (\<lambda>buy.
     rbind (exact purchaseBody_fields (op_Body buy) purchaseBody_zero) (\<lambda>purchase.
     rbind (key L ''report'' [e_RetailReportID refs]) (\<lambda>reportKey.
     rbind (privateLoad P s audit reportKey (struct_codec retailRecord_fields) retailRecord_zero) (\<lambda>report.
     rbind (key L ''cost'' [e_FreightCostID refs]) (\<lambda>costKey.
     rbind (privateLoad P s freight costKey (struct_codec costRecord_fields) costRecord_zero) (\<lambda>cost.
     Inr (purchase, report, cost))))))))"

definition analysis_evaluate ::
  "'s ledger \<Rightarrow> 's privateOps \<Rightarrow> 's \<Rightarrow> transient \<Rightarrow> execution \<Rightarrow> Command \<Rightarrow> Batch
     \<Rightarrow> EvidenceRefs \<Rightarrow> analysisInput \<Rightarrow> (anomalyRecord \<times> verified) res" where
  "analysis_evaluate L P s t x c b refs p =
     (if len t \<noteq> 2 then Inl (fail ''INVALID_SCHEMA'')
      else if e_RetailReportID refs = [] \<or> e_PurchaseDocumentID refs = [] \<or> e_FreightCostID refs = []
      then Inl (fail ''MISSING_EVIDENCE'')
      else if ai_ReportID p \<noteq> e_RetailReportID refs then Inl (fail ''SOURCE_BINDING_MISMATCH'')
      else rbind (key L ''evaluation'' [b_BatchID b]) (\<lambda>evaluationKey.
           rbind (absent L s evaluationKey ''ANOMALY_ALREADY_EXISTS'') (\<lambda>_.
           rbind (key L ''anomalyReference'' [ai_AnomalyID p]) (\<lambda>anomalyKey.
           rbind (absent L s anomalyKey ''ANOMALY_ALREADY_EXISTS'') (\<lambda>_.
           rbind (getConfig L s) (\<lambda>cfg.
           rbind (load_prices L P s refs) (\<lambda>(purchase, report, cost).
      if \<not> evaluation_binding b refs purchase report cost
      then Inl (fail ''SOURCE_BINDING_MISMATCH'')
      else if rr_PolicyID report \<noteq> cf_PolicyID cfg then Inl (fail ''POLICY_MISMATCH'')
      else if \<not> evaluation_money purchase report cost then Inl (fail ''INVALID_MONEY'')
      else rbind (priceScore (pb_Price purchase) (rt_Price (rr_input report)) (cf_ThresholdBps cfg)) (\<lambda>result.
           rbind (exact score_fields (entry_of t ''proposedResult'') score_zero) (\<lambda>proposed.
      if proposed \<noteq> result then Inl (fail ''ANOMALY_RESULT_MISMATCH'')
      else rbind (readSalt t ''recordSaltHex'') (\<lambda>salt.
           let a = \<lparr> ar_SchemaVersion = ''agrochain.anomaly-result.v1'', ar_AnomalyID = ai_AnomalyID p,
                     ar_BatchID = b_BatchID b, ar_ReportID = ai_ReportID p,
                     ar_PolicyID = cf_PolicyID cfg, ar_Rule = ''price-increase-v1'',
                     ar_Purchase = pb_Price purchase, ar_Retail = rt_Price (rr_input report),
                     ar_Freight = cr_Total cost, ar_Quantity = b_QuantityGrams b,
                     ar_score = result, ar_Threshold = cf_ThresholdBps cfg,
                     ar_ReviewState =
                       (if sc_Classification result = ''REVIEW_REQUIRED'' then ''OPEN''
                        else ''NOT_REQUIRED''),
                     ar_Salt = salt, ar_OperationID = c_OperationID c, ar_TxID = x_TxID x \<rparr>;
               ref = marshal evaluationReference_fields
                   \<lparr> er_SchemaVersion = ''agrochain.evaluation-reference.v1'',
                     er_BatchID = b_BatchID b, er_ReportID = ai_ReportID p,
                     er_AnomalyID = ai_AnomalyID p, er_TxID = x_TxID x \<rparr>
           in rbind (put [] evaluationKey (Some ref)) (\<lambda>public.
              rbind (put public anomalyKey (Some ref)) (\<lambda>public1.
              Inr (a, verified_zero \<lparr> v_Public := public1 \<rparr>)))))))))))))"

subsection \<open>Review\<close>

definition review_outcome :: "reviewInput \<Rightarrow> bool" where
  "review_outcome i \<longleftrightarrow>
     \<not> ((rv_Outcome i \<noteq> ''EXPLAINED'' \<and> rv_Outcome i \<noteq> ''FOLLOW_UP_RECOMMENDED''
           \<and> rv_Outcome i \<noteq> ''INSUFFICIENT_EVIDENCE'') \<or> \<not> validExplanation (rv_Explanation i))"

text \<open>The transition of the review state, on the anomaly record.\<close>

definition review_transition :: "bytes \<Rightarrow> reviewInput \<Rightarrow> anomalyRecord \<Rightarrow> anomalyRecord res" where
  "review_transition cmd i a =
     (if cmd = ''OpenReview''
      then (if ar_ReviewState a \<noteq> ''OPEN'' then Inl (fail ''INVALID_REVIEW_TRANSITION'')
            else Inr (a \<lparr> ar_ReviewState := ''IN_REVIEW'' \<rparr>))
      else (if ar_ReviewState a \<noteq> ''IN_REVIEW'' then Inl (fail ''INVALID_REVIEW_TRANSITION'')
            else if \<not> review_outcome i then Inl (fail ''INVALID_SCHEMA'')
            else Inr (a \<lparr> ar_ReviewState := ''RESOLVED'' \<rparr>)))"

definition analysis_review ::
  "'s ledger \<Rightarrow> 's privateOps \<Rightarrow> 's \<Rightarrow> transient \<Rightarrow> execution \<Rightarrow> Command \<Rightarrow> Batch
     \<Rightarrow> analysisInput \<Rightarrow> (anomalyRecord \<times> verified) res" where
  "analysis_review L P s t x c b p =
     (if len t \<noteq> 2 then Inl (fail ''INVALID_SCHEMA'')
      else rbind (key L ''evaluation'' [b_BatchID b]) (\<lambda>evaluationKey.
           rbind (load L s evaluationKey (struct_codec evaluationReference_fields)
                    evaluationReference_zero) (\<lambda>(found, ref).
      if \<not> found \<or> er_AnomalyID ref \<noteq> ai_AnomalyID p
      then Inl (fail ''INVALID_REVIEW_TRANSITION'')
      else rbind (key L ''anomaly'' [ai_AnomalyID p]) (\<lambda>anomalyKey.
           rbind (privateLoad P s audit anomalyKey (struct_codec anomalyRecord_fields)
                    anomalyRecord_zero) (\<lambda>a.
      if sc_Classification (ar_score a) \<noteq> ''REVIEW_REQUIRED''
      then Inl (fail ''INVALID_REVIEW_TRANSITION'')
      else let resolve = (c_Command c = ''ResolveReview'');
               names = [''reviewerRef'', ''recordSaltHex''] @
                       (if resolve then [''outcome'', ''explanation''] else []);
               action = (if resolve then ''RESOLVE_REVIEW'' else ''OPEN_REVIEW'')
           in rbind (decode reviewInput_fields (entry_of t ''reviewActionInput'') reviewInput_zero names) (\<lambda>i.
      if \<not> validID (rv_Reviewer i) ''REV'' \<or> \<not> match_hexID (rv_Salt i)
      then Inl (fail ''INVALID_SCHEMA'')
      else rbind (readSalt t ''reviewStateSaltHex'') (\<lambda>salt.
      if salt = rv_Salt i \<or> salt = ar_Salt a then Inl (fail ''INVALID_SCHEMA'')
      else rbind (review_transition (c_Command c) i a) (\<lambda>a1.
           rbind (key L ''reviewAction'' [ai_AnomalyID p, c_OperationID c]) (\<lambda>actionKey.
           rbind (add_private verified_zero audit actionKey (Some (marshal reviewAction_fields
              \<lparr> rw_SchemaVersion = ''agrochain.review-action.v1'', rw_OperationID = c_OperationID c,
                rw_AnomalyID = ai_AnomalyID p, rw_Action = action, rw_input = i,
                rw_TxID = x_TxID x \<rparr>))) (\<lambda>v.
           rbind (key L ''reviewActionReference'' [ai_AnomalyID p, c_OperationID c]) (\<lambda>refKey.
           rbind (put (v_Public v) refKey (Some (JStr (c_OperationID c)))) (\<lambda>public.
           Inr (a1 \<lparr> ar_Salt := salt \<rparr>, v \<lparr> v_Public := public \<rparr>)))))))))))))"

definition analysis ::
  "'s ledger \<Rightarrow> 's privateOps \<Rightarrow> 's \<Rightarrow> transient \<Rightarrow> execution \<Rightarrow> evidenceProvider" where
  "analysis L P s t x c b refs =
     (if b_State b \<noteq> RetailReported then Inl (fail ''INVALID_STATE_TRANSITION'')
      else let p = payload_of analysisInput_fields analysisInput_zero c in
        rbind (if c_Command c = ''EvaluatePrice'' then analysis_evaluate L P s t x c b refs p
               else analysis_review L P s t x c b p) (\<lambda>(a, v).
        rbind (key L ''anomaly'' [ai_AnomalyID p]) (\<lambda>anomalyKey.
        add_private v audit anomalyKey (Some (marshal anomalyRecord_fields a)))))"

subsection \<open>Queries\<close>

definition load_action ::
  "'s ledger \<Rightarrow> 's privateOps \<Rightarrow> 's \<Rightarrow> bytes \<Rightarrow> entry \<Rightarrow> reviewAction list \<Rightarrow> reviewAction list res" where
  "load_action L P s anomaly en actions =
     (case Option.bind (json_parse (en_Value en)) (\<lambda>v. dec string_codec v []) of
       None \<Rightarrow> Inl (fail ''INTERNAL_ERROR'')
     | Some op \<Rightarrow>
         rbind (key L ''reviewAction'' [anomaly, op]) (\<lambda>k.
         rbind (privateLoad P s audit k (struct_codec reviewAction_fields) reviewAction_zero) (\<lambda>a.
         Inr (actions @ [a]))))"

text \<open>The result of a query is the value that \<open>canonical\<close> will print.\<close>

definition analysisQuery ::
  "'s ledger \<Rightarrow> 's privateOps \<Rightarrow> 's \<Rightarrow> bytes \<Rightarrow> bytes \<Rightarrow> bytes \<Rightarrow> bytes \<Rightarrow> jv option res" where
  "analysisQuery L P s actor role fn arg =
     (if \<not> mayRead actor role audit then Inl (fail ''PRIVATE_DATA_ACCESS_DENIED'')
      else if \<not> validID arg ''BAT'' then Inl (fail ''INVALID_IDENTIFIER'')
      else rbind (key L ''batch'' [arg]) (\<lambda>batchKey.
           rbind (load L s batchKey (struct_codec Batch_fields) Batch_zero) (\<lambda>(found, _).
      if \<not> found then Inl (fail ''BATCH_NOT_FOUND'')
      else rbind (key L ''evaluation'' [arg]) (\<lambda>evaluationKey.
           rbind (load L s evaluationKey (struct_codec evaluationReference_fields)
                    evaluationReference_zero) (\<lambda>(found, ref).
      if \<not> found
      then Inr (Some (JObj [(''status'', JStr ''EVALUATION_PENDING''), (''batchId'', JStr arg)]))
      else if fn = ''GetAnomaly''
      then rbind (key L ''anomaly'' [er_AnomalyID ref]) (\<lambda>anomalyKey.
           rbind (privateLoad P s audit anomalyKey (struct_codec anomalyRecord_fields)
                    anomalyRecord_zero) (\<lambda>a.
           Inr (Some (marshal anomalyRecord_fields a))))
      else rbind (l_page L s ''reviewActionReference'' [er_AnomalyID ref] 10 []) (\<lambda>(entries, _).
           rbind (fold_result (load_action L P s (er_AnomalyID ref)) entries []) (\<lambda>actions.
           Inr (Some (JArr (map (marshal reviewAction_fields) actions))))))))))"

end
