(* ===== verification/Private.thy ===== *)
theory Private
  imports Analysis
begin

text \<open>
  The operations of \<open>private.go\<close>: \<open>realEvidence.prepare\<close>, which verifies the documents of a
  command and prepares its public marks and private writes, the private queries, and the check
  of an opening.
\<close>

subsection \<open>Which evidence a command needs\<close>

text \<open>The document types with their source systems, and the other transient entry.\<close>

definition required_evidence :: "bytes \<Rightarrow> (bytes \<times> bytes) list \<times> bytes" where
  "required_evidence cmd =
     (if cmd = ''CreateBatch'' then ([(''PRODUCER_ELIGIBILITY'', ''CKS'')], [])
      else if cmd = ''OfferPickup'' then
        ([(''PURCHASE_INVOICE'', ''EFATURA''), (''TRADE_NOTIFICATION'', ''HKS''),
          (''TRANSPORT_MANIFEST'', ''UETDS'')], [])
      else if cmd = ''RecordFreightCost'' then ([(''FREIGHT_INVOICE'', ''EFATURA'')], ''recordSaltHex'')
      else if cmd = ''ReportRetailPrice'' then ([], ''retailReportInput'')
      else ([], []))"

definition check_transient :: "transient \<Rightarrow> (bytes \<times> bytes) list \<Rightarrow> bytes \<Rightarrow> unit res" where
  "check_transient t required extra =
     (let expected = (if len required > 0 then 1 else 0) + (if extra \<noteq> [] then 1 else 0) :: int
      in if len t \<noteq> expected then Inl (fail ''MISSING_EVIDENCE'')
         else if \<not> list_all (\<lambda>(k, _). k = extra \<or> (k = ''evidence'' \<and> len required > 0)) t
         then Inl (fail ''INVALID_SCHEMA'')
         else Inr ())"

subsection \<open>Marking a document as used\<close>

definition use_mark :: "Command \<Rightarrow> execution \<Rightarrow> jv" where
  "use_mark c x = JObj
     [(''batchId'', JStr (c_BatchID c)), (''operationId'', JStr (c_OperationID c)),
      (''txId'', JStr (x_TxID x))]"

definition mark_used ::
  "'s ledger \<Rightarrow> 's \<Rightarrow> Command \<Rightarrow> execution \<Rightarrow> bytes \<times> bytes \<Rightarrow> writePlan \<Rightarrow> writePlan res" where
  "mark_used L s c x check public =
     (case check of (k, code) \<Rightarrow>
        if map_of public k \<noteq> None then Inl (fail code)
        else rbind (absent L s k code) (\<lambda>_. put public k (Some (use_mark c x))))"

definition mark_document ::
  "'s ledger \<Rightarrow> 's \<Rightarrow> Command \<Rightarrow> execution \<Rightarrow> bundle_t \<Rightarrow> writePlan \<Rightarrow> writePlan res" where
  "mark_document L s c x doc public =
     (let h = env_Header (bu_Envelope doc) in
      rbind (key L ''document'' [h_DocumentID h]) (\<lambda>documentKey.
      rbind (key L ''sourceUse'' [h_IssuerID h, h_SourceDocumentID h]) (\<lambda>sourceKey.
      rbind (key L ''nonceUse'' [h_IssuerID h, h_Nonce h]) (\<lambda>nonceKey.
      rbind (fold_result (mark_used L s c x)
               [(documentKey, ''DOCUMENT_ALREADY_USED''), (sourceKey, ''DOCUMENT_ALREADY_USED''),
                (nonceKey, ''SOURCE_NONCE_ALREADY_USED'')] public) (\<lambda>public1.
      put public1 documentKey (Some (marshal envelope_fields (bu_Envelope doc))))))))"

subsection \<open>What a document claims\<close>

text \<open>
  The switch on the document type: the facts the document adds to the verified evidence, and
  the collection that keeps its opening, if any.
\<close>

definition claim_eligibility ::
  "execution \<Rightarrow> Command \<Rightarrow> bundle_t \<Rightarrow> verified \<Rightarrow> (verified \<times> bytes) res" where
  "claim_eligibility x c doc v =
     rbind (exact eligibilityBody_fields (bu_Body doc) eligibilityBody_zero) (\<lambda>body.
     let p = payload_of createInput_fields createInput_zero c in
     if \<not> eb_Eligible body then Inl (fail ''SOURCE_CLAIM_REJECTED'')
     else if eb_Producer body \<noteq> x_Actor x \<or> eb_Product body \<noteq> ci_ProductCode p
        \<or> eb_Grade body \<noteq> ci_GradeCode p \<or> eb_Quantity body \<noteq> ci_QuantityGrams p
        \<or> eb_Region body \<noteq> ci_OriginRegionCode p \<or> eb_Harvest body \<noteq> ci_HarvestDate p
     then Inl (fail ''SOURCE_BINDING_MISMATCH'')
     else Inr (v \<lparr> v_CKS := h_DocumentID (env_Header (bu_Envelope doc)),
                   v_Quantity := eb_Quantity body \<rparr>, []))"

definition claim_purchase :: "Batch \<Rightarrow> bundle_t \<Rightarrow> verified \<Rightarrow> (verified \<times> bytes) res" where
  "claim_purchase b doc v =
     rbind (exact purchaseBody_fields (bu_Body doc) purchaseBody_zero) (\<lambda>p.
     if pb_Seller p \<noteq> b_ProducerMSP b \<or> pb_Buyer p \<noteq> b_IntendedRetailerMSP b
        \<or> \<not> media (pb_Digest p) (pb_MediaType p)
     then Inl (fail ''SOURCE_BINDING_MISMATCH'')
     else Inr (v \<lparr> v_Purchase := h_DocumentID (env_Header (bu_Envelope doc)),
                   v_Quantity := pb_Quantity p, v_PurchasePrice := pb_Price p,
                   v_PurchaseTotal := pb_Total p, v_Currency := pb_Currency p,
                   v_TaxBasis := pb_Tax p \<rparr>, trade))"

definition claim_notification :: "Batch \<Rightarrow> bundle_t \<Rightarrow> verified \<Rightarrow> (verified \<times> bytes) res" where
  "claim_notification b doc v =
     rbind (exact notificationBody_fields (bu_Body doc) notificationBody_zero) (\<lambda>p.
     if \<not> nb_Notified p then Inl (fail ''SOURCE_CLAIM_REJECTED'')
     else if nb_Producer p \<noteq> b_ProducerMSP b \<or> nb_Retailer p \<noteq> b_IntendedRetailerMSP b
        \<or> nb_Product p \<noteq> b_ProductCode b \<or> nb_Quantity p \<noteq> b_QuantityGrams b
     then Inl (fail ''SOURCE_BINDING_MISMATCH'')
     else Inr (v \<lparr> v_HKS := h_DocumentID (env_Header (bu_Envelope doc)) \<rparr>, []))"

definition claim_manifest :: "Batch \<Rightarrow> bundle_t \<Rightarrow> verified \<Rightarrow> (verified \<times> bytes) res" where
  "claim_manifest b doc v =
     rbind (exact manifestBody_fields (bu_Body doc) manifestBody_zero) (\<lambda>p.
     if mb_Carrier p \<noteq> b_LogisticsMSP b \<or> mb_Consignor p \<noteq> b_ProducerMSP b
        \<or> mb_Consignee p \<noteq> b_IntendedRetailerMSP b \<or> mb_Product p \<noteq> b_ProductCode b
        \<or> mb_Quantity p \<noteq> b_QuantityGrams b \<or> \<not> validDateTime (mb_Departure p)
     then Inl (fail ''SOURCE_BINDING_MISMATCH'')
     else Inr (v \<lparr> v_Manifest := h_DocumentID (env_Header (bu_Envelope doc)) \<rparr>, []))"

definition claim_freight ::
  "'s ledger \<Rightarrow> transient \<Rightarrow> execution \<Rightarrow> Command \<Rightarrow> Batch \<Rightarrow> bundle_t \<Rightarrow> verified
     \<Rightarrow> (verified \<times> bytes) res" where
  "claim_freight L t x c b doc v =
     rbind (exact freightBody_fields (bu_Body doc) freightBody_zero) (\<lambda>p.
     if fb_Carrier p \<noteq> b_LogisticsMSP b \<or> fb_Payer p \<noteq> b_IntendedRetailerMSP b
        \<or> \<not> media (fb_Digest p) (fb_MediaType p)
     then Inl (fail ''SOURCE_BINDING_MISMATCH'')
     else rbind (readSalt t ''recordSaltHex'') (\<lambda>salt.
       let i = payload_of freightInput_fields freightInput_zero c;
           v1 = v \<lparr> v_Quantity := fb_Quantity p, v_FreightTotal := fb_Total p,
                    v_Currency := fb_Currency p, v_TaxBasis := fb_Tax p \<rparr>
       in rbind (key L ''cost'' [fi_CostID i]) (\<lambda>costKey.
          rbind (add_private v1 freight costKey (Some (marshal costRecord_fields
            \<lparr> cr_SchemaVersion = ''agrochain.cost.v1'', cr_CostID = fi_CostID i,
              cr_BatchID = c_BatchID c, cr_Kind = ''FREIGHT'', cr_Payer = fb_Payer p,
              cr_Payee = fb_Carrier p, cr_Quantity = fb_Quantity p, cr_Total = fb_Total p,
              cr_Currency = fb_Currency p, cr_Tax = fb_Tax p,
              cr_SourceDocumentID = h_DocumentID (env_Header (bu_Envelope doc)), cr_Salt = salt,
              cr_OperationID = c_OperationID c, cr_TxID = x_TxID x \<rparr>))) (\<lambda>v2.
          Inr (v2, freight)))))"

definition document_claim ::
  "'s ledger \<Rightarrow> transient \<Rightarrow> execution \<Rightarrow> Command \<Rightarrow> Batch \<Rightarrow> bundle_t \<Rightarrow> verified
     \<Rightarrow> (verified \<times> bytes) res" where
  "document_claim L t x c b doc v =
     (let kind = h_DocumentType (env_Header (bu_Envelope doc)) in
      if kind = ''PRODUCER_ELIGIBILITY'' then claim_eligibility x c doc v
      else if kind = ''PURCHASE_INVOICE'' then claim_purchase b doc v
      else if kind = ''TRADE_NOTIFICATION'' then claim_notification b doc v
      else if kind = ''TRANSPORT_MANIFEST'' then claim_manifest b doc v
      else if kind = ''FREIGHT_INVOICE'' then claim_freight L t x c b doc v
      else Inr (v, []))"

subsection \<open>The loop over the documents\<close>

definition prepare_document ::
  "'s ledger \<Rightarrow> 's \<Rightarrow> transient \<Rightarrow> execution \<Rightarrow> Command \<Rightarrow> Batch \<Rightarrow> bundle_t
     \<Rightarrow> (bytes \<times> bytes) list \<times> verified \<Rightarrow> ((bytes \<times> bytes) list \<times> verified) res" where
  "prepare_document L s t x c b doc acc =
     (case acc of (required, v) \<Rightarrow>
      let h = env_Header (bu_Envelope doc); system = entry_of required (h_DocumentType h) in
      if system \<noteq> h_SourceSystem h \<or> system = [] then Inl (fail ''SOURCE_BINDING_MISMATCH'')
      else rbind (verifyBundle L s doc) (\<lambda>_.
      if h_BatchID h \<noteq> c_BatchID c \<or> h_OperationID h \<noteq> c_OperationID c
      then Inl (fail ''SOURCE_BINDING_MISMATCH'')
      else rbind (mark_document L s c x doc (v_Public v)) (\<lambda>public.
           rbind (document_claim L t x c b doc (v \<lparr> v_Public := public \<rparr>)) (\<lambda>(v1, collection).
      let required' = filter (\<lambda>(k, _). k \<noteq> h_DocumentType h) required in
      if collection \<noteq> []
      then rbind (key L ''documentOpening'' [h_DocumentID h]) (\<lambda>k.
           rbind (add_private v1 collection k
                    (marshal_opening \<lparr> op_Body = bu_Body doc, op_Salt = bu_Salt doc \<rparr>)) (\<lambda>v2.
           Inr (required', v2)))
      else Inr (required', v1)))))"

text \<open>The part that only \<open>ReportRetailPrice\<close> has.\<close>

definition prepare_report ::
  "'s ledger \<Rightarrow> 's privateOps \<Rightarrow> 's \<Rightarrow> transient \<Rightarrow> execution \<Rightarrow> configuration \<Rightarrow> Command
     \<Rightarrow> Batch \<Rightarrow> EvidenceRefs \<Rightarrow> verified \<Rightarrow> verified res" where
  "prepare_report L P s t x config c b refs v =
     rbind (exact retailInput_fields (entry_of t ''retailReportInput'') retailInput_zero) (\<lambda>i.
     if \<not> validDateTime (rt_ReportedAt i) \<or> \<not> match_hexID (rt_Salt i)
     then Inl (fail ''INVALID_SCHEMA'')
     else rbind (key L ''documentOpening'' [e_PurchaseDocumentID refs]) (\<lambda>buyKey.
          rbind (privateLoad P s trade buyKey (struct_codec opening_fields) opening_zero) (\<lambda>buy.
          rbind (exact purchaseBody_fields (op_Body buy) purchaseBody_zero) (\<lambda>p.
          rbind (key L ''cost'' [e_FreightCostID refs]) (\<lambda>costKey.
          rbind (privateLoad P s freight costKey (struct_codec costRecord_fields) costRecord_zero) (\<lambda>cost.
     if cr_BatchID cost \<noteq> b_BatchID b \<or> cr_Quantity cost \<noteq> b_QuantityGrams b
        \<or> cr_Currency cost \<noteq> rt_Currency i \<or> cr_Tax cost \<noteq> rt_Tax i
        \<or> pb_Currency p \<noteq> rt_Currency i \<or> pb_Tax p \<noteq> rt_Tax i
     then Inl (fail ''SOURCE_BINDING_MISMATCH'')
     else let v1 = v \<lparr> v_Quantity := pb_Quantity p, v_PurchasePrice := pb_Price p,
                       v_PurchaseTotal := pb_Total p, v_RetailPrice := rt_Price i,
                       v_Currency := rt_Currency i, v_TaxBasis := rt_Tax i,
                       v_PolicyID := cf_PolicyID config \<rparr>;
              r = payload_of reportInput_fields reportInput_zero c
          in rbind (key L ''report'' [ri_ReportID r]) (\<lambda>reportKey.
             add_private v1 audit reportKey (Some (marshal retailRecord_fields
               \<lparr> rr_SchemaVersion = ''agrochain.retail-price-report.v1'', rr_ReportID = ri_ReportID r,
                 rr_BatchID = c_BatchID c, rr_LotID = ri_RetailLotID r,
                 rr_Quantity = b_QuantityGrams b, rr_Retailer = x_Actor x, rr_input = i,
                 rr_PurchaseID = e_PurchaseDocumentID refs, rr_CostID = e_FreightCostID refs,
                 rr_PolicyID = ri_PolicyID r, rr_OperationID = c_OperationID c,
                 rr_TxID = x_TxID x \<rparr>)))))))))"

definition prepare ::
  "'s ledger \<Rightarrow> 's privateOps \<Rightarrow> 's \<Rightarrow> transient \<Rightarrow> execution \<Rightarrow> evidenceProvider" where
  "prepare L P s t x c b refs =
     (if c_Command c = ''EvaluatePrice'' \<or> c_Command c = ''OpenReview''
         \<or> c_Command c = ''ResolveReview''
      then analysis L P s t x c b refs
      else rbind (getConfig L s) (\<lambda>config.
           let (required, extra) = required_evidence (c_Command c) in
           rbind (check_transient t required extra) (\<lambda>_.
           rbind (if len required > 0
                  then rbind (decodeBundles (entry_of t ''evidence'')) (\<lambda>documents.
                       if len documents \<noteq> len required then Inl (fail ''MISSING_EVIDENCE'')
                       else Inr documents)
                  else Inr []) (\<lambda>documents.
           rbind (fold_result (prepare_document L s t x c b) documents (required, verified_zero)) (\<lambda>(_, v).
           if c_Command c = ''ReportRetailPrice'' then prepare_report L P s t x config c b refs v
           else Inr v)))))"

subsection \<open>Private queries\<close>

definition privateQuery ::
  "'s ledger \<Rightarrow> 's privateOps \<Rightarrow> 's \<Rightarrow> bytes \<Rightarrow> bytes \<Rightarrow> bytes \<Rightarrow> bytes \<Rightarrow> jv option res" where
  "privateQuery L P s actor role fn arg =
     (if fn = ''GetAnomaly'' \<or> fn = ''GetReviewHistory'' then analysisQuery L P s actor role fn arg
      else let collection = (if fn = ''GetPurchase'' then trade
                             else if fn = ''GetFreightCost'' then freight
                             else if fn = ''GetRetailReport'' then audit else []) in
      if \<not> mayRead actor role collection then Inl (fail ''PRIVATE_DATA_ACCESS_DENIED'')
      else if \<not> validID arg ''BAT'' then Inl (fail ''INVALID_IDENTIFIER'')
      else rbind (key L ''batch'' [arg]) (\<lambda>batchKey.
           rbind (load L s batchKey (struct_codec Batch_fields) Batch_zero) (\<lambda>(exists, _).
      if \<not> exists then Inl (fail ''BATCH_NOT_FOUND'')
      else rbind (key L ''batchEvidence'' [arg]) (\<lambda>refsKey.
           rbind (load L s refsKey (struct_codec EvidenceRefs_fields) EvidenceRefs_zero) (\<lambda>(_, refs).
      if fn = ''GetPurchase''
      then rbind (key L ''documentOpening'' [e_PurchaseDocumentID refs]) (\<lambda>k.
           rbind (privateLoad P s trade k (struct_codec opening_fields) opening_zero) (\<lambda>o'.
           rbind (key L ''document'' [e_PurchaseDocumentID refs]) (\<lambda>documentKey.
           rbind (load L s documentKey (struct_codec envelope_fields) envelope_zero) (\<lambda>(_, env).
           Inr (marshal_bundle \<lparr> bu_Envelope = env, bu_Body = op_Body o', bu_Salt = op_Salt o' \<rparr>)))))
      else if fn = ''GetFreightCost''
      then rbind (key L ''cost'' [e_FreightCostID refs]) (\<lambda>k.
           rbind (privateLoad P s freight k (struct_codec costRecord_fields) costRecord_zero) (\<lambda>v.
           Inr (Some (marshal costRecord_fields v))))
      else if fn = ''GetRetailReport''
      then rbind (key L ''report'' [e_RetailReportID refs]) (\<lambda>k.
           rbind (privateLoad P s audit k (struct_codec retailRecord_fields) retailRecord_zero) (\<lambda>v.
           Inr (Some (marshal retailRecord_fields v))))
      else Inl (fail ''UNSUPPORTED_PILOT_OPERATION''))))))"

definition verifyOpening ::
  "'s ledger \<Rightarrow> 's \<Rightarrow> bytes \<Rightarrow> bytes \<Rightarrow> bytes \<Rightarrow> transient \<Rightarrow> jv option res" where
  "verifyOpening L s actor role arg t =
     (if \<not> validID arg ''DOC'' then Inl (fail ''INVALID_IDENTIFIER'')
      else rbind (key L ''document'' [arg]) (\<lambda>documentKey.
           rbind (load L s documentKey (struct_codec envelope_fields) envelope_zero) (\<lambda>(found, env).
      if \<not> found then Inl (fail ''DOCUMENT_NOT_FOUND'')
      else let collection = (if h_DocumentType (env_Header env) = ''FREIGHT_INVOICE'' then freight
                             else trade) in
      if \<not> mayRead actor role collection then Inl (fail ''PRIVATE_DATA_ACCESS_DENIED'')
      else if len t \<noteq> 1 then Inl (fail ''INVALID_SCHEMA'')
      else rbind (exact opening_fields (entry_of t ''opening'') opening_zero) (\<lambda>o'.
           rbind (verifyBundle L s \<lparr> bu_Envelope = env, bu_Body = op_Body o', bu_Salt = op_Salt o' \<rparr>) (\<lambda>_.
           Inr (Some (JObj
             [(''schemaVersion'', JStr ''agrochain.opening-result.v1''), (''documentId'', JStr arg),
              (''sourceMode'', JStr ''SIMULATED''), (''commitmentMatched'', JBool True),
              (''signatureVerified'', JBool True)])))))))"

subsection \<open>The real provider keeps the provider's promise\<close>

lemma evidence_plan_empty [simp]: "evidence_plan L []"
  by (simp add: evidence_plan_def)

lemma evidence_plan_put:
  assumes "evidence_plan L p" "CreateCompositeKey L kind attrs = Some k" "kind \<in> set evidence_kinds"
  shows "evidence_plan L (put_entry k v p)"
  using assms by (simp add: evidence_plan_def distinct_put_entry plan_within_put)

lemma add_private_public: "add_private v collection k w = Inr v' \<Longrightarrow> v_Public v' = v_Public v"
  by (auto simp: add_private_def rbind_eq_Inr)

lemma mark_document_public:
  assumes "mark_document L s c x doc public = Inr public'" and "evidence_plan L public"
  shows "evidence_plan L public'"
proof -
  let ?h = "env_Header (bu_Envelope doc)"
  obtain k1 k2 k3 where k: "CreateCompositeKey L ''document'' [h_DocumentID ?h] = Some k1"
    "CreateCompositeKey L ''sourceUse'' [h_IssuerID ?h, h_SourceDocumentID ?h] = Some k2"
    "CreateCompositeKey L ''nonceUse'' [h_IssuerID ?h, h_Nonce ?h] = Some k3"
    and p: "public' = put_entry k1 (Some (encoded (marshal envelope_fields (bu_Envelope doc))))
       (put_entry k3 (Some (encoded (use_mark c x))) (put_entry k2 (Some (encoded (use_mark c x)))
         (put_entry k1 (Some (encoded (use_mark c x))) public)))"
    using assms(1)
    by (auto simp: mark_document_def Let_def rbind_eq_Inr key_eq_Inr mark_used_def split: if_splits)
  show ?thesis
    unfolding p
    by (intro evidence_plan_put [OF _ k(1)] evidence_plan_put [OF _ k(2)] evidence_plan_put [OF _ k(3)]
        assms(2)) (simp_all add: evidence_kinds_def)
qed

lemma document_claim_public:
  "document_claim L t x c b doc v = Inr (v', collection) \<Longrightarrow> v_Public v' = v_Public v"
  by (auto simp: document_claim_def Let_def claim_eligibility_def claim_purchase_def
      claim_notification_def claim_manifest_def claim_freight_def rbind_eq_Inr
      split: if_splits dest!: add_private_public)

lemma prepare_document_public:
  assumes "prepare_document L s t x c b doc acc = Inr acc'" and "evidence_plan L (v_Public (snd acc))"
  shows "evidence_plan L (v_Public (snd acc'))"
proof -
  obtain required v where acc: "acc = (required, v)" by force
  obtain public v1 collection where m: "mark_document L s c x doc (v_Public v) = Inr public"
    and v1: "document_claim L t x c b doc (v \<lparr> v_Public := public \<rparr>) = Inr (v1, collection)"
    and acc': "v_Public (snd acc') = v_Public v1"
    using assms(1) unfolding acc
    by (auto simp: prepare_document_def Let_def rbind_eq_Inr split: if_splits dest: add_private_public)
  have "v_Public v1 = public" using document_claim_public [OF v1] by simp
  then show ?thesis using mark_document_public [OF m] assms(2) acc acc' by simp
qed

lemma prepare_report_public:
  "prepare_report L P s t x config c b refs v = Inr v' \<Longrightarrow> v_Public v' = v_Public v"
  by (auto simp: prepare_report_def Let_def rbind_eq_Inr split: if_splits dest!: add_private_public)

lemma analysis_public:
  assumes "analysis L P s t x c b refs = Inr v"
  shows "evidence_plan L (v_Public v)"
proof -
  let ?p = "payload_of analysisInput_fields analysisInput_zero c"
  obtain a v0 where v0: "(if c_Command c = ''EvaluatePrice'' then analysis_evaluate L P s t x c b refs ?p
       else analysis_review L P s t x c b ?p) = Inr (a, v0)" and v: "v_Public v = v_Public v0"
    using assms
    by (auto simp: analysis_def Let_def rbind_eq_Inr split: if_splits dest: add_private_public)
  show ?thesis
  proof (cases "c_Command c = ''EvaluatePrice''")
    case True
    then obtain k1 k2 w where "CreateCompositeKey L ''evaluation'' [b_BatchID b] = Some k1"
      "CreateCompositeKey L ''anomalyReference'' [ai_AnomalyID ?p] = Some k2"
      "v_Public v0 = put_entry k2 w (put_entry k1 w [])"
      using v0
      by (auto simp: analysis_evaluate_def Let_def rbind_eq_Inr key_eq_Inr split: if_splits
          simp del: put_entry.simps)
    then show ?thesis
      using v by (auto intro!: evidence_plan_put simp: evidence_kinds_def simp del: put_entry.simps)
  next
    case False
    then obtain k1 w where "CreateCompositeKey L ''reviewActionReference'' [ai_AnomalyID ?p, c_OperationID c] = Some k1"
      "v_Public v0 = put_entry k1 w []"
      using v0
      by (auto simp: analysis_review_def Let_def rbind_eq_Inr key_eq_Inr verified_zero_def
          split: if_splits simp del: put_entry.simps dest!: add_private_public)
    then show ?thesis
      using v by (auto intro!: evidence_plan_put simp: evidence_kinds_def simp del: put_entry.simps)
  qed
qed

text \<open>The stages of a successful \<open>prepare\<close>, outside the analysis commands.\<close>

lemma prepare_stages:
  assumes "prepare L P s t x c b refs = Inr v"
    and "c_Command c \<notin> {''EvaluatePrice'', ''OpenReview'', ''ResolveReview''}"
  obtains config required extra documents required' v1 where
    "getConfig L s = Inr config" "required_evidence (c_Command c) = (required, extra)"
    "check_transient t required extra = Inr ()"
    "if len required > 0
     then decodeBundles (entry_of t ''evidence'') = Inr documents \<and> len documents = len required
     else documents = []"
    "fold_result (prepare_document L s t x c b) documents (required, verified_zero) = Inr (required', v1)"
    "if c_Command c = ''ReportRetailPrice'' then prepare_report L P s t x config c b refs v1 = Inr v
     else v = v1"
proof -
  obtain required extra where re: "required_evidence (c_Command c) = (required, extra)" by force
  show ?thesis
    using assms re that
    by (auto simp: prepare_def rbind_eq_Inr split: if_splits)
qed

lemma prepare_analysis:
  "c_Command c \<in> {''EvaluatePrice'', ''OpenReview'', ''ResolveReview''} \<Longrightarrow>
     prepare L P s t x c b refs = analysis L P s t x c b refs"
  unfolding prepare_def by simp

interpretation real_evidence: evidence_provider L "prepare L P s t x" for L P s t x
proof unfold_locales
  show "b_State b = RetailReported" if "prepare L P s t x c b refs = Inr v"
    "c_Command c \<in> {''EvaluatePrice'', ''OpenReview'', ''ResolveReview''}" for c b refs v
    using that(1) unfolding prepare_analysis [OF that(2)] by (simp add: analysis_def split: if_splits)
next
  fix c b refs v
  assume run: "prepare L P s t x c b refs = Inr v"
  show "evidence_plan L (v_Public v)"
  proof (cases "c_Command c \<in> {''EvaluatePrice'', ''OpenReview'', ''ResolveReview''}")
    case True
    then show ?thesis using run by (simp add: prepare_analysis analysis_public)
  next
    case False
    show ?thesis
    proof (rule prepare_stages [OF run False])
      fix config required extra documents required' v1
      assume docs: "fold_result (prepare_document L s t x c b) documents (required, verified_zero) = Inr (required', v1)"
        and v: "if c_Command c = ''ReportRetailPrice'' then prepare_report L P s t x config c b refs v1 = Inr v
          else v = v1"
      have "evidence_plan L (v_Public (snd (required', v1)))"
        by (rule fold_result_invariant [OF docs, where P = "\<lambda>a. evidence_plan L (v_Public (snd a))"])
          (auto simp: verified_zero_def intro: prepare_document_public)
      then show ?thesis using v by (auto split: if_splits dest!: prepare_report_public)
    qed
  qed
qed

end
