(* ===== verification/Queries.thy ===== *)
theory Queries
  imports Private
begin

text \<open>\<open>queries.go\<close>: health, lookups by identifier, and the paged queries.\<close>

definition ReleaseVersion :: bytes where "ReleaseVersion = ''0.3.0''"

record pageInput =
  pi_SchemaVersion :: bytes
  pi_Filter :: bytes
  pi_PageSize :: int
  pi_Bookmark :: bytes

definition pageInput_fields :: "pageInput field list" where
  "pageInput_fields =
     [str ''schemaVersion'' pi_SchemaVersion pi_SchemaVersion_update,
      str ''filter'' pi_Filter pi_Filter_update,
      int32 ''pageSize'' pi_PageSize pi_PageSize_update,
      str ''bookmark'' pi_Bookmark pi_Bookmark_update]"

definition pageInput_zero :: pageInput where
  "pageInput_zero = \<lparr> pi_SchemaVersion = [], pi_Filter = [], pi_PageSize = 0, pi_Bookmark = [] \<rparr>"

definition pageInput_ok :: "pageInput \<Rightarrow> bool" where
  "pageInput_ok r \<longleftrightarrow> list_all text_ok [pi_SchemaVersion r, pi_Filter r, pi_Bookmark r]
   \<and> int_ok 32 (pi_PageSize r)"

interpretation page_input: struct pageInput_fields pageInput_ok
  by unfold_locales
    (auto simp: pageInput_fields_def pageInput_ok_def keeps_field intro!: field_rules)

record Page =
  pg_SchemaVersion :: bytes
  pg_Records :: "bytes list"
  pg_Bookmark :: bytes

definition Page_fields :: "Page field list" where
  "Page_fields =
     [str ''schemaVersion'' pg_SchemaVersion pg_SchemaVersion_update,
      field ''records'' False (list_codec raw_codec []) pg_Records pg_Records_update,
      str ''bookmark'' pg_Bookmark pg_Bookmark_update]"

definition Page_ok :: "Page \<Rightarrow> bool" where
  "Page_ok r \<longleftrightarrow> text_ok (pg_SchemaVersion r) \<and> list_all raw_ok (pg_Records r)
     \<and> text_ok (pg_Bookmark r)"

interpretation page: struct Page_fields Page_ok
  by unfold_locales
    (auto simp: Page_fields_def Page_ok_def keeps_field
      intro!: field_rules field_okI [OF list_codec_ok [OF raw_codec_ok]])

definition health :: "'s ledger \<Rightarrow> 's \<Rightarrow> bytes list \<Rightarrow> jv option res" where
  "health L s args =
     (let reply = (\<lambda>enabled. Inr (Some (JObj
          [(''schemaVersion'', JStr ''agrochain.health.v1''), (''version'', JStr ReleaseVersion),
           (''writesEnabled'', JBool enabled),
           (''evidenceVerification'', JStr ''REQUIRED_STAGE_4'')])))
      in if len args \<noteq> 0 then Inl (fail ''INVALID_SCHEMA'')
         else case getConfig L s of
           Inr _ \<Rightarrow> reply True
         | Inl e \<Rightarrow> if code_of e \<noteq> ''CONFIGURATION_REQUIRED'' then Inl e else reply False)"

text \<open>One record of a page: a receipt of the history, or the batch an index entry names.\<close>

definition page_record ::
  "'s ledger \<Rightarrow> 's \<Rightarrow> bytes \<Rightarrow> entry \<Rightarrow> bytes list \<Rightarrow> bytes list res" where
  "page_record L s kind item records =
     rbind (if kind = ''history''
            then (case Unmarshal Receipt_fields (en_Value item) Receipt_zero of
                    None \<Rightarrow> Inl (fail ''INTERNAL_ERROR'')
                  | Some r \<Rightarrow> Inr (marshal Receipt_fields r))
            else (case Option.bind (json_parse (en_Value item)) (\<lambda>v. dec string_codec v []) of
                    None \<Rightarrow> Inl (fail ''INTERNAL_ERROR'')
                  | Some name \<Rightarrow>
                      if \<not> validID name ''BAT'' then Inl (fail ''INTERNAL_ERROR'')
                      else rbind (key L ''batch'' [name]) (\<lambda>k.
                           rbind (load L s k (struct_codec Batch_fields) Batch_zero) (\<lambda>(ok, b).
                           if \<not> ok then Inl (fail ''INTERNAL_ERROR'')
                           else Inr (marshal Batch_fields b))))) (\<lambda>value.
     rbind (canonical (Some value)) (\<lambda>b. Inr (records @ [b])))"

definition page_kind :: "bytes \<Rightarrow> bytes \<Rightarrow> bytes res" where
  "page_kind fn filt =
     (if fn = ''GetBatchHistory''
      then (if \<not> validID filt ''BAT'' then Inl (fail ''INVALID_IDENTIFIER'') else Inr ''history'')
      else if fn = ''QueryBatchesByOwner''
      then (if \<not> member filt then Inl (fail ''UNAUTHORIZED_ORGANIZATION'') else Inr ''owner'')
      else (if \<not> validState filt then Inl (fail ''INVALID_STATE_TRANSITION'') else Inr ''state''))"

definition page_query :: "'s ledger \<Rightarrow> 's \<Rightarrow> bytes \<Rightarrow> bytes \<Rightarrow> jv option res" where
  "page_query L s fn arg =
     rbind (decode pageInput_fields arg pageInput_zero
              [''schemaVersion'', ''filter'', ''pageSize'', ''bookmark'']) (\<lambda>p.
     if pi_SchemaVersion p \<noteq> ''agrochain.page-request.v1''
     then Inl (fail ''UNSUPPORTED_SCHEMA_VERSION'')
     else if pi_PageSize p < 1 \<or> pi_PageSize p > 100 then Inl (fail ''INVALID_PAGE'')
     else rbind (page_kind fn (pi_Filter p)) (\<lambda>kind.
          rbind (l_page L s kind [pi_Filter p] (pi_PageSize p) (pi_Bookmark p)) (\<lambda>(items, next').
          rbind (fold_result (page_record L s kind) items []) (\<lambda>records.
          Inr (Some (marshal Page_fields
            \<lparr> pg_SchemaVersion = ''agrochain.page.v1'', pg_Records = records,
              pg_Bookmark = next' \<rparr>))))))"

definition query ::
  "'s ledger \<Rightarrow> 's \<Rightarrow> bytes \<Rightarrow> bytes \<Rightarrow> bytes list \<Rightarrow> jv option res" where
  "query L s actor fn args =
     (if fn = ''Health'' then health L s args
      else if len args \<noteq> 1 then Inl (fail ''INVALID_SCHEMA'')
      else let arg = hd args in
      if fn = ''GetBatch'' \<or> fn = ''BatchExists''
      then (if \<not> validID arg ''BAT'' then Inl (fail ''INVALID_IDENTIFIER'')
            else rbind (key L ''batch'' [arg]) (\<lambda>k.
                 rbind (load L s k (struct_codec Batch_fields) Batch_zero) (\<lambda>(ok, b).
                 if fn = ''BatchExists'' then Inr (Some (JBool ok))
                 else if \<not> ok then Inl (fail ''BATCH_NOT_FOUND'')
                 else Inr (Some (marshal Batch_fields b)))))
      else if fn = ''GetTransfer''
      then (if \<not> validID arg ''TRF'' then Inl (fail ''INVALID_IDENTIFIER'')
            else rbind (key L ''transfer'' [arg]) (\<lambda>k.
                 rbind (load L s k (struct_codec Transfer_fields) Transfer_zero) (\<lambda>(ok, t).
                 if \<not> ok then Inl (fail ''TRANSFER_NOT_FOUND'')
                 else Inr (Some (marshal Transfer_fields t)))))
      else if fn = ''GetOperation''
      then (if \<not> validID arg ''OP'' then Inl (fail ''INVALID_IDENTIFIER'')
            else rbind (key L ''operation'' [actor, arg]) (\<lambda>k.
                 rbind (load L s k (struct_codec Receipt_fields) Receipt_zero) (\<lambda>(ok, r).
                 if \<not> ok then Inl (fail ''OPERATION_NOT_FOUND'')
                 else Inr (Some (marshal Receipt_fields r)))))
      else if fn = ''GetBatchHistory'' \<or> fn = ''QueryBatchesByOwner'' \<or> fn = ''QueryBatchesByState''
      then page_query L s fn arg
      else Inl (fail ''UNSUPPORTED_PILOT_OPERATION''))"

end
