(* ===== verification/Contract.thy ===== *)
theory Contract
  imports Queries
begin

text \<open>
  \<open>contract.go\<close>: the ledger on top of a Fabric stub, the dispatch of a call, and \<open>Invoke\<close>.

  Fabric is not part of the repository.  What the code calls of it is a record of operations
  on the state (\<open>stub\<close>) and a record with the data of one proposal (\<open>invocation\<close>).
\<close>

subsection \<open>What the program takes from Fabric\<close>

text \<open>
  The iterator of a page is the list of what its \<open>Next\<close> answers, \<open>None\<close> being an error, with
  the bookmark of the metadata.
\<close>

record 's stub = externals +
  GetState :: "'s \<Rightarrow> bytes \<Rightarrow> bytes option"
  PutState :: "bytes \<Rightarrow> bytes \<Rightarrow> 's \<Rightarrow> 's option"
  DelState :: "bytes \<Rightarrow> 's \<Rightarrow> 's option"
  SetEvent :: "bytes \<Rightarrow> bytes \<Rightarrow> 's \<Rightarrow> 's option"
  GetPrivateData :: "'s \<Rightarrow> bytes \<Rightarrow> bytes \<Rightarrow> bytes option"
  PutPrivateData :: "bytes \<Rightarrow> bytes \<Rightarrow> bytes \<Rightarrow> 's \<Rightarrow> 's option"
  GetStateByPartialCompositeKeyWithPagination ::
    "'s \<Rightarrow> bytes \<Rightarrow> bytes list \<Rightarrow> int \<Rightarrow> bytes \<Rightarrow> (entry option list \<times> bytes) option"

text \<open>
  \<open>inv_Identity\<close> is the outcome of \<open>cid.New\<close>, \<open>GetMSPID\<close> and \<open>GetAttributeValue\<close>, each of
  which may fail; a missing attribute is the empty string.
\<close>

record identity =
  MSPID :: "bytes option"
  AttributeValue :: "bytes \<Rightarrow> bytes option"

record invocation =
  inv_Identity :: "identity option"
  inv_Function :: bytes
  inv_Parameters :: "bytes list"
  inv_Transient :: "transient option"
  inv_TxTimestamp :: "(int \<times> int) option"
  inv_TxID :: bytes

datatype response = Success bytes | Failure bytes | Crash bytes

subsection \<open>The ledger on the stub\<close>

fun Join :: "bytes list \<Rightarrow> bytes \<Rightarrow> bytes" where
  "Join [] sep = []"
| "Join [a] sep = a"
| "Join (a # as) sep = a @ sep @ Join as sep"

definition page_prefix :: "bytes \<Rightarrow> bytes list \<Rightarrow> bytes" where
  "page_prefix kind attrs = kind @ '':'' @ Join attrs '':'' @ '':''"

definition page_bookmark :: "('e) externals_scheme \<Rightarrow> bytes \<Rightarrow> bytes list \<Rightarrow> bytes \<Rightarrow> bytes res" where
  "page_bookmark E kind attrs token =
     (if token = [] then Inr []
      else case decode64 False token of
        None \<Rightarrow> Inl (fail ''INVALID_PAGE'')
      | Some b \<Rightarrow>
          if encode64 b \<noteq> token \<or> \<not> HasPrefix b (page_prefix kind attrs)
          then Inl (fail ''INVALID_PAGE'')
          else let bookmark = drop (length (page_prefix kind attrs)) b in
               rbind (key E kind attrs) (\<lambda>k.
               if \<not> HasPrefix bookmark k then Inl (fail ''INVALID_PAGE'') else Inr bookmark))"

definition fabric_page ::
  "'s stub \<Rightarrow> 's \<Rightarrow> bytes \<Rightarrow> bytes list \<Rightarrow> int \<Rightarrow> bytes \<Rightarrow> (entry list \<times> bytes) res" where
  "fabric_page stub s kind attrs limit token =
     rbind (page_bookmark stub kind attrs token) (\<lambda>bookmark.
     case GetStateByPartialCompositeKeyWithPagination stub s kind attrs limit bookmark of
       None \<Rightarrow> Inl (fail ''INTERNAL_ERROR'')
     | Some (it, meta) \<Rightarrow>
         rbind (of_option (fail ''INTERNAL_ERROR'') (those it)) (\<lambda>items.
         Inr (items, if meta \<noteq> [] then encode64 (page_prefix kind attrs @ meta) else [])))"

definition fabricLedger :: "'s stub \<Rightarrow> 's ledger" where
  "fabricLedger stub =
     \<lparr> CreateCompositeKey = CreateCompositeKey stub, Sha256 = Sha256 stub,
       Ed25519Verify = Ed25519Verify stub,
       l_read = GetState stub, l_write = PutState stub, l_remove = DelState stub,
       l_page = fabric_page stub, l_emit = SetEvent stub,
       l_private = Some \<lparr> p_read = GetPrivateData stub, p_write = PutPrivateData stub \<rparr> \<rparr>"

subsection \<open>Dispatch\<close>

definition isMutation :: "bytes \<Rightarrow> bool" where
  "isMutation fn \<longleftrightarrow> fn \<in> set [''CreateBatch'', ''OfferPickup'', ''AcceptPickup'',
     ''RecordFreightCost'', ''OfferDelivery'', ''AcceptDelivery'', ''ReportRetailPrice'',
     ''EvaluatePrice'', ''OpenReview'', ''ResolveReview'']"

definition executionFromStub :: "invocation \<Rightarrow> bytes \<Rightarrow> bytes \<Rightarrow> execution res" where
  "executionFromStub i msp role =
     (case inv_TxTimestamp i of
       None \<Rightarrow> Inl (fail ''INTERNAL_ERROR'')
     | Some (seconds, nanos) \<Rightarrow>
         if seconds < 0 \<or> nanos < 0 \<or> nanos > 999999999 \<or> \<not> match_hexID (inv_TxID i)
         then Inl (fail ''INTERNAL_ERROR'')
         else Inr \<lparr> x_Actor = msp, x_Role = role, x_TxID = inv_TxID i,
                    x_Time = \<lparr> tm_Seconds = FormatInt seconds, tm_Nanos = nanos \<rparr> \<rparr>)"

record proposal =
  pr_x :: execution
  pr_transient :: transient

definition GetDocument :: "'s ledger \<Rightarrow> 's \<Rightarrow> bytes list \<Rightarrow> jv option res" where
  "GetDocument L s args =
     (if len args \<noteq> 1 \<or> \<not> validID (hd args) ''DOC'' then Inl (fail ''INVALID_IDENTIFIER'')
      else rbind (key L ''document'' [hd args]) (\<lambda>k.
           rbind (load L s k (struct_codec envelope_fields) envelope_zero) (\<lambda>(found, env).
           if \<not> found then Inl (fail ''DOCUMENT_NOT_FOUND'')
           else Inr (Some (marshal envelope_fields env)))))"

definition dispatch_private ::
  "'s ledger \<Rightarrow> 's \<Rightarrow> bytes \<Rightarrow> bytes \<Rightarrow> bytes \<Rightarrow> bytes list \<Rightarrow> proposal list \<Rightarrow> jv option res" where
  "dispatch_private L s msp role fn args request =
     (case l_private L of
       None \<Rightarrow> Inl (fail ''INVALID_SCHEMA'')
     | Some P \<Rightarrow>
         if len args \<noteq> 1 \<or> len request \<noteq> 1 then Inl (fail ''INVALID_SCHEMA'')
         else let t = pr_transient (hd request) in
         if fn = ''VerifyDocument'' then verifyOpening L s msp role (hd args) t
         else if len t \<noteq> 0 then Inl (fail ''INVALID_SCHEMA'')
         else privateQuery L P s msp role fn (hd args))"

definition dispatch_command ::
  "'s ledger \<Rightarrow> bytes \<Rightarrow> bytes list \<Rightarrow> proposal list \<Rightarrow> 's \<Rightarrow> jv option res \<times> 's" where
  "dispatch_command L fn args request s =
     (if len args \<noteq> 1 then (Inl (fail ''INVALID_SCHEMA''), s)
      else case parseCommand fn (hd args) of
        Inl e \<Rightarrow> (Inl e, s)
      | Inr c \<Rightarrow> case getConfig L s of
          Inl e \<Rightarrow> (Inl e, s)
        | Inr _ \<Rightarrow> case l_private L of
            None \<Rightarrow> (Inl (fail ''MISSING_EVIDENCE''), s)
          | Some P \<Rightarrow>
              if len request \<noteq> 1 then (Inl (fail ''MISSING_EVIDENCE''), s)
              else let r = hd request in
                case engine_apply L (prepare L P s (pr_transient r) (pr_x r)) c (pr_x r) s of
                  (Inl e, s') \<Rightarrow> (Inl e, s')
                | (Inr receipt, s') \<Rightarrow> (Inr (Some (marshal Receipt_fields receipt)), s'))"

definition dispatch ::
  "'s ledger \<Rightarrow> bytes \<Rightarrow> bytes \<Rightarrow> bytes \<Rightarrow> bytes list \<Rightarrow> proposal list \<Rightarrow> 's
     \<Rightarrow> jv option res \<times> 's" where
  "dispatch L msp role fn args request s =
     (case authorize msp role fn of
       Inl e \<Rightarrow> (Inl e, s)
     | Inr _ \<Rightarrow>
         if fn = ''Bootstrap''
         then (if len args \<noteq> 1 \<or> len request \<noteq> 1 \<or> len (pr_transient (hd request)) \<noteq> 0
               then (Inl (fail ''INVALID_SCHEMA''), s)
               else case bootstrap L (pr_x (hd request)) (hd args) s of
                 (Inl e, s') \<Rightarrow> (Inl e, s')
               | (Inr c, s') \<Rightarrow> (Inr (Some (marshal configuration_fields c)), s'))
         else if fn = ''GetConfiguration''
         then (if len args \<noteq> 0 then Inl (fail ''INVALID_SCHEMA'')
               else rbind (getConfig L s) (\<lambda>c. Inr (Some (marshal configuration_fields c))), s)
         else if fn = ''GetDocument'' then (GetDocument L s args, s)
         else if fn \<in> set [''GetPurchase'', ''GetFreightCost'', ''GetRetailReport'', ''GetAnomaly'',
                           ''GetReviewHistory'', ''VerifyDocument'']
         then (dispatch_private L s msp role fn args request, s)
         else if fn \<in> set [''CreateBatch'', ''OfferPickup'', ''AcceptPickup'', ''RecordFreightCost'',
                           ''OfferDelivery'', ''AcceptDelivery'', ''ReportRetailPrice'', ''EvaluatePrice'',
                           ''OpenReview'', ''ResolveReview'']
         then dispatch_command L fn args request s
         else (query L s msp fn args, s))"

text \<open>
  The code lists the commands twice, in \<open>isMutation\<close> and in the switch of \<open>dispatch\<close>.  The two lists
  agree, which is what gives every command the context of its proposal.
\<close>

lemma commands_mutate:
  "fn \<in> set [''CreateBatch'', ''OfferPickup'', ''AcceptPickup'', ''RecordFreightCost'', ''OfferDelivery'',
     ''AcceptDelivery'', ''ReportRetailPrice'', ''EvaluatePrice'', ''OpenReview'', ''ResolveReview'']
   \<longleftrightarrow> isMutation fn"
  by (auto simp: isMutation_def)

lemmas dispatch_unfold = dispatch_def [unfolded commands_mutate]

subsection \<open>Init and Invoke\<close>

definition respond :: "failure \<Rightarrow> response" where
  "respond e = (case e of Domain d \<Rightarrow> Failure (Error d) | Panic m \<Rightarrow> Crash m)"

definition Init :: "'s stub \<Rightarrow> 's \<Rightarrow> response \<times> 's" where
  "Init stub s = (respond (fail ''UNSUPPORTED_PILOT_OPERATION''), s)"

definition reply :: "jv option res \<Rightarrow> response" where
  "reply result =
     (case result of
       Inl e \<Rightarrow> respond e
     | Inr v \<Rightarrow> case canonical v of Inl e \<Rightarrow> respond e | Inr b \<Rightarrow> Success b)"

text \<open>The identity of the caller: its organization and role.\<close>

definition caller :: "invocation \<Rightarrow> (bytes \<times> bytes) res" where
  "caller i =
     rbind (of_option (fail ''UNAUTHORIZED_ORGANIZATION'') (inv_Identity i)) (\<lambda>d.
     rbind (of_option (fail ''UNAUTHORIZED_ORGANIZATION'') (MSPID d)) (\<lambda>msp.
     rbind (of_option (fail ''UNAUTHORIZED_ROLE'') (AttributeValue d ''agrochain.role'')) (\<lambda>role.
     Inr (msp, role))))"

text \<open>The context \<open>Invoke\<close> builds: from the proposal for a mutation, without time otherwise.\<close>

definition invoke_context :: "invocation \<Rightarrow> bytes \<Rightarrow> bytes \<Rightarrow> execution res" where
  "invoke_context i msp role =
     (if isMutation (inv_Function i) \<or> inv_Function i = ''Bootstrap'' then executionFromStub i msp role
      else Inr \<lparr> x_Actor = msp, x_Role = role, x_TxID = [], x_Time = TxTime_zero \<rparr>)"

definition Invoke :: "'s stub \<Rightarrow> invocation \<Rightarrow> 's \<Rightarrow> response \<times> 's" where
  "Invoke stub i s =
     (case caller i of
       Inl e \<Rightarrow> (respond e, s)
     | Inr (msp, role) \<Rightarrow>
         case invoke_context i msp role of
           Inl e \<Rightarrow> (respond e, s)
         | Inr x \<Rightarrow>
             case inv_Transient i of
               None \<Rightarrow> (respond (fail ''INVALID_SCHEMA''), s)
             | Some t \<Rightarrow>
                 case dispatch (fabricLedger stub) msp role (inv_Function i) (inv_Parameters i)
                        [\<lparr> pr_x = x, pr_transient = t \<rparr>] s of
                   (result, s') \<Rightarrow> (reply result, s'))"

end
