(* ===== verification/World.thy ===== *)
theory World
  imports Contract
begin

text \<open>
  The invariant of the public ledger that the commands keep: every stored batch is well formed
  and stands where its state says, its evidence references match its progress, the owner and
  state indexes and the history hold exactly its entries, and a pending transfer exists exactly
  while the batch waits for one, and is the one the recipient can accept.
\<close>

subsection \<open>Well-formed batches and references\<close>

definition owner_at :: "bytes \<Rightarrow> bytes" where
  "owner_at st = (if st = Received \<or> st = RetailReported then Retailer else Producer)"

definition custodian_at :: "bytes \<Rightarrow> bytes" where
  "custodian_at st =
     (if st = Created \<or> st = PickupPending then Producer
      else if st = InTransport \<or> st = DeliveryPending then Logistics
      else Retailer)"

definition batch_shape :: "bytes \<Rightarrow> Batch \<Rightarrow> bool" where
  "batch_shape i b \<longleftrightarrow>
     b_BatchID b = i \<and> validID i ''BAT'' \<and> validState (b_State b)
   \<and> b_ProductCode b = ''TOMATO'' \<and> b_ProducerMSP b = Producer \<and> b_LogisticsMSP b = Logistics
   \<and> b_IntendedRetailerMSP b = Retailer
   \<and> b_OwnerMSP b = owner_at (b_State b) \<and> b_CustodianMSP b = custodian_at (b_State b)
   \<and> (b_RetailLotID b \<noteq> [] \<longleftrightarrow> b_State b = RetailReported)
   \<and> 1 \<le> b_Version b \<and> b_Version b \<le> 2147483647
   \<and> 1 \<le> b_QuantityGrams b \<and> b_QuantityGrams b \<le> 100000000"

definition refs_shape :: "bytes \<Rightarrow> bytes \<Rightarrow> EvidenceRefs \<Rightarrow> bool" where
  "refs_shape i st r \<longleftrightarrow>
     e_BatchID r = i \<and> e_CKSDocumentID r \<noteq> []
   \<and> (e_PurchaseDocumentID r \<noteq> [] \<longleftrightarrow> st \<noteq> Created)
   \<and> (e_HKSDocumentID r \<noteq> [] \<longleftrightarrow> st \<noteq> Created)
   \<and> (e_TransportDocumentID r \<noteq> [] \<longleftrightarrow> st \<noteq> Created)
   \<and> (e_FreightCostID r \<noteq> [] \<longrightarrow> st \<noteq> Created \<and> st \<noteq> PickupPending)
   \<and> (st = Received \<or> st = RetailReported \<longrightarrow> e_FreightCostID r \<noteq> [])
   \<and> (e_RetailReportID r \<noteq> [] \<longleftrightarrow> st = RetailReported)
   \<and> list_all (list_all printable) [e_PurchaseDocumentID r, e_FreightCostID r, e_RetailReportID r]"

text \<open>The transfer a pending batch waits for.\<close>

definition pending_state :: "bytes \<Rightarrow> bool" where
  "pending_state st \<longleftrightarrow> st = PickupPending \<or> st = DeliveryPending"

definition awaited :: "Batch \<Rightarrow> Transfer \<Rightarrow> bool" where
  "awaited b t \<longleftrightarrow>
     t_BatchID t = b_BatchID b \<and> t_Status t = ''OFFERED''
   \<and> t_Kind t = (if b_State b = PickupPending then ''PICKUP'' else ''DELIVERY'')
   \<and> t_FromMSP t = b_CustodianMSP b
   \<and> t_ToMSP t = (if b_State b = PickupPending then Logistics else Retailer)
   \<and> t_QuantityGrams t = b_QuantityGrams b"

subsection \<open>The invariant\<close>

text \<open>\<open>f kind attrs\<close> is the public value at a composite key, the empty one when there is none.\<close>

type_synonym public = "bytes \<Rightarrow> bytes list \<Rightarrow> bytes"

definition stored_transfer :: "public \<Rightarrow> Transfer \<Rightarrow> bool" where
  "stored_transfer f t \<longleftrightarrow> Transfer_ok t
     \<and> f ''transfer'' [t_TransferID t] = encoded (marshal Transfer_fields t)"

definition pending_world :: "public \<Rightarrow> Batch \<Rightarrow> bool" where
  "pending_world f b \<longleftrightarrow>
     (if pending_state (b_State b)
      then \<exists>t. stored_transfer f t \<and> awaited b t
             \<and> f ''pendingTransfer'' [b_BatchID b] = encoded (JStr (t_TransferID t))
      else f ''pendingTransfer'' [b_BatchID b] = [])"

definition index_world :: "public \<Rightarrow> Batch \<Rightarrow> bool" where
  "index_world f b \<longleftrightarrow>
     (\<forall>m. f ''owner'' [m, b_BatchID b] =
            (if m = b_OwnerMSP b then encoded (JStr (b_BatchID b)) else []))
   \<and> (\<forall>st. f ''state'' [st, b_BatchID b] =
            (if st = b_State b then encoded (JStr (b_BatchID b)) else []))
   \<and> (\<forall>v. f ''history'' [b_BatchID b, v] \<noteq> [] \<longleftrightarrow> (\<exists>n. 1 \<le> n \<and> n \<le> b_Version b \<and> v = format_padded n))"

definition batch_here :: "public \<Rightarrow> bytes \<Rightarrow> Batch \<Rightarrow> EvidenceRefs \<Rightarrow> bool" where
  "batch_here f i b r \<longleftrightarrow>
     f ''batch'' [i] = encoded (marshal Batch_fields b) \<and> Batch_ok b \<and> batch_shape i b
   \<and> f ''batchEvidence'' [i] = encoded (marshal EvidenceRefs_fields r)
   \<and> EvidenceRefs_ok r \<and> refs_shape i (b_State b) r
   \<and> index_world f b \<and> pending_world f b"

definition no_batch :: "public \<Rightarrow> bytes \<Rightarrow> bool" where
  "no_batch f i \<longleftrightarrow>
     f ''batch'' [i] = [] \<and> f ''batchEvidence'' [i] = [] \<and> f ''pendingTransfer'' [i] = []
   \<and> (\<forall>m. f ''owner'' [m, i] = []) \<and> (\<forall>st. f ''state'' [st, i] = [])
   \<and> (\<forall>v. f ''history'' [i, v] = [])"

definition world_ok :: "public \<Rightarrow> bool" where
  "world_ok f \<longleftrightarrow>
     (\<forall>i. no_batch f i \<or> (\<exists>b r. batch_here f i b r))
   \<and> (\<forall>j. f ''transfer'' [j] = [] \<or> (\<exists>t. stored_transfer f t \<and> t_TransferID t = j))"

lemma world_ok_empty: "world_ok (\<lambda>kind attrs. [])"
  by (simp add: world_ok_def no_batch_def)

lemma batch_encoded_nonempty: "Batch_ok b \<Longrightarrow> encoded (marshal Batch_fields b) \<noteq> []"
  by (simp add: batch.marshal_ok encoded_nonempty)

lemma batch_decoded: "Batch_ok b \<Longrightarrow> Unmarshal Batch_fields (encoded (marshal Batch_fields b)) Batch_zero = Some b"
  by (rule batch.Unmarshal_print) (auto simp: Batch_fields_def Batch_zero_def string_codec_def)

lemma refs_decoded:
  assumes "EvidenceRefs_ok r"
  shows "Unmarshal EvidenceRefs_fields (encoded (marshal EvidenceRefs_fields r))
           (EvidenceRefs_zero \<lparr> e_SchemaVersion := v, e_BatchID := i \<rparr>) = Some r"
  by (rule evidence_refs.Unmarshal_print [OF assms])
    (auto simp: EvidenceRefs_fields_def EvidenceRefs_zero_def string_codec_def)

lemma transfer_decoded:
  "Transfer_ok t \<Longrightarrow> Unmarshal Transfer_fields (encoded (marshal Transfer_fields t)) Transfer_zero = Some t"
  by (rule transfer.Unmarshal_print) (auto simp: Transfer_fields_def Transfer_zero_def string_codec_def)

lemma batch_here_iff: "world_ok f \<Longrightarrow> f ''batch'' [i] \<noteq> [] \<longleftrightarrow> (\<exists>b r. batch_here f i b r)"
  unfolding world_ok_def no_batch_def batch_here_def
  using batch_encoded_nonempty by (metis (no_types))

subsection \<open>What a case of the switch must provide\<close>

text \<open>
  A draft may write only the kinds of key below, leaves the pending transfers of other batches
  and every transfer of another batch alone, and keeps the stored transfers well formed.
\<close>

definition draft_kinds :: "bytes list" where
  "draft_kinds = [''documentReference'', ''costReference'', ''lot'', ''reportReference'', ''transfer'',
     ''pendingTransfer'']"

definition frame :: "public \<Rightarrow> public \<Rightarrow> bytes \<Rightarrow> bool" where
  "frame f g i \<longleftrightarrow>
     (\<forall>kind attrs. kind \<notin> set draft_kinds \<longrightarrow> g kind attrs = f kind attrs)
   \<and> (\<forall>j. j \<noteq> i \<longrightarrow> g ''pendingTransfer'' [j] = f ''pendingTransfer'' [j])
   \<and> (\<forall>t. stored_transfer f t \<longrightarrow> t_BatchID t \<noteq> i \<longrightarrow> stored_transfer g t)
   \<and> (\<forall>j. g ''transfer'' [j] = [] \<or> (\<exists>t. stored_transfer g t \<and> t_TransferID t = j))"

definition draft_ok :: "public \<Rightarrow> public \<Rightarrow> bytes \<Rightarrow> execution \<Rightarrow> Batch \<Rightarrow> draft \<Rightarrow> bool" where
  "draft_ok f g i x old d \<longleftrightarrow>
     frame f g i \<and> Batch_ok (advance x old (d_batch d))
   \<and> batch_shape i (advance x old (d_batch d)) \<and> b_Version (advance x old (d_batch d)) = b_Version old + 1
   \<and> EvidenceRefs_ok (d_refs d) \<and> refs_shape i (b_State (d_batch d)) (d_refs d)
   \<and> pending_world g (d_batch d)"

lemma advance_simps [simp]:
  "b_BatchID (advance x old b) = b_BatchID b"
  "b_State (advance x old b) = b_State b"
  "b_OwnerMSP (advance x old b) = b_OwnerMSP b"
  "b_CustodianMSP (advance x old b) = b_CustodianMSP b"
  "b_QuantityGrams (advance x old b) = b_QuantityGrams b"
  by (simp_all add: advance_def)

lemma pending_world_advance [simp]: "pending_world g (advance x old b) = pending_world g b"
  by (simp add: pending_world_def awaited_def)

lemma json_print_obj: "json_print (JObj ms) \<noteq> []"
  by simp

lemma encoded_marshal [simp]: "encoded (marshal fs r) \<noteq> []" "[] \<noteq> encoded (marshal fs r)"
  by (simp_all add: marshal_def)

text \<open>The kinds of key the shared end writes, against the others.\<close>

lemma settled_other:
  "kind \<notin> {''batch'', ''batchEvidence'', ''operation'', ''history'', ''owner'', ''state''} \<Longrightarrow>
     settled c x exists old d g kind attrs = g kind attrs"
  by (simp add: settled_def Let_def)

lemma settled_records:
  "settled c x exists old d g ''batch'' [j] =
     (if j = c_BatchID c then encoded (marshal Batch_fields (advance x old (d_batch d)))
      else g ''batch'' [j])"
  "settled c x exists old d g ''batchEvidence'' [j] =
     (if j = c_BatchID c then encoded (marshal EvidenceRefs_fields (d_refs d))
      else g ''batchEvidence'' [j])"
  "settled c x exists old d g ''history'' [j, v] =
     (if j = c_BatchID c \<and> v = format_padded (b_Version (advance x old (d_batch d)))
      then encoded (marshal Receipt_fields
             (receipt_for c x (advance x old (d_batch d)) (sortedUnique (d_ids d))))
      else g ''history'' [j, v])"
  "settled c x exists old d g ''owner'' [m, j] =
     (if exists \<and> b_OwnerMSP old \<noteq> b_OwnerMSP (d_batch d) \<and> m = b_OwnerMSP old
         \<and> j = b_BatchID (d_batch d) then []
      else if m = b_OwnerMSP (d_batch d) \<and> j = b_BatchID (d_batch d)
      then encoded (JStr (b_BatchID (d_batch d)))
      else g ''owner'' [m, j])"
  "settled c x exists old d g ''state'' [m, j] =
     (if exists \<and> b_State old \<noteq> b_State (d_batch d) \<and> m = b_State old
         \<and> j = b_BatchID (d_batch d) then []
      else if m = b_State (d_batch d) \<and> j = b_BatchID (d_batch d)
      then encoded (JStr (b_BatchID (d_batch d)))
      else g ''state'' [m, j])"
  by (auto simp: settled_def Let_def)

lemma frame_other: "frame f g i \<Longrightarrow> kind \<notin> set draft_kinds \<Longrightarrow> g kind attrs = f kind attrs"
  by (simp add: frame_def)

lemma frame_records:
  assumes "frame f g i"
  shows "g ''batch'' = f ''batch''" "g ''batchEvidence'' = f ''batchEvidence''"
    "g ''history'' = f ''history''" "g ''owner'' = f ''owner''" "g ''state'' = f ''state''"
    "g ''operation'' = f ''operation''"
  by (rule ext, rule frame_other [OF assms], simp add: draft_kinds_def)+

lemma pending_world_cong:
  "h ''transfer'' = g ''transfer'' \<Longrightarrow> h ''pendingTransfer'' = g ''pendingTransfer'' \<Longrightarrow>
     pending_world h b \<longleftrightarrow> pending_world g b"
  by (simp only: pending_world_def stored_transfer_def)

text \<open>Another batch does not notice.\<close>

lemma batch_here_frame:
  assumes here: "batch_here f j b r" and "j \<noteq> i" and fr: "frame f g i"
    and h: "\<And>kind attrs. kind \<notin> set evidence_kinds \<Longrightarrow> h kind attrs = settled c x exists old d g kind attrs"
    and i: "c_BatchID c = i" "b_BatchID (d_batch d) = i"
  shows "batch_here h j b r"
proof -
  have h1: "h ''batch'' [j] = f ''batch'' [j]" "h ''batchEvidence'' [j] = f ''batchEvidence'' [j]"
    "h ''history'' [j, v] = f ''history'' [j, v]" "h ''owner'' [m, j] = f ''owner'' [m, j]"
    "h ''state'' [m, j] = f ''state'' [m, j]" for m v
    using assms(2) i by (simp_all add: h evidence_kinds_def settled_records frame_records [OF fr])
  have h2: "h ''transfer'' = g ''transfer''" "h ''pendingTransfer'' = g ''pendingTransfer''"
    by (auto simp: fun_eq_iff h evidence_kinds_def settled_other)
  have j: "b_BatchID b = j" using here by (simp add: batch_here_def batch_shape_def)
  have "pending_world f b" using here by (simp add: batch_here_def)
  then have "pending_world h b"
    using fr assms(2) j
    by (auto simp: pending_world_def stored_transfer_def h2 frame_def awaited_def split: if_splits)
  then show ?thesis
    using here h1 j by (simp add: batch_here_def index_world_def)
qed

lemma no_batch_frame:
  assumes "no_batch f j" and "j \<noteq> i" and fr: "frame f g i"
    and h: "\<And>kind attrs. kind \<notin> set evidence_kinds \<Longrightarrow> h kind attrs = settled c x exists old d g kind attrs"
    and i: "c_BatchID c = i" "b_BatchID (d_batch d) = i"
  shows "no_batch h j"
  using assms(1,2) i fr
  by (simp add: no_batch_def h evidence_kinds_def settled_records frame_records [OF fr] settled_other)
    (simp add: frame_def)

text \<open>
  The batch of the command is well formed afterwards: its new record, its references, its
  indexes without stale entries, its history one entry longer.
\<close>

lemma batch_here_settled:
  assumes ok: "draft_ok f g i x old d"
    and h: "\<And>kind attrs. kind \<notin> set evidence_kinds \<Longrightarrow> h kind attrs = settled c x exists old d g kind attrs"
    and i: "c_BatchID c = i"
    and old: "if exists then \<exists>r. batch_here f i old r else no_batch f i \<and> b_Version old = 0"
  shows "batch_here h i (advance x old (d_batch d)) (d_refs d)"
proof -
  let ?b = "advance x old (d_batch d)"
  have fr: "frame f g i" and shape: "batch_shape i ?b" and version: "b_Version ?b = b_Version old + 1"
    using ok by (simp_all add: draft_ok_def)
  then have id: "b_BatchID (d_batch d) = i" by (simp add: batch_shape_def)
  have vold: "0 \<le> b_Version old"
    using old by (auto simp: batch_here_def batch_shape_def split: if_splits)
  have own: "h ''owner'' [m, i] = (if m = b_OwnerMSP ?b then encoded (JStr i) else [])" for m
    using old id
    by (auto simp: h evidence_kinds_def settled_records frame_records [OF fr] batch_here_def
        index_world_def no_batch_def batch_shape_def split: if_splits)
  have sta: "h ''state'' [m, i] = (if m = b_State ?b then encoded (JStr i) else [])" for m
    using old id
    by (auto simp: h evidence_kinds_def settled_records frame_records [OF fr] batch_here_def
        index_world_def no_batch_def batch_shape_def split: if_splits)
  have before: "f ''history'' [i, v] \<noteq> [] \<longleftrightarrow> (\<exists>n. 1 \<le> n \<and> n \<le> b_Version old \<and> v = format_padded n)" for v
    using old by (auto simp: batch_here_def index_world_def no_batch_def batch_shape_def split: if_splits)
  have one_more: "(\<exists>n. 1 \<le> n \<and> n \<le> b_Version ?b \<and> v = format_padded n) \<longleftrightarrow>
      v = format_padded (b_Version ?b) \<or> (\<exists>n. 1 \<le> n \<and> n \<le> b_Version old \<and> v = format_padded n)" for v
  proof -
    have "n \<le> b_Version old + 1 \<longleftrightarrow> n \<le> b_Version old \<or> n = b_Version old + 1" for n by linarith
    moreover have "1 \<le> b_Version old + 1" using vold by simp
    ultimately show ?thesis unfolding version by blast
  qed
  have his: "h ''history'' [i, v] \<noteq> [] \<longleftrightarrow> (\<exists>n. 1 \<le> n \<and> n \<le> b_Version ?b \<and> v = format_padded n)" for v
    unfolding one_more before [symmetric]
    by (simp add: h evidence_kinds_def settled_records frame_records [OF fr] i)
  have h2: "h ''transfer'' = g ''transfer''" "h ''pendingTransfer'' = g ''pendingTransfer''"
    by (auto simp: fun_eq_iff h evidence_kinds_def settled_other)
  have "pending_world h (d_batch d)"
    using ok by (simp add: draft_ok_def pending_world_cong [OF h2])
  moreover have "index_world h ?b"
    using own sta his id by (simp add: index_world_def)
  moreover have "h ''batch'' [i] = encoded (marshal Batch_fields ?b)"
    "h ''batchEvidence'' [i] = encoded (marshal EvidenceRefs_fields (d_refs d))"
    using i by (simp_all add: h evidence_kinds_def settled_records)
  ultimately show ?thesis
    using ok by (simp add: batch_here_def draft_ok_def)
qed

text \<open>Whatever provides a \<open>draft_ok\<close> keeps the invariant.\<close>

lemma world_ok_settled:
  assumes world: "world_ok f" and ok: "draft_ok f g i x old d"
    and h: "\<And>kind attrs. kind \<notin> set evidence_kinds \<Longrightarrow> h kind attrs = settled c x exists old d g kind attrs"
    and i: "c_BatchID c = i"
    and old: "if exists then \<exists>r. batch_here f i old r else no_batch f i \<and> b_Version old = 0"
  shows "world_ok h"
proof -
  have fr: "frame f g i" and id: "b_BatchID (d_batch d) = i"
    using ok by (simp_all add: draft_ok_def batch_shape_def)
  have h2: "h ''transfer'' = g ''transfer''"
    by (auto simp: fun_eq_iff h evidence_kinds_def settled_other)
  have "no_batch h j \<or> (\<exists>b r. batch_here h j b r)" for j
  proof (cases "j = i")
    case True
    then show ?thesis using batch_here_settled [OF ok h i old] by blast
  next
    case False
    then show ?thesis
      using world batch_here_frame [OF _ False fr h i id] no_batch_frame [OF _ False fr h i id]
      by (meson world_ok_def)
  qed
  moreover have "h ''transfer'' [j] = [] \<or> (\<exists>t. stored_transfer h t \<and> t_TransferID t = j)" for j
    using fr by (simp add: stored_transfer_def h2 frame_def)
  ultimately show ?thesis by (simp add: world_ok_def)
qed

text \<open>The record at a key determines the batch; unrelated keys do not matter.\<close>

lemma batch_here_unique:
  assumes "batch_here f i b r" "batch_here f i b' r'"
  shows "b = b'" "r = r'"
proof -
  have "encoded (marshal Batch_fields b) = encoded (marshal Batch_fields b')" "Batch_ok b" "Batch_ok b'"
    using assms by (simp_all only: batch_here_def)
  then have "Some b = Some b'" using batch_decoded by metis
  then show "b = b'" by (rule option.inject [THEN iffD1])
  have "encoded (marshal EvidenceRefs_fields r) = encoded (marshal EvidenceRefs_fields r')"
    "EvidenceRefs_ok r" "EvidenceRefs_ok r'"
    using assms by (simp_all only: batch_here_def)
  then have "Some r = Some r'" using refs_decoded by metis
  then show "r = r'" by (rule option.inject [THEN iffD1])
qed

lemma batch_here_cong:
  assumes "\<And>kind attrs. kind \<in> {''batch'', ''batchEvidence'', ''history'', ''owner'', ''state'',
      ''transfer'', ''pendingTransfer''} \<Longrightarrow> h kind attrs = f kind attrs"
    and "batch_here f i b r"
  shows "batch_here h i b r"
proof -
  have eq: "h ''batch'' = f ''batch''" "h ''batchEvidence'' = f ''batchEvidence''"
    "h ''history'' = f ''history''" "h ''owner'' = f ''owner''" "h ''state'' = f ''state''"
    "h ''transfer'' = f ''transfer''" "h ''pendingTransfer'' = f ''pendingTransfer''"
    by (rule ext, rule assms(1), simp)+
  show ?thesis
    using assms(2)
    unfolding batch_here_def index_world_def pending_world_def stored_transfer_def eq .
qed

end
