(* ===== verification/Commands.thy ===== *)
theory Commands
  imports World
begin

text \<open>
  Every command of the engine keeps the invariant of the public ledger, and moves the batch as
  the custody lifecycle says: one lemma per case of the switch, then the whole of \<open>apply\<close>.
\<close>

subsection \<open>The context of a command\<close>

lemma valid_context_time: "valid_context x \<Longrightarrow> TxTime_ok (x_Time x)"
proof -
  assume "valid_context x"
  then obtain n where "FormatInt n = tm_Seconds (x_Time x)" "0 \<le> tm_Nanos (x_Time x)"
    "tm_Nanos (x_Time x) \<le> 999999999"
    by (auto simp: valid_context_def split: option.splits)
  then show ?thesis
    using printable_text_ok [OF FormatInt_printable [of n]] by (simp add: TxTime_ok_def int_ok_def)
qed

lemma advance_version:
  "0 \<le> b_Version old \<Longrightarrow> b_Version old < 2147483647 \<Longrightarrow>
     b_Version (advance x old b) = b_Version old + 1"
  by (simp add: advance_def wrap64_def)

lemma advance_ok:
  assumes "Batch_ok b" "0 \<le> b_Version old" "b_Version old < 2147483647" "match_hexID (x_TxID x)"
    "valid_context x"
  shows "Batch_ok (advance x old b)"
  using assms hexID_text [OF assms(4)] valid_context_time [OF assms(5)]
  by (simp add: Batch_ok_def advance_def wrap64_def int_ok_def)

lemma payload_of_eq: "Unmarshal fs (c_Payload c) z = Some p \<Longrightarrow> payload_of fs z c = p"
  by (simp add: payload_of_def)

lemma frame_references:
  assumes "world_ok f"
    and "\<And>kind attrs. kind \<notin> {''documentReference'', ''costReference'', ''lot'', ''reportReference''}
           \<Longrightarrow> g kind attrs = f kind attrs"
  shows "frame f g i"
proof -
  have eq: "g ''transfer'' = f ''transfer''" "g ''pendingTransfer'' = f ''pendingTransfer''"
    using assms(2) by (auto simp: fun_eq_iff)
  show ?thesis
    using assms(1) assms(2) by (auto simp: frame_def draft_kinds_def eq stored_transfer_def world_ok_def)
qed

context ledger_store begin

lemma apply_checks_facts:
  assumes checks: "apply_checks L s c x = Inr (exists, b, refs)" and s: "fresh s"
    and world: "world_ok (at L (view s))"
  shows "permitted (x_Actor x) (x_Role x) (c_Command c)" "validatePayload c = Inr ()"
    "match_hexID (x_TxID x)" "valid_context x"
    "at L (view s) ''operation'' [x_Actor x, c_OperationID c] = []"
    "c_Command c = ''CreateBatch'' \<longleftrightarrow> \<not> exists"
    "b_Version b = c_ExpectedVersion c" "b_Version b \<noteq> 2147483647"
    "if exists then batch_here (at L (view s)) (c_BatchID c) b refs
     else no_batch (at L (view s)) (c_BatchID c) \<and> b = Batch_zero
       \<and> refs = EvidenceRefs_zero \<lparr> e_SchemaVersion := ''agrochain.batch-evidence.v1'',
                                   e_BatchID := c_BatchID c \<rparr>"
proof -
  let ?f = "at L (view s)" and ?i = "c_BatchID c"
  let ?refs = "EvidenceRefs_zero \<lparr> e_SchemaVersion := ''agrochain.batch-evidence.v1'', e_BatchID := ?i \<rparr>"
  obtain ok bk where
    ok: "CreateCompositeKey L ''operation'' [x_Actor x, c_OperationID c] = Some ok"
      "absent L s ok ''DUPLICATE_TRANSACTION'' = Inr ()" and
    bk: "CreateCompositeKey L ''batch'' [?i] = Some bk"
      "load L s bk (struct_codec Batch_fields) Batch_zero = Inr (exists, b)" and
    refs: "if exists
       then \<exists>rk found. CreateCompositeKey L ''batchEvidence'' [?i] = Some rk
          \<and> load L s rk (struct_codec EvidenceRefs_fields) ?refs = Inr (found, refs)
       else refs = ?refs" and
    rest: "permitted (x_Actor x) (x_Role x) (c_Command c)" "validatePayload c = Inr ()"
    "match_hexID (x_TxID x)" "valid_context x" "c_Command c = ''CreateBatch'' \<longleftrightarrow> \<not> exists"
    "b_Version b = c_ExpectedVersion c" "b_Version b \<noteq> 2147483647"
    using checks
    by (auto simp: apply_checks_def rbind_eq_Inr key_eq_Inr authorize_permitted Let_def split: if_splits)
  show "permitted (x_Actor x) (x_Role x) (c_Command c)" "validatePayload c = Inr ()"
    "match_hexID (x_TxID x)" "valid_context x" "c_Command c = ''CreateBatch'' \<longleftrightarrow> \<not> exists"
    "b_Version b = c_ExpectedVersion c" "b_Version b \<noteq> 2147483647"
    by (fact rest)+
  show "?f ''operation'' [x_Actor x, c_OperationID c] = []"
    using absent_view [OF ok(2) s] ok(1) by (simp add: at_key)
  note lv = load_view [OF bk(2) s]
  show "if exists then batch_here ?f ?i b refs else no_batch ?f ?i \<and> b = Batch_zero \<and> refs = ?refs"
  proof (cases exists)
    case True
    then have "?f ''batch'' [?i] \<noteq> []" using lv(1) bk(1) by (simp add: at_key)
    then obtain b0 r0 where here: "batch_here ?f ?i b0 r0" using batch_here_iff [OF world] by blast
    then have b: "b0 = b" using lv(2) [OF True] bk(1)
      by (simp add: batch_here_def at_key batch_decoded)
    obtain rk found where rk: "CreateCompositeKey L ''batchEvidence'' [?i] = Some rk"
      "load L s rk (struct_codec EvidenceRefs_fields) ?refs = Inr (found, refs)"
      using refs True by auto
    have "view s rk = encoded (marshal EvidenceRefs_fields r0)" "EvidenceRefs_ok r0"
      using here rk(1) by (simp_all add: batch_here_def at_key)
    then have "refs = r0"
      using load_view(1,2) [OF rk(2) s] by (simp add: refs_decoded)
    with here b True show ?thesis by simp
  next
    case False
    then have "?f ''batch'' [?i] = []" using lv(1) bk(1) by (simp add: at_key)
    then have "no_batch ?f ?i" using world batch_here_iff [OF world] by (meson world_ok_def)
    with False lv(3) refs show ?thesis by simp
  qed
qed

lemma consume_effect:
  assumes "consumeDocument L s doc c p = Inr q"
  shows "validID doc ''DOC''"
    and "kind \<noteq> ''documentReference'' \<Longrightarrow>
       at L (outcome (map_of q) w) kind attrs = at L (outcome (map_of p) w) kind attrs"
  using assms by (auto simp: consumeDocument_def rbind_eq_Inr key_eq_Inr at_upd split: if_splits)

subsection \<open>The cases of the switch\<close>

lemma analysis_draft:
  assumes "apply_analysis c b refs = Inr d" and here: "batch_here (at L (view s)) i b refs"
    and world: "world_ok (at L (view s))" and "b_Version b \<noteq> 2147483647"
    and x: "match_hexID (x_TxID x)" "valid_context x"
  shows "draft_ok (at L (view s)) (at L (outcome (map_of (d_plan d)) (view s))) i x b d"
proof -
  have d: "d_batch d = b" "d_refs d = refs" "d_plan d = []"
    using assms(1) by (auto simp: apply_analysis_def Let_def split: if_splits)
  have v: "1 \<le> b_Version b" "b_Version b < 2147483647"
    using here assms(4) by (auto simp: batch_here_def batch_shape_def)
  have "frame (at L (view s)) (at L (view s)) i" by (rule frame_references [OF world]) simp
  then show ?thesis
    using here v advance_ok [of b b x] advance_version [of b x b] x
    by (simp add: draft_ok_def d batch_here_def batch_shape_def)
      (simp add: advance_def)
qed

lemma create_draft:
  assumes draft: "apply_create L s c x refs v = Inr d" and none: "no_batch (at L (view s)) (c_BatchID c)"
    and world: "world_ok (at L (view s))" and payload: "validatePayload c = Inr ()"
    and cmd: "c_Command c = ''CreateBatch''" "validID (c_BatchID c) ''BAT''"
    and refs: "refs = EvidenceRefs_zero \<lparr> e_SchemaVersion := ''agrochain.batch-evidence.v1'',
                                          e_BatchID := c_BatchID c \<rparr>"
    and x: "match_hexID (x_TxID x)" "valid_context x" "x_Actor x = Producer"
  shows "draft_ok (at L (view s)) (at L (outcome (map_of (d_plan d)) (view s))) (c_BatchID c) x Batch_zero d"
proof -
  obtain p where p: "Unmarshal createInput_fields (c_Payload c) createInput_zero = Some p"
    "1 \<le> ci_QuantityGrams p" "ci_QuantityGrams p \<le> 100000000"
    "ci_ProductCode p = ''TOMATO''" "ci_GradeCode p = ''STANDARD''"
    "ci_LogisticsMSP p = Logistics" "ci_IntendedRetailerMSP p = Retailer"
    "text_ok (ci_OriginRegionCode p)" "validHarvestDate (ci_HarvestDate p)"
    using validate_create [OF payload cmd(1)] by blast
  let ?b = "new_batch c x p"
  obtain plan where plan: "consumeDocument L s (v_CKS v) c [] = Inr plan"
    and d: "d_batch d = ?b" "d_refs d = refs \<lparr> e_CKSDocumentID := v_CKS v \<rparr>" "d_plan d = plan"
    using draft by (auto simp: apply_create_def Let_def rbind_eq_Inr payload_of_eq [OF p(1)] split: if_splits)
  let ?g = "at L (outcome (map_of plan) (view s))"
  have g: "kind \<noteq> ''documentReference'' \<Longrightarrow> ?g kind attrs = at L (view s) kind attrs" for kind attrs
    using consume_effect(2) [OF plan, of kind "view s" attrs] by simp
  have "frame (at L (view s)) ?g (c_BatchID c)" by (rule frame_references [OF world]) (simp add: g)
  moreover have "Batch_ok ?b"
    using p validID_text [OF cmd(2)] validHarvestDate_text [OF p(9)] hexID_text [OF x(1)] x(3)
    by (simp add: Batch_ok_def new_batch_def Batch_zero_def TxTime_zero_def TxTime_ok_def int_ok_def
        msp_defs state_defs)
  then have "Batch_ok (advance x Batch_zero ?b)"
    using x by (intro advance_ok) (simp_all add: Batch_zero_def)
  moreover have "pending_world ?g ?b"
    using none by (simp add: pending_world_def pending_state_def new_batch_def g no_batch_def)
  moreover have "batch_shape (c_BatchID c) (advance x Batch_zero ?b)"
    using p(2-7) cmd(2) x(3)
    by (simp add: batch_shape_def advance_def new_batch_def Batch_zero_def validState_def owner_at_def
        custodian_at_def wrap64_def)
  moreover have "EvidenceRefs_ok (d_refs d)"
    using validID_text [OF cmd(2)] validID_text [OF consume_effect(1) [OF plan]]
    by (simp add: d refs EvidenceRefs_ok_def EvidenceRefs_zero_def)
  moreover have "refs_shape (c_BatchID c) Created (d_refs d)"
    using validID_nonempty [OF consume_effect(1) [OF plan]]
    by (simp add: d refs refs_shape_def EvidenceRefs_zero_def)
  ultimately show ?thesis
    by (simp add: draft_ok_def d) (simp add: new_batch_def advance_def Batch_zero_def wrap64_def)
qed

lemma freight_draft:
  assumes draft: "apply_freight L s c x b refs v = Inr d"
    and here: "batch_here (at L (view s)) i b refs" and world: "world_ok (at L (view s))"
    and "b_Version b \<noteq> 2147483647"
    and payload: "validatePayload c = Inr ()" and cmd: "c_Command c = ''RecordFreightCost''"
    and x: "match_hexID (x_TxID x)" "valid_context x"
  shows "draft_ok (at L (view s)) (at L (outcome (map_of (d_plan d)) (view s))) i x b d"
proof -
  obtain p where p: "Unmarshal freightInput_fields (c_Payload c) freightInput_zero = Some p"
    "validID (fi_CostID p) ''CST''"
    using validate_freight [OF payload cmd] by blast
  obtain k where k: "CreateCompositeKey L ''costReference'' [fi_CostID p] = Some k"
    and d: "d_batch d = b" "d_refs d = refs \<lparr> e_FreightCostID := fi_CostID p \<rparr>"
    and plan: "map_of (d_plan d) = [k \<mapsto> Some (encoded (JStr (c_BatchID c)))]"
    and st: "b_State b = InTransport \<or> b_State b = DeliveryPending"
    using draft
    by (auto simp: apply_freight_def Let_def rbind_eq_Inr key_eq_Inr payload_of_eq [OF p(1)] split: if_splits)
  let ?g = "at L (outcome (map_of (d_plan d)) (view s))"
  have g: "kind \<noteq> ''costReference'' \<Longrightarrow> ?g kind attrs = at L (view s) kind attrs" for kind attrs
    by (simp add: plan at_upd [OF k] del: json_print.simps json_sort.simps)
  have fr: "frame (at L (view s)) ?g i" by (rule frame_references [OF world]) (simp add: g)
  have v: "1 \<le> b_Version b" "b_Version b < 2147483647"
    using here assms(4) by (auto simp: batch_here_def batch_shape_def)
  have "pending_world ?g b \<longleftrightarrow> pending_world (at L (view s)) b"
    by (rule pending_world_cong) (simp_all add: fun_eq_iff g)
  moreover have "refs_shape i (b_State b) (d_refs d)" "EvidenceRefs_ok (d_refs d)"
    using here st validID_nonempty [OF p(2)] validID_text [OF p(2)] validID_printable [OF p(2)]
    by (auto simp: batch_here_def refs_shape_def EvidenceRefs_ok_def d)
  ultimately show ?thesis
    using here v advance_ok [of b b x] advance_version [of b x b] x fr
    by (simp add: draft_ok_def d batch_here_def batch_shape_def)
      (simp add: advance_def)
qed

lemma report_draft:
  assumes draft: "apply_report L s c x b refs v = Inr d"
    and here: "batch_here (at L (view s)) i b refs" and world: "world_ok (at L (view s))"
    and "b_Version b \<noteq> 2147483647"
    and payload: "validatePayload c = Inr ()" and cmd: "c_Command c = ''ReportRetailPrice''"
    and x: "match_hexID (x_TxID x)" "valid_context x"
  shows "draft_ok (at L (view s)) (at L (outcome (map_of (d_plan d)) (view s))) i x b d"
proof -
  obtain p where p: "Unmarshal reportInput_fields (c_Payload c) reportInput_zero = Some p"
    "validID (ri_ReportID p) ''RPT''" "validID (ri_RetailLotID p) ''LOT''" "validID (ri_PolicyID p) ''CFG''"
    using validate_report [OF payload cmd] by blast
  obtain k1 k2 w1 w2 where k: "CreateCompositeKey L ''lot'' [ri_RetailLotID p] = Some k1"
      "CreateCompositeKey L ''reportReference'' [ri_ReportID p] = Some k2"
    and d: "d_batch d = b \<lparr> b_RetailLotID := ri_RetailLotID p, b_State := RetailReported \<rparr>"
      "d_refs d = refs \<lparr> e_RetailReportID := ri_ReportID p \<rparr>"
    and plan: "d_plan d = put_entry k2 (Some w2) (put_entry k1 (Some w1) [])"
    and st: "b_State b = Received"
    using draft
    by (auto simp: apply_report_def Let_def rbind_eq_Inr key_eq_Inr payload_of_eq [OF p(1)]
        split: if_splits simp del: put_entry.simps)
  let ?g = "at L (outcome (map_of (d_plan d)) (view s))"
  have g: "kind \<noteq> ''lot'' \<Longrightarrow> kind \<noteq> ''reportReference'' \<Longrightarrow> ?g kind attrs = at L (view s) kind attrs"
    for kind attrs
    by (simp add: plan at_upd [OF k(1)] at_upd [OF k(2)] del: put_entry.simps)
  have fr: "frame (at L (view s)) ?g i" by (rule frame_references [OF world]) (simp add: g)
  have v: "1 \<le> b_Version b" "b_Version b < 2147483647"
    using here assms(4) by (auto simp: batch_here_def batch_shape_def)
  have "pending_world ?g (d_batch d)"
    using here st by (auto simp: pending_world_def pending_state_def g d batch_here_def batch_shape_def)
  moreover have "refs_shape i RetailReported (d_refs d)" "EvidenceRefs_ok (d_refs d)"
    using here st validID_nonempty [OF p(2)] validID_text [OF p(2)] validID_printable [OF p(2)]
    by (auto simp: batch_here_def refs_shape_def EvidenceRefs_ok_def d)
  moreover have "Batch_ok (d_batch d)"
    using here validID_text [OF p(3)] by (simp add: d batch_here_def Batch_ok_def state_defs)
  then have "Batch_ok (advance x b (d_batch d))"
    using v x by (intro advance_ok) simp_all
  moreover have "batch_shape i (advance x b (d_batch d))"
    using here st v validID_nonempty [OF p(3)]
    by (simp add: d batch_here_def batch_shape_def advance_def validState_def owner_at_def
        custodian_at_def wrap64_def)
  ultimately show ?thesis
    using here v advance_version [of b x "d_batch d"] fr
    by (simp add: draft_ok_def) (simp add: d)
qed

lemma offer_evidence:
  assumes "offer_pickup_evidence L s c b refs v = Inr (refs', plan, ids)"
  shows "refs' = refs \<lparr> e_PurchaseDocumentID := v_Purchase v, e_HKSDocumentID := v_HKS v,
                         e_TransportDocumentID := v_Manifest v \<rparr>"
    and "validID (v_Purchase v) ''DOC''" "validID (v_HKS v) ''DOC''" "validID (v_Manifest v) ''DOC''"
    and "kind \<noteq> ''documentReference'' \<Longrightarrow> at L (outcome (map_of plan) w) kind attrs = at L w kind attrs"
proof -
  obtain p1 p2 where p: "consumeDocument L s (v_Purchase v) c [] = Inr p1"
    "consumeDocument L s (v_HKS v) c p1 = Inr p2" "consumeDocument L s (v_Manifest v) c p2 = Inr plan"
    and refs: "refs' = refs \<lparr> e_PurchaseDocumentID := v_Purchase v, e_HKSDocumentID := v_HKS v,
                         e_TransportDocumentID := v_Manifest v \<rparr>"
    using assms
    by (auto simp: offer_pickup_evidence_def rbind_eq_Inr consume_and_note_def split: if_splits)
  show "refs' = refs \<lparr> e_PurchaseDocumentID := v_Purchase v, e_HKSDocumentID := v_HKS v,
                         e_TransportDocumentID := v_Manifest v \<rparr>"
    by (fact refs)
  show "validID (v_Purchase v) ''DOC''" "validID (v_HKS v) ''DOC''" "validID (v_Manifest v) ''DOC''"
    using p consume_effect(1) by blast+
  show "kind \<noteq> ''documentReference'' \<Longrightarrow> at L (outcome (map_of plan) w) kind attrs = at L w kind attrs"
    using consume_effect(2) [OF p(1)] consume_effect(2) [OF p(2)] consume_effect(2) [OF p(3)] by simp
qed

text \<open>A new or changed transfer of the batch itself respects the frame.\<close>

lemma frame_transfer:
  assumes world: "world_ok f" and t: "Transfer_ok t" "t_BatchID t = i" "t_TransferID t = j"
    and g: "g ''transfer'' [j] = encoded (marshal Transfer_fields t)"
      "\<And>j'. j' \<noteq> j \<Longrightarrow> g ''transfer'' [j'] = f ''transfer'' [j']"
      "\<And>i'. i' \<noteq> i \<Longrightarrow> g ''pendingTransfer'' [i'] = f ''pendingTransfer'' [i']"
      "\<And>kind attrs. kind \<notin> set draft_kinds \<Longrightarrow> g kind attrs = f kind attrs"
    and before: "f ''transfer'' [j] = [] \<or> (\<exists>t0. stored_transfer f t0 \<and> t_TransferID t0 = j \<and> t_BatchID t0 = i)"
  shows "frame f g i"
proof -
  have "stored_transfer g t0" if t0: "stored_transfer f t0" "t_BatchID t0 \<noteq> i" for t0
  proof -
    have "t_TransferID t0 \<noteq> j"
    proof
      assume j: "t_TransferID t0 = j"
      with t0 before obtain t1 where t1: "stored_transfer f t1" "t_TransferID t1 = j" "t_BatchID t1 = i"
        by (auto simp: stored_transfer_def)
      with t0 j have "Unmarshal Transfer_fields (encoded (marshal Transfer_fields t1)) Transfer_zero
          = Unmarshal Transfer_fields (encoded (marshal Transfer_fields t0)) Transfer_zero"
        by (simp add: stored_transfer_def)
      with t0 t1 show False by (simp add: stored_transfer_def transfer_decoded)
    qed
    with t0 g(2) show ?thesis by (simp add: stored_transfer_def)
  qed
  moreover have "g ''transfer'' [j'] = [] \<or> (\<exists>t. stored_transfer g t \<and> t_TransferID t = j')" for j'
  proof (cases "j' = j")
    case True
    then show ?thesis using t g(1) by (auto simp: stored_transfer_def)
  next
    case False
    have "f ''transfer'' [j'] = [] \<or> (\<exists>t. stored_transfer f t \<and> t_TransferID t = j')"
      using world by (simp add: world_ok_def)
    then show ?thesis using g(2) [OF False] by (auto simp: stored_transfer_def)
  qed
  ultimately show ?thesis using g(3,4) by (simp add: frame_def)
qed

lemma offer_cases:
  fixes c :: Command
  defines "delivery \<equiv> c_Command c = ''OfferDelivery''"
    and "p \<equiv> payload_of handoffInput_fields handoffInput_zero c"
  assumes "apply_offer L s c x b refs v = Inr d"
  obtains pk tk refs' plan ids where
    "b_State b = (if delivery then InTransport else Created)" "x_Actor x = b_CustodianMSP b"
    "CreateCompositeKey L ''pendingTransfer'' [b_BatchID b] = Some pk"
    "CreateCompositeKey L ''transfer'' [hi_TransferID p] = Some tk"
    "absent L s tk ''TRANSFER_ALREADY_EXISTS'' = Inr ()"
    "(if (if delivery then ''DELIVERY'' else ''PICKUP'') = ''PICKUP''
      then offer_pickup_evidence L s c b refs v
      else if e_TransportDocumentID refs = [] then Inl (fail ''MISSING_EVIDENCE'')
      else Inr (refs, [], [c_BatchID c])) = Inr (refs', plan, ids)"
    "d_batch d = b \<lparr> b_State := (if delivery then DeliveryPending else PickupPending) \<rparr>" "d_refs d = refs'"
    "d_plan d = put_entry pk (Some (encoded (JStr (hi_TransferID p))))
        (put_entry tk (Some (encoded (marshal Transfer_fields (Transfer_zero
     \<lparr> t_SchemaVersion := ''agrochain.custody-transfer.v1'', t_TransferID := hi_TransferID p,
       t_BatchID := b_BatchID b, t_Kind := (if delivery then ''DELIVERY'' else ''PICKUP''),
       t_Status := ''OFFERED'', t_FromMSP := x_Actor x,
       t_ToMSP := (if delivery then b_IntendedRetailerMSP b else b_LogisticsMSP b),
       t_QuantityGrams := b_QuantityGrams b,
       t_OfferOperationID := c_OperationID c, t_OfferedTxID := x_TxID x \<rparr>)))) plan)"
  using assms(3) unfolding apply_offer_def Let_def delivery_def p_def
  by (clarsimp simp only: if_Inl_eq_Inr rbind_eq_Inr key_eq_Inr put_Some split: prod.splits) force

lemma offer_draft:
  assumes draft: "apply_offer L s c x b refs v = Inr d" and s: "fresh s"
    and here: "batch_here (at L (view s)) i b refs" and world: "world_ok (at L (view s))"
    and "b_Version b \<noteq> 2147483647" and payload: "validatePayload c = Inr ()"
    and cmd: "c_Command c = ''OfferPickup'' \<or> c_Command c = ''OfferDelivery''" "validID (c_OperationID c) ''OP''"
    and x: "match_hexID (x_TxID x)" "valid_context x" "member (x_Actor x)"
  shows "draft_ok (at L (view s)) (at L (outcome (map_of (d_plan d)) (view s))) i x b d"
proof -
  let ?delivery = "c_Command c = ''OfferDelivery''"
  let ?kind = "if ?delivery then ''DELIVERY'' else ''PICKUP''"
  let ?next = "if ?delivery then DeliveryPending else PickupPending"
  obtain p where p: "Unmarshal handoffInput_fields (c_Payload c) handoffInput_zero = Some p"
    "validID (hi_TransferID p) ''TRF''"
    using validate_handoff [OF payload] cmd by blast
  let ?t = "Transfer_zero
     \<lparr> t_SchemaVersion := ''agrochain.custody-transfer.v1'', t_TransferID := hi_TransferID p,
       t_BatchID := b_BatchID b, t_Kind := ?kind, t_Status := ''OFFERED'',
       t_FromMSP := x_Actor x,
       t_ToMSP := (if ?delivery then b_IntendedRetailerMSP b else b_LogisticsMSP b),
       t_QuantityGrams := b_QuantityGrams b,
       t_OfferOperationID := c_OperationID c, t_OfferedTxID := x_TxID x \<rparr>"
  have payload_p: "payload_of handoffInput_fields handoffInput_zero c = p" by (rule payload_of_eq [OF p(1)])
  obtain pk tk refs' plan ids where
    st: "b_State b = (if ?delivery then InTransport else Created)"
    and actor: "x_Actor x = b_CustodianMSP b"
    and k: "CreateCompositeKey L ''pendingTransfer'' [b_BatchID b] = Some pk"
      "CreateCompositeKey L ''transfer'' [hi_TransferID p] = Some tk"
    and ab: "absent L s tk ''TRANSFER_ALREADY_EXISTS'' = Inr ()"
    and ev: "(if ?kind = ''PICKUP'' then offer_pickup_evidence L s c b refs v
              else if e_TransportDocumentID refs = [] then Inl (fail ''MISSING_EVIDENCE'')
              else Inr (refs, [], [c_BatchID c])) = Inr (refs', plan, ids)"
    and d: "d_batch d = b \<lparr> b_State := ?next \<rparr>" "d_refs d = refs'"
    and plan: "d_plan d = put_entry pk (Some (encoded (JStr (hi_TransferID p))))
        (put_entry tk (Some (encoded (marshal Transfer_fields ?t))) plan)"
    by (rule offer_cases [OF draft, unfolded payload_p])
  let ?f = "at L (view s)" and ?g = "at L (outcome (map_of (d_plan d)) (view s))"
  have b: "Batch_ok b" "batch_shape i b" "b_BatchID b = i" "1 \<le> b_Version b" "b_Version b < 2147483647"
    and r: "EvidenceRefs_ok refs" "refs_shape i (b_State b) refs"
    using here assms(5) by (auto simp: batch_here_def batch_shape_def)
  have g: "?g kind attrs =
      (if kind = ''pendingTransfer'' \<and> attrs = [i] then encoded (JStr (hi_TransferID p))
       else if kind = ''transfer'' \<and> attrs = [hi_TransferID p] then encoded (marshal Transfer_fields ?t)
       else at L (outcome (map_of plan) (view s)) kind attrs)" for kind attrs
    unfolding plan using b(3) by (simp add: at_upd [OF k(1)] at_upd [OF k(2)] del: json_print.simps)
  have pl: "kind \<noteq> ''documentReference'' \<Longrightarrow> at L (outcome (map_of plan) (view s)) kind attrs = ?f kind attrs"
    for kind attrs
    using ev offer_evidence(5) by (auto split: if_splits)
  have t: "Transfer_ok ?t" "t_BatchID ?t = i" "t_TransferID ?t = hi_TransferID p"
    using b validID_text [OF p(2)] validID_text [OF cmd(2)] member_text [OF x(3)] hexID_text [OF x(1)]
    by (auto simp: Transfer_ok_def Transfer_zero_def Batch_ok_def)
  have free: "?f ''transfer'' [hi_TransferID p] = []"
    using absent_view [OF ab s] k(2) by (simp add: at_key)
  have "frame ?f ?g i"
    by (rule frame_transfer [OF world t]) (auto simp: g pl free draft_kinds_def simp del: json_print.simps)
  moreover have "pending_world ?g (d_batch d)"
  proof -
    have "stored_transfer ?g ?t" using t by (simp add: stored_transfer_def g)
    moreover have "awaited (d_batch d) ?t"
      using b(2) actor by (auto simp: awaited_def d batch_shape_def)
    moreover have "?g ''pendingTransfer'' [b_BatchID (d_batch d)] = encoded (JStr (t_TransferID ?t))"
      using b(3) by (simp add: g d)
    moreover have "pending_state (b_State (d_batch d))" by (simp add: pending_state_def d)
    ultimately show ?thesis unfolding pending_world_def by (simp only: if_True) blast
  qed
  moreover have "refs_shape i ?next refs'" "EvidenceRefs_ok refs'"
    using ev r st offer_evidence(1-4) [of s c b refs v refs' plan ids]
    by (auto simp: refs_shape_def EvidenceRefs_ok_def validID_nonempty validID_text validID_printable
        split: if_splits)
  moreover have "Batch_ok (advance x b (d_batch d))"
    using b x by (intro advance_ok) (simp_all add: d Batch_ok_def state_defs)
  moreover have "batch_shape i (advance x b (d_batch d))"
    using b st
    by (cases ?delivery) (simp_all add: batch_shape_def d owner_at_def custodian_at_def validState_def
        advance_def wrap64_def)
  ultimately show ?thesis
    using b advance_version [of b x "d_batch d"] by (simp add: draft_ok_def) (simp add: d)
qed

lemma accept_cases:
  fixes c :: Command
  defines "delivery \<equiv> c_Command c = ''AcceptDelivery''"
    and "p \<equiv> payload_of handoffInput_fields handoffInput_zero c"
  assumes "apply_accept L s c x b refs = Inr d"
  obtains tk t pk ak where
    "CreateCompositeKey L ''transfer'' [hi_TransferID p] = Some tk"
    "CreateCompositeKey L ''pendingTransfer'' [b_BatchID b] = Some pk"
    "CreateCompositeKey L ''transfer'' [t_TransferID t] = Some ak"
    "load L s tk (struct_codec Transfer_fields) Transfer_zero = Inr (True, t)"
    "t_BatchID t = b_BatchID b" "b_State b = (if delivery then DeliveryPending else PickupPending)"
    "delivery \<longrightarrow> e_FreightCostID refs \<noteq> []"
    "d_batch d = (if delivery
        then b \<lparr> b_State := (if delivery then Received else InTransport), b_CustodianMSP := x_Actor x,
               b_OwnerMSP := x_Actor x \<rparr>
        else b \<lparr> b_State := (if delivery then Received else InTransport), b_CustodianMSP := x_Actor x \<rparr>)"
    "d_refs d = refs"
    "d_plan d = delete_key (put_entry ak (Some (encoded (marshal Transfer_fields
        (t \<lparr> t_Status := ''ACCEPTED'', t_AcceptOperationID := c_OperationID c,
             t_AcceptedTxID := x_TxID x \<rparr>)))) []) pk"
  using assms(3) unfolding apply_accept_def Let_def delivery_def p_def
  by (clarsimp simp only: if_Inl_eq_Inr rbind_eq_Inr key_eq_Inr put_Some split: prod.splits) force

lemma accept_draft:
  assumes draft: "apply_accept L s c x b refs = Inr d" and s: "fresh s"
    and here: "batch_here (at L (view s)) i b refs" and world: "world_ok (at L (view s))"
    and "b_Version b \<noteq> 2147483647" and payload: "validatePayload c = Inr ()"
    and cmd: "c_Command c = ''AcceptPickup'' \<or> c_Command c = ''AcceptDelivery''" "validID (c_OperationID c) ''OP''"
    and x: "match_hexID (x_TxID x)" "valid_context x" "permitted (x_Actor x) (x_Role x) (c_Command c)"
  shows "draft_ok (at L (view s)) (at L (outcome (map_of (d_plan d)) (view s))) i x b d"
proof -
  let ?delivery = "c_Command c = ''AcceptDelivery''"
  let ?state = "if ?delivery then DeliveryPending else PickupPending"
  let ?next = "if ?delivery then Received else InTransport"
  obtain p where p: "Unmarshal handoffInput_fields (c_Payload c) handoffInput_zero = Some p"
    "validID (hi_TransferID p) ''TRF''"
    using validate_handoff [OF payload] cmd by blast
  have payload_p: "payload_of handoffInput_fields handoffInput_zero c = p" by (rule payload_of_eq [OF p(1)])
  obtain tk t pk ak where
    k: "CreateCompositeKey L ''transfer'' [hi_TransferID p] = Some tk"
      "CreateCompositeKey L ''pendingTransfer'' [b_BatchID b] = Some pk"
      "CreateCompositeKey L ''transfer'' [t_TransferID t] = Some ak"
    and ld: "load L s tk (struct_codec Transfer_fields) Transfer_zero = Inr (True, t)"
    and tb: "t_BatchID t = b_BatchID b" and st: "b_State b = ?state"
    and fr: "?delivery \<longrightarrow> e_FreightCostID refs \<noteq> []"
    and d: "d_batch d = (if ?delivery
        then b \<lparr> b_State := ?next, b_CustodianMSP := x_Actor x, b_OwnerMSP := x_Actor x \<rparr>
        else b \<lparr> b_State := ?next, b_CustodianMSP := x_Actor x \<rparr>)" "d_refs d = refs"
    and plan: "d_plan d = delete_key (put_entry ak (Some (encoded (marshal Transfer_fields
        (t \<lparr> t_Status := ''ACCEPTED'', t_AcceptOperationID := c_OperationID c,
             t_AcceptedTxID := x_TxID x \<rparr>)))) []) pk"
    by (rule accept_cases [OF draft, unfolded payload_p])
  let ?f = "at L (view s)" and ?g = "at L (outcome (map_of (d_plan d)) (view s))"
  let ?t = "t \<lparr> t_Status := ''ACCEPTED'', t_AcceptOperationID := c_OperationID c, t_AcceptedTxID := x_TxID x \<rparr>"
  have b: "Batch_ok b" "batch_shape i b" "b_BatchID b = i" "1 \<le> b_Version b" "b_Version b < 2147483647"
    and r: "EvidenceRefs_ok refs" "refs_shape i (b_State b) refs"
    using here assms(5) by (auto simp: batch_here_def batch_shape_def)
  have "?f ''transfer'' [hi_TransferID p] \<noteq> []"
    using load_view(1) [OF ld s] k(1) by (simp add: at_key)
  then obtain t0 where t0: "stored_transfer ?f t0" "t_TransferID t0 = hi_TransferID p"
    using world by (auto simp: world_ok_def)
  moreover have "Unmarshal Transfer_fields (?f ''transfer'' [hi_TransferID p]) Transfer_zero = Some t"
    using load_view(2) [OF ld s] k(1) by (simp add: at_key)
  ultimately have t: "t0 = t" by (simp add: stored_transfer_def transfer_decoded)
  have g: "?g kind attrs =
      (if kind = ''pendingTransfer'' \<and> attrs = [i] then []
       else if kind = ''transfer'' \<and> attrs = [hi_TransferID p] then encoded (marshal Transfer_fields ?t)
       else ?f kind attrs)" for kind attrs
    unfolding plan using b(3) t0(2) t
    by (simp add: at_upd [OF k(2)] at_upd [OF k(3)] del: put_entry.simps)
  have t': "Transfer_ok ?t" "t_BatchID ?t = i" "t_TransferID ?t = hi_TransferID p"
    using t0 tb b(3) validID_text [OF cmd(2)] hexID_text [OF x(1)]
    by (simp_all add: t stored_transfer_def Transfer_ok_def)
  have "frame ?f ?g i"
    by (rule frame_transfer [OF world t'])
      (use t0 t tb b(3) in \<open>auto simp: g draft_kinds_def\<close>)
  moreover have "pending_world ?g (d_batch d)"
    using b(3) by (simp add: pending_world_def pending_state_def g d)
  moreover have "refs_shape i ?next refs" using r(2) st fr by (auto simp: refs_shape_def split: if_splits)
  moreover have actor: "x_Actor x = (if ?delivery then Retailer else Logistics)"
    using permitted_caller [OF x(3)] cmd(1) by (auto simp: expected_caller_def)
  then have "Batch_ok (advance x b (d_batch d))"
    using b x by (intro advance_ok) (simp_all add: d Batch_ok_def state_defs msp_defs)
  moreover have "batch_shape i (advance x b (d_batch d))"
    using b st actor
    by (cases ?delivery) (simp_all add: batch_shape_def d owner_at_def custodian_at_def validState_def
        advance_def wrap64_def)
  moreover have "b_State (d_batch d) = ?next" by (simp add: d)
  ultimately show ?thesis
    using b r advance_version [of b x "d_batch d"] by (simp add: draft_ok_def d(2))
qed

subsection \<open>The whole of \<open>apply\<close>\<close>

lemma command_draft:
  assumes checks: "apply_checks L s c x = Inr (exists, b, refs)" and s: "fresh s"
    and world: "world_ok (at L (view s))"
    and draft: "apply_command L s c x b refs v = Inr d"
    and ids: "validID (c_BatchID c) ''BAT''" "validID (c_OperationID c) ''OP''"
  shows "draft_ok (at L (view s)) (at L (outcome (map_of (d_plan d)) (view s))) (c_BatchID c) x b d"
proof -
  note facts = apply_checks_facts [OF checks s world]
  have member: "member (x_Actor x)" using facts(1) by (simp add: permitted_def)
  show ?thesis
  proof (cases exists)
    case False
    with facts have cmd: "c_Command c = ''CreateBatch''" by simp
    then have "x_Actor x = Producer"
      using permitted_caller [OF facts(1)] by (simp add: expected_caller_def)
    moreover have "apply_create L s c x refs v = Inr d"
      using draft cmd by (simp add: apply_command_def)
    ultimately show ?thesis
      using create_draft [OF _ _ world facts(2) cmd ids(1)] False facts by simp
  next
    case True
    with facts have here: "batch_here (at L (view s)) (c_BatchID c) b refs" by simp
    have not_create: "c_Command c \<noteq> ''CreateBatch''" using True facts by simp
    note d = draft [unfolded apply_command_def Let_def]
    consider "apply_analysis c b refs = Inr d"
      | "c_Command c = ''OfferPickup'' \<or> c_Command c = ''OfferDelivery''" "apply_offer L s c x b refs v = Inr d"
      | "c_Command c = ''AcceptPickup'' \<or> c_Command c = ''AcceptDelivery''" "apply_accept L s c x b refs = Inr d"
      | "c_Command c = ''RecordFreightCost''" "apply_freight L s c x b refs v = Inr d"
      | "c_Command c = ''ReportRetailPrice''" "apply_report L s c x b refs v = Inr d"
      using d not_create by (auto split: if_splits)
    then show ?thesis
    proof cases
      case 1
      then show ?thesis using analysis_draft [OF 1 here world facts(8,3,4)] by simp
    next
      case 2
      then show ?thesis using offer_draft [OF 2(2) s here world facts(8,2) 2(1) ids(2) facts(3,4) member] by simp
    next
      case 3
      then show ?thesis using accept_draft [OF 3(2) s here world facts(8,2) 3(1) ids(2) facts(3,4,1)] by simp
    next
      case 4
      then show ?thesis using freight_draft [OF 4(2) here world facts(8,2) 4(1) facts(3,4)] by simp
    next
      case 5
      then show ?thesis using report_draft [OF 5(2) here world facts(8,2) 5(1) facts(3,4)] by simp
    qed
  qed
qed

text \<open>
  The public state after a successful command: the batch and references it leaves, its receipt,
  every other batch as before.
\<close>

lemma apply_effect:
  assumes provider: "evidence_provider L evidence" and s: "fresh s"
    and world: "world_ok (at L (view s))"
    and run: "engine_apply L evidence c x s = (Inr receipt, s')"
    and ids: "validID (c_BatchID c) ''BAT''" "validID (c_OperationID c) ''OP''"
  obtains exists b refs v d where
    "apply_checks L s c x = Inr (exists, b, refs)" "evidence c b refs = Inr v"
    "apply_command L s c x b refs v = Inr d"
    "world_ok (at L (view s'))"
    "batch_here (at L (view s')) (c_BatchID c) (advance x b (d_batch d)) (d_refs d)"
    "\<And>j b r. j \<noteq> c_BatchID c \<Longrightarrow> batch_here (at L (view s)) j b r \<Longrightarrow> batch_here (at L (view s')) j b r"
    "\<And>j. j \<noteq> c_BatchID c \<Longrightarrow> no_batch (at L (view s)) j \<Longrightarrow> no_batch (at L (view s')) j"
    "receipt = receipt_for c x (advance x b (d_batch d)) (sortedUnique (d_ids d))"
    "at L (view s') ''operation'' [x_Actor x, c_OperationID c] = encoded (marshal Receipt_fields receipt)"
    "\<And>attrs. attrs \<noteq> [x_Actor x, c_OperationID c] \<Longrightarrow>
       at L (view s') ''operation'' attrs = at L (view s) ''operation'' attrs"
    "at L (view s') ''history'' [c_BatchID c, format_padded (b_Version (advance x b (d_batch d)))]
       = encoded (marshal Receipt_fields receipt)"
proof -
  from engine_apply_view [OF run] obtain exists old refs v d plan event where
    checks: "apply_checks L s c x = Inr (exists, old, refs)" and ev: "evidence c old refs = Inr v"
    and draft: "apply_command L s c x old refs v = Inr d"
    and fin: "finish L c x exists old d (v_Public v) = Inr (receipt, plan, event)"
    and view: "view s' = outcome (map_of plan) (view s)" .
  let ?g = "at L (outcome (map_of (d_plan d)) (view s))"
  have settled: "at L (view s') kind attrs = settled c x exists old d ?g kind attrs"
    if "kind \<notin> set evidence_kinds" for kind attrs
    unfolding view using finish_effect [OF fin evidence_provider.public_marks [OF provider ev] that] .
  have before: "if exists then \<exists>r. batch_here (at L (view s)) (c_BatchID c) old r
        else no_batch (at L (view s)) (c_BatchID c) \<and> b_Version old = 0"
    using apply_checks_facts(9) [OF checks s world] by (auto simp: Batch_zero_def split: if_splits)
  note ok = command_draft [OF checks s world draft ids]
  have fr: "frame (at L (view s)) ?g (c_BatchID c)" and id: "b_BatchID (d_batch d) = c_BatchID c"
    using ok by (simp_all add: draft_ok_def batch_shape_def)
  have receipt: "receipt = receipt_for c x (advance x old (d_batch d)) (sortedUnique (d_ids d))"
    using fin by (auto simp: finish_def Let_def rbind_eq_Inr)
  have op: "at L (view s') ''operation'' attrs =
      (if attrs = [x_Actor x, c_OperationID c] then encoded (marshal Receipt_fields receipt)
       else at L (view s) ''operation'' attrs)" for attrs
    by (simp add: settled evidence_kinds_def settled_def Let_def frame_records [OF fr] receipt)
  have hist: "at L (view s') ''history'' [c_BatchID c, format_padded (b_Version (advance x old (d_batch d)))]
      = encoded (marshal Receipt_fields receipt)"
    by (simp add: settled evidence_kinds_def settled_def Let_def receipt)
  show ?thesis
    by (rule that [OF checks ev draft])
      (use world_ok_settled [OF world ok settled refl before] batch_here_settled [OF ok settled refl before]
        batch_here_frame [OF _ _ fr settled refl id] no_batch_frame [OF _ _ fr settled refl id] receipt op hist
       in simp_all)
qed

theorem apply_world:
  assumes provider: "evidence_provider L evidence" and s: "fresh s"
    and world: "world_ok (at L (view s))"
    and run: "engine_apply L evidence c x s = (Inr receipt, s')"
    and ids: "validID (c_BatchID c) ''BAT''" "validID (c_OperationID c) ''OP''"
  shows "world_ok (at L (view s'))"
  by (rule apply_effect [OF assms])

end

end
