(* ===== verification/Peer.thy ===== *)
theory Peer
  imports Contract Commands
begin

text \<open>
  The contract between the chaincode and a Fabric peer, the proof that a ledger on such a stub
  is a \<open>ledger_store\<close>, the sequence of transactions a channel commits, and a peer in memory
  that meets the contract.
\<close>

subsection \<open>The contract of a stub\<close>

text \<open>
  What Fabric documents: composite keys are injective; within one transaction \<open>GetState\<close>
  answers from the committed state, while \<open>PutState\<close>, \<open>DelState\<close> and \<open>PutPrivateData\<close> go to the
  write set that a commit applies; an operation that fails (\<open>None\<close>) writes nothing.
\<close>

locale shim_stub =
  fixes stub :: "'s stub"
    and fresh :: "'s \<Rightarrow> bool"
    and view :: "'s \<Rightarrow> bytes \<Rightarrow> bytes"
    and private_view :: "'s \<Rightarrow> bytes \<Rightarrow> bytes \<Rightarrow> bytes"
    and commit :: "'s \<Rightarrow> 's"
  assumes composite_inject:
      "CreateCompositeKey stub kind as = Some k \<Longrightarrow> CreateCompositeKey stub kind' as' = Some k
        \<Longrightarrow> kind = kind' \<and> as = as'"
    and get_state: "fresh s \<Longrightarrow> GetState stub s k = Some v \<Longrightarrow> v = view s k"
    and put_state: "PutState stub k v s = Some s' \<Longrightarrow>
          view s' = (view s)(k := v) \<and> private_view s' = private_view s"
    and del_state: "DelState stub k s = Some s' \<Longrightarrow>
          view s' = (view s)(k := []) \<and> private_view s' = private_view s"
    and set_event: "SetEvent stub n v s = Some s' \<Longrightarrow> view s' = view s \<and> private_view s' = private_view s"
    and put_private: "PutPrivateData stub c k v s = Some s' \<Longrightarrow>
          view s' = view s \<and> private_view s' = (private_view s)(c := (private_view s c)(k := v))"
    and get_private: "fresh s \<Longrightarrow> GetPrivateData stub s c k = Some v \<Longrightarrow> v \<noteq> []
          \<Longrightarrow> v = private_view s c k"
    and commit: "fresh (commit s)" "view (commit s) = view s" "private_view (commit s) = private_view s"

lemma at_fabricLedger [simp]: "at (fabricLedger stub) = at stub"
  by (simp add: at_def fabricLedger_def fun_eq_iff)

sublocale shim_stub \<subseteq> fabric: ledger_store "fabricLedger stub" fresh view private_view
proof (unfold_locales, goal_cases)
  case 1
  then show ?case by (auto simp: fabricLedger_def dest: composite_inject)
qed (auto simp: fabricLedger_def get_state put_state del_state set_event put_private dest: get_private)

subsection \<open>Transactions\<close>

text \<open>
  The committed states of a channel: from a start, each successful invocation is committed.
  Fabric drops the write set of an invocation that fails or does not return.
\<close>

inductive reachable :: "'s stub \<Rightarrow> ('s \<Rightarrow> 's) \<Rightarrow> 's \<Rightarrow> 's \<Rightarrow> bool"
  for stub :: "'s stub" and commit :: "'s \<Rightarrow> 's" and s0 :: 's
where
  start: "reachable stub commit s0 s0"
| transaction: "reachable stub commit s0 s \<Longrightarrow> Invoke stub i s = (Success b, s') \<Longrightarrow>
    reachable stub commit s0 (commit s')"

text \<open>What a successful invocation did.\<close>

lemma respond_not_Success [simp]: "respond e \<noteq> Success b" "Success b \<noteq> respond e"
  by (simp_all add: respond_def split: failure.splits)

lemma dispatch_command_success:
  assumes "dispatch_command L fn args request s = (Inr r, s')"
  obtains c P pr receipt where "parseCommand fn (hd args) = Inr c" "request = [pr]"
    "l_private L = Some P"
    "engine_apply L (prepare L P s (pr_transient pr) (pr_x pr)) c (pr_x pr) s = (Inr receipt, s')"
    "r = Some (marshal Receipt_fields receipt)"
proof -
  have one: "len args = 1" and "len request = 1"
    using assms by (auto simp: dispatch_command_def split: if_split_asm sum.split_asm option.split_asm)
  then obtain pr where pr: "request = [pr]" by (cases request) (auto simp: len_def)
  obtain c where c: "parseCommand fn (hd args) = Inr c"
    using assms one by (auto simp: dispatch_command_def split: sum.split_asm)
  obtain cfg where cfg: "getConfig L s = Inr cfg"
    using assms one c by (auto simp: dispatch_command_def split: sum.split_asm)
  obtain P where P: "l_private L = Some P"
    using assms one c cfg by (auto simp: dispatch_command_def split: option.split_asm)
  obtain receipt where "engine_apply L (prepare L P s (pr_transient pr) (pr_x pr)) c (pr_x pr) s = (Inr receipt, s')"
    "r = Some (marshal Receipt_fields receipt)"
    using assms one c cfg P pr
    by (auto simp: dispatch_command_def split: prod.split_asm sum.split_asm)
  with that c pr P show ?thesis by blast
qed

lemma dispatch_mutation:
  assumes "isMutation fn" "authorize msp role fn = Inr u"
  shows "dispatch L msp role fn args request s = dispatch_command L fn args request s"
proof -
  have "fn \<notin> set [''Bootstrap'', ''GetConfiguration'', ''GetDocument'', ''GetPurchase'', ''GetFreightCost'',
      ''GetRetailReport'', ''GetAnomaly'', ''GetReviewHistory'', ''VerifyDocument'']"
    using assms(1) by (auto simp: isMutation_def)
  then show ?thesis using assms by (simp add: dispatch_unfold)
qed

lemma dispatch_authorized: "dispatch L msp role fn args request s = (Inr r, s') \<Longrightarrow> permitted msp role fn"
  by (cases "authorize msp role fn") (auto simp: dispatch_unfold authorize_permitted)

lemma dispatch_cases:
  assumes "dispatch L msp role fn args request s = (Inr r, s')"
  obtains (read) "s' = s"
  | (boot) x raw c where "fn = ''Bootstrap''" "request = [x]" "bootstrap L (pr_x x) raw s = (Inr c, s')"
  | (command) "isMutation fn" "dispatch_command L fn args request s = (Inr r, s')"
proof -
  obtain u where u: "authorize msp role fn = Inr u"
    using assms by (cases "authorize msp role fn") (auto simp: dispatch_unfold)
  consider "fn = ''Bootstrap''" | "fn \<noteq> ''Bootstrap''" "isMutation fn" | "fn \<noteq> ''Bootstrap''" "\<not> isMutation fn"
    by blast
  then show ?thesis
  proof cases
    case 1
    then have "len request = 1" "\<exists>c. bootstrap L (pr_x (hd request)) (hd args) s = (Inr c, s')"
      using assms u by (auto simp: dispatch_unfold split: if_split_asm prod.split_asm sum.split_asm)
    moreover then obtain pr where "request = [pr]" by (cases request) (auto simp: len_def)
    ultimately show ?thesis using boot 1 by force
  next
    case 2
    then have "dispatch_command L fn args request s = (Inr r, s')"
      using assms u by (simp add: dispatch_mutation)
    then show ?thesis using command 2 by blast
  next
    case 3
    then have "s' = s" using assms u by (simp add: dispatch_unfold split: if_split_asm)
    then show ?thesis by (rule read)
  qed
qed

lemma reply_Success: "reply result = Success b \<Longrightarrow> \<exists>r. result = Inr r"
  by (cases result) (simp_all add: reply_def)

lemma Invoke_Success:
  assumes "Invoke stub i s = (Success b, s')"
  obtains msp role x t r where "caller i = Inr (msp, role)" "inv_Transient i = Some t"
    "invoke_context i msp role = Inr x"
    "dispatch (fabricLedger stub) msp role (inv_Function i) (inv_Parameters i)
       [\<lparr> pr_x = x, pr_transient = t \<rparr>] s = (Inr r, s')"
proof -
  obtain msp role where c: "caller i = Inr (msp, role)"
    using assms by (cases "caller i") (auto simp: Invoke_def)
  have run: "(case invoke_context i msp role of
       Inl e \<Rightarrow> (respond e, s)
     | Inr x \<Rightarrow>
         case inv_Transient i of
           None \<Rightarrow> (respond (fail ''INVALID_SCHEMA''), s)
         | Some t \<Rightarrow>
             case dispatch (fabricLedger stub) msp role (inv_Function i) (inv_Parameters i)
                    [\<lparr> pr_x = x, pr_transient = t \<rparr>] s of
               (result, s') \<Rightarrow> (reply result, s')) = (Success b, s')"
    using assms by (simp add: Invoke_def c)
  obtain x where x: "invoke_context i msp role = Inr x"
    using run by (cases "invoke_context i msp role") simp_all
  obtain t where t: "inv_Transient i = Some t"
    using run x by (cases "inv_Transient i") simp_all
  obtain r where "dispatch (fabricLedger stub) msp role (inv_Function i) (inv_Parameters i)
      [\<lparr> pr_x = x, pr_transient = t \<rparr>] s = (Inr r, s')"
    using run x t by (auto dest: reply_Success split: prod.split_asm)
  with that c t x show ?thesis by blast
qed

lemma world_ok_cong:
  assumes "\<And>kind attrs. kind \<in> {''batch'', ''batchEvidence'', ''history'', ''owner'', ''state'',
      ''transfer'', ''pendingTransfer''} \<Longrightarrow> h kind attrs = f kind attrs"
  shows "world_ok f \<Longrightarrow> world_ok h"
proof -
  have eq: "h ''batch'' = f ''batch''" "h ''batchEvidence'' = f ''batchEvidence''"
    "h ''history'' = f ''history''" "h ''owner'' = f ''owner''" "h ''state'' = f ''state''"
    "h ''transfer'' = f ''transfer''" "h ''pendingTransfer'' = f ''pendingTransfer''"
    by (rule ext, rule assms, simp)+
  show "world_ok f \<Longrightarrow> world_ok h"
    unfolding world_ok_def no_batch_def batch_here_def index_world_def pending_world_def
      stored_transfer_def eq .
qed

context shim_stub begin

lemma dispatch_world:
  assumes run: "dispatch (fabricLedger stub) msp role fn args request s = (Inr r, s')"
    and s: "fresh s" and world: "world_ok (at stub (view s))"
  shows "world_ok (at stub (view s'))"
  using run
proof (cases rule: dispatch_cases)
  case read
  then show ?thesis using world by simp
next
  case (boot x raw c)
  have "at stub (view s') kind attrs = at stub (view s) kind attrs"
    if "kind \<in> {''batch'', ''batchEvidence'', ''history'', ''owner'', ''state'', ''transfer'',
      ''pendingTransfer''}" for kind attrs
  proof -
    have "kind \<notin> set trust_kinds" using that by (auto simp: trust_kinds_def)
    then show ?thesis using fabric.bootstrap_frame [OF boot(3), of kind attrs] by simp
  qed
  then show ?thesis by (rule world_ok_cong [OF _ world])
next
  case command
  from command(2) show ?thesis
  proof (rule dispatch_command_success)
    fix c P pr receipt
    assume c: "parseCommand fn (hd args) = Inr c"
      and run: "engine_apply (fabricLedger stub) (prepare (fabricLedger stub) P s (pr_transient pr) (pr_x pr))
          c (pr_x pr) s = (Inr receipt, s')"
    show ?thesis
      using fabric.apply_world [OF real_evidence.evidence_provider_axioms s _ run
          parseCommand_ids(2,3) [OF c]] world by simp
  qed
qed

theorem reachable_world:
  assumes start: "fresh s0" "\<And>k. view s0 k = []"
    and "reachable stub commit s0 s"
  shows "fresh s \<and> world_ok (at stub (view s))"
  using assms(3)
proof (induction rule: reachable.induct)
  case start
  have "at stub (view s0) = (\<lambda>kind attrs. [])"
    using assms(2) by (auto simp: at_def fun_eq_iff split: option.splits)
  then show ?case using assms(1) world_ok_empty by simp
next
  case (transaction s i b s')
  from transaction(2) show ?case
    by (rule Invoke_Success) (use transaction(3) in \<open>auto simp: commit intro: dispatch_world\<close>)
qed

end

subsection \<open>A peer in memory\<close>

text \<open>
  A stub whose state is the committed world and the write set of the current transaction, the
  newest entry first; an empty value is a deletion.  Composite keys are made the way the shim
  makes them: a NUL, then the object type and each attribute followed by a NUL.  The two
  cryptographic functions are stand-ins.
\<close>

record memory =
  m_committed :: "(bytes \<times> bytes) list"
  m_pending :: "(bytes \<times> bytes) list"
  m_private :: "((bytes \<times> bytes) \<times> bytes) list"
  m_pending_private :: "((bytes \<times> bytes) \<times> bytes) list"
  m_event :: "(bytes \<times> bytes) option"

definition memory_empty :: memory where
  "memory_empty = \<lparr> m_committed = [], m_pending = [], m_private = [], m_pending_private = [],
     m_event = None \<rparr>"

definition segment_ok :: "bytes \<Rightarrow> bool" where
  "segment_ok a \<longleftrightarrow> list_all (\<lambda>c. c \<noteq> CHR 0x00) a"

fun segments :: "bytes list \<Rightarrow> bytes" where
  "segments [] = []"
| "segments (a # as) = a @ CHR 0x00 # segments as"

definition memory_key :: "bytes \<Rightarrow> bytes list \<Rightarrow> bytes option" where
  "memory_key kind attrs =
     (if list_all segment_ok (kind # attrs) then Some (CHR 0x00 # segments (kind # attrs)) else None)"

definition lookup :: "('k \<times> bytes) list \<Rightarrow> 'k \<Rightarrow> bytes" where
  "lookup m k = (case map_of m k of None \<Rightarrow> [] | Some v \<Rightarrow> v)"

definition memory_view :: "memory \<Rightarrow> bytes \<Rightarrow> bytes" where
  "memory_view m k = lookup (m_pending m @ m_committed m) k"

definition memory_private :: "memory \<Rightarrow> bytes \<Rightarrow> bytes \<Rightarrow> bytes" where
  "memory_private m c k = lookup (m_pending_private m @ m_private m) (c, k)"

definition memory_fresh :: "memory \<Rightarrow> bool" where
  "memory_fresh m \<longleftrightarrow> m_pending m = [] \<and> m_pending_private m = []"

definition memory_commit :: "memory \<Rightarrow> memory" where
  "memory_commit m = \<lparr> m_committed = m_pending m @ m_committed m, m_pending = [],
     m_private = m_pending_private m @ m_private m, m_pending_private = [], m_event = None \<rparr>"

text \<open>A key of the same object type whose first attributes are those of the prefix.\<close>

definition continues :: "bytes \<Rightarrow> bytes \<Rightarrow> bool" where
  "continues prefix k \<longleftrightarrow> HasPrefix k prefix
     \<and> (let rest = drop (length prefix) k in rest = [] \<or> last rest = CHR 0x00)"

text \<open>A page starts at its bookmark, even at one before the keys asked for, as Fabric's range query does.\<close>

definition memory_page ::
  "memory \<Rightarrow> bytes \<Rightarrow> bytes list \<Rightarrow> int \<Rightarrow> bytes \<Rightarrow> (entry option list \<times> bytes) option" where
  "memory_page m kind attrs limit bookmark =
     (case memory_key kind attrs of
       None \<Rightarrow> None
     | Some prefix \<Rightarrow>
         let keys = sort (filter (\<lambda>k. (continues prefix k \<or> bookmark \<noteq> [] \<and> k < prefix) \<and> bookmark \<le> k
                              \<and> lookup (m_committed m) k \<noteq> []) (remdups (map fst (m_committed m))));
             here = take (nat limit) keys; rest = drop (nat limit) keys
         in Some (map (\<lambda>k. Some \<lparr> en_Key = k, en_Value = lookup (m_committed m) k \<rparr>) here,
                  case rest of [] \<Rightarrow> [] | k # _ \<Rightarrow> k))"

definition memory_stub :: "memory stub" where
  "memory_stub =
     \<lparr> CreateCompositeKey = memory_key,
       Sha256 = (\<lambda>m. take 32 (m @ replicate 32 (CHR 0x00))),
       Ed25519Verify = (\<lambda>pub msg sig. sig = pub @ pub),
       GetState = (\<lambda>m k. Some (lookup (m_committed m) k)),
       PutState = (\<lambda>k v m. if k = [] then None else Some (m \<lparr> m_pending := (k, v) # m_pending m \<rparr>)),
       DelState = (\<lambda>k m. Some (m \<lparr> m_pending := (k, []) # m_pending m \<rparr>)),
       SetEvent = (\<lambda>n v m. if n = [] then None else Some (m \<lparr> m_event := Some (n, v) \<rparr>)),
       GetPrivateData = (\<lambda>m c k. Some (lookup (m_private m) (c, k))),
       PutPrivateData = (\<lambda>c k v m. if k = [] then None
         else Some (m \<lparr> m_pending_private := ((c, k), v) # m_pending_private m \<rparr>)),
       GetStateByPartialCompositeKeyWithPagination = memory_page \<rparr>"

lemma segments_inject:
  "list_all segment_ok as \<Longrightarrow> list_all segment_ok bs \<Longrightarrow> segments as = segments bs \<Longrightarrow> as = bs"
proof (induction as arbitrary: bs)
  case Nil
  then show ?case by (cases bs) auto
next
  case (Cons a as)
  then obtain b bs' where bs: "bs = b # bs'" by (cases bs) auto
  have split: "takeWhile (\<lambda>c. c \<noteq> CHR 0x00) (d @ CHR 0x00 # t) = d"
    "dropWhile (\<lambda>c. c \<noteq> CHR 0x00) (d @ CHR 0x00 # t) = CHR 0x00 # t" if "segment_ok d" for d t
    using that by (simp_all add: segment_ok_def list_all_iff takeWhile_append2 dropWhile_append2)
  have eq: "a @ CHR 0x00 # segments as = b @ CHR 0x00 # segments bs'"
    and a: "segment_ok a" and b: "segment_ok b"
    using Cons.prems bs by simp_all
  have "a = b" using split(1) [OF a] split(1) [OF b] eq by (metis (no_types))
  moreover have "segments as = segments bs'" using eq calculation by simp
  ultimately show ?case using Cons.IH Cons.prems bs by simp
qed

lemma segments_append: "segments (as @ bs) = segments as @ segments bs"
  by (induction as) auto

lemma segments_split: "t = [] \<or> last t = CHR 0x00 \<Longrightarrow> \<exists>as. list_all segment_ok as \<and> segments as = t"
proof (induction "length t" arbitrary: t rule: less_induct)
  case less
  show ?case
  proof (cases "t = []")
    case False
    let ?a = "takeWhile (\<lambda>c. c \<noteq> CHR 0x00) t" and ?d = "dropWhile (\<lambda>c. c \<noteq> CHR 0x00) t"
    have nul: "CHR 0x00 \<in> set t" using less.prems False last_in_set by metis
    then have "?d \<noteq> []" by (auto simp: dropWhile_eq_Nil_conv)
    then obtain u where d: "?d = CHR 0x00 # u" by (cases ?d) (auto simp: dropWhile_eq_Cons_conv)
    have t: "t = ?a @ CHR 0x00 # u" using takeWhile_dropWhile_id [of "\<lambda>c. c \<noteq> CHR 0x00" t] d by simp
    then have "length u < length t" by (metis add_Suc_right length_Cons length_append less_add_Suc2)
    moreover have "u = [] \<or> last u = CHR 0x00"
      using less.prems False arg_cong [OF t, of last] by (cases u) auto
    ultimately obtain as where "list_all segment_ok as" "segments as = u" using less.hyps by blast
    moreover have "segment_ok ?a" by (auto simp: segment_ok_def list_all_iff dest: set_takeWhileD)
    ultimately show ?thesis using t by (intro exI [of _ "?a # as"]) simp
  qed (auto intro: exI [of _ "[]"])
qed

lemma if_Some_eq: "(if c then Some a else None) = Some k \<longleftrightarrow> c \<and> k = a"
  by auto

lemma memory_key_eq:
  "memory_key kind as = Some k \<longleftrightarrow> list_all segment_ok (kind # as) \<and> k = CHR 0x00 # segments (kind # as)"
  unfolding memory_key_def by (rule if_Some_eq)

lemma memory_key_inject:
  assumes "memory_key kind as = Some k" "memory_key kind' as' = Some k"
  shows "kind = kind' \<and> as = as'"
proof -
  have "segments (kind # as) = segments (kind' # as')"
    using assms by (simp only: memory_key_eq list.inject)
  with assms have "kind # as = kind' # as'"
    by (intro segments_inject) (simp_all only: memory_key_eq)
  then show ?thesis by simp
qed

interpretation memory: shim_stub memory_stub memory_fresh memory_view memory_private memory_commit
proof (unfold_locales, goal_cases)
  case 1
  then show ?case by (simp add: memory_stub_def memory_key_inject)
qed (auto simp: memory_stub_def memory_fresh_def memory_view_def memory_private_def memory_commit_def
    lookup_def fun_eq_iff split: if_splits)

end
