(* ===== verification/Lifecycle.thy ===== *)
theory Lifecycle
  imports Peer
begin

text \<open>
  The custody lifecycle as a specification: phases in order, what is known of a batch, and one
  rule per command.  Every transaction of the chaincode takes every batch along one rule or
  leaves it as it is.
\<close>

subsection \<open>Phases\<close>

datatype phase = PhaseCreated | PhasePickupPending | PhaseInTransport | PhaseDeliveryPending
  | PhaseReceived | PhaseRetailReported

fun rank :: "phase \<Rightarrow> nat" where
  "rank PhaseCreated = 0"
| "rank PhasePickupPending = 1"
| "rank PhaseInTransport = 2"
| "rank PhaseDeliveryPending = 3"
| "rank PhaseReceived = 4"
| "rank PhaseRetailReported = 5"

lemma rank_inject: "rank p = rank q \<longleftrightarrow> p = q"
  by (cases p; cases q) simp_all

instantiation phase :: linorder
begin

definition less_eq_phase :: "phase \<Rightarrow> phase \<Rightarrow> bool" where
  "less_eq_phase p q \<longleftrightarrow> rank p \<le> rank q"

definition less_phase :: "phase \<Rightarrow> phase \<Rightarrow> bool" where
  "less_phase p q \<longleftrightarrow> rank p < rank q"

instance
  by standard (auto simp: less_eq_phase_def less_phase_def rank_inject)

end

definition phase_of :: "bytes \<Rightarrow> phase" where
  "phase_of st =
     (if st = Created then PhaseCreated
      else if st = PickupPending then PhasePickupPending
      else if st = InTransport then PhaseInTransport
      else if st = DeliveryPending then PhaseDeliveryPending
      else if st = Received then PhaseReceived
      else PhaseRetailReported)"

lemma phase_of_simps [simp]:
  "phase_of Created = PhaseCreated" "phase_of PickupPending = PhasePickupPending"
  "phase_of InTransport = PhaseInTransport" "phase_of DeliveryPending = PhaseDeliveryPending"
  "phase_of Received = PhaseReceived" "phase_of RetailReported = PhaseRetailReported"
  by (simp_all add: phase_of_def)

subsection \<open>The rules\<close>

record custody =
  cu_phase :: phase
  cu_owner :: bytes
  cu_custodian :: bytes
  cu_freight :: bool
  cu_quantity :: int
  cu_version :: int

text \<open>\<open>custody_step cmd actor u v\<close>: \<open>actor\<close> may issue \<open>cmd\<close> on a batch in \<open>u\<close>, which leaves \<open>v\<close>.\<close>

inductive custody_step :: "bytes \<Rightarrow> bytes \<Rightarrow> custody \<Rightarrow> custody \<Rightarrow> bool" where
  offer_pickup:
    "cu_phase u = PhaseCreated \<Longrightarrow> cu_owner u = Producer \<Longrightarrow> cu_custodian u = Producer \<Longrightarrow>
     custody_step ''OfferPickup'' Producer u
       (u \<lparr> cu_phase := PhasePickupPending, cu_version := cu_version u + 1 \<rparr>)"
| accept_pickup:
    "cu_phase u = PhasePickupPending \<Longrightarrow>
     custody_step ''AcceptPickup'' Logistics u
       (u \<lparr> cu_phase := PhaseInTransport, cu_custodian := Logistics,
            cu_version := cu_version u + 1 \<rparr>)"
| record_freight:
    "cu_phase u = PhaseInTransport \<or> cu_phase u = PhaseDeliveryPending \<Longrightarrow> \<not> cu_freight u \<Longrightarrow>
     cu_custodian u = Logistics \<Longrightarrow>
     custody_step ''RecordFreightCost'' Logistics u
       (u \<lparr> cu_freight := True, cu_version := cu_version u + 1 \<rparr>)"
| offer_delivery:
    "cu_phase u = PhaseInTransport \<Longrightarrow> cu_custodian u = Logistics \<Longrightarrow>
     custody_step ''OfferDelivery'' Logistics u
       (u \<lparr> cu_phase := PhaseDeliveryPending, cu_version := cu_version u + 1 \<rparr>)"
| accept_delivery:
    "cu_phase u = PhaseDeliveryPending \<Longrightarrow> cu_freight u \<Longrightarrow>
     custody_step ''AcceptDelivery'' Retailer u
       (u \<lparr> cu_phase := PhaseReceived, cu_owner := Retailer, cu_custodian := Retailer,
            cu_version := cu_version u + 1 \<rparr>)"
| report_price:
    "cu_phase u = PhaseReceived \<Longrightarrow> cu_owner u = Retailer \<Longrightarrow> cu_custodian u = Retailer \<Longrightarrow>
     custody_step ''ReportRetailPrice'' Retailer u
       (u \<lparr> cu_phase := PhaseRetailReported, cu_version := cu_version u + 1 \<rparr>)"
| analyse:
    "cu_phase u = PhaseRetailReported \<Longrightarrow> cmd \<in> {''EvaluatePrice'', ''OpenReview'', ''ResolveReview''} \<Longrightarrow>
     custody_step cmd Regulator u (u \<lparr> cu_version := cu_version u + 1 \<rparr>)"

inductive_cases custody_stepE: "custody_step cmd actor u v"

definition custody_of :: "Batch \<Rightarrow> EvidenceRefs \<Rightarrow> custody" where
  "custody_of b r = \<lparr> cu_phase = phase_of (b_State b), cu_owner = b_OwnerMSP b,
     cu_custodian = b_CustodianMSP b, cu_freight = (e_FreightCostID r \<noteq> []),
     cu_quantity = b_QuantityGrams b, cu_version = b_Version b \<rparr>"

text \<open>A step never goes back, changes the quantity, or skips a version.\<close>

lemma custody_step_order:
  assumes "custody_step cmd actor u v"
  shows "cu_phase u \<le> cu_phase v" "cu_quantity v = cu_quantity u" "cu_version v = cu_version u + 1"
    "cu_freight u \<longrightarrow> cu_freight v"
  using assms by (cases, simp_all add: less_eq_phase_def)+

lemma custody_step_owner:
  assumes "custody_step cmd actor u v"
  shows "cu_owner v \<noteq> cu_owner u \<Longrightarrow> cmd = ''AcceptDelivery'' \<and> actor = Retailer \<and> cu_owner v = Retailer"
    and "cu_custodian v \<noteq> cu_custodian u \<Longrightarrow>
      cmd \<in> {''AcceptPickup'', ''AcceptDelivery''} \<and> actor = cu_custodian v"
  using assms by (cases, simp_all)+

inductive custody_run :: "custody \<Rightarrow> (bytes \<times> bytes) list \<Rightarrow> custody \<Rightarrow> bool" where
  done': "custody_run u [] u"
| step: "custody_step cmd actor u v \<Longrightarrow> custody_run v acts w \<Longrightarrow> custody_run u ((cmd, actor) # acts) w"

lemma custody_run_order:
  assumes "custody_run u acts v"
  shows "cu_phase u \<le> cu_phase v \<and> cu_quantity v = cu_quantity u
    \<and> cu_version v = cu_version u + len acts"
  using assms
proof (induction rule: custody_run.induct)
  case (step cmd actor u v acts w)
  then show ?case using custody_step_order [OF step(1)] by auto
qed simp

lemma custody_run_append:
  "custody_run u acts v \<Longrightarrow> custody_step cmd actor v w \<Longrightarrow> custody_run u (acts @ [(cmd, actor)]) w"
  by (induction rule: custody_run.induct) (auto intro: custody_run.intros)

definition initial_custody :: "int \<Rightarrow> custody" where
  "initial_custody q = \<lparr> cu_phase = PhaseCreated, cu_owner = Producer, cu_custodian = Producer,
     cu_freight = False, cu_quantity = q, cu_version = 1 \<rparr>"

subsection \<open>The commands follow the rules\<close>

context ledger_store begin

text \<open>What each case of the switch does to the batch.\<close>

lemma offer_moves:
  assumes "apply_offer L s c x b refs v = Inr d"
  shows "b_State b = (if c_Command c = ''OfferDelivery'' then InTransport else Created)"
    and "d_batch d = b \<lparr> b_State := (if c_Command c = ''OfferDelivery'' then DeliveryPending else PickupPending) \<rparr>"
    and "e_FreightCostID (d_refs d) = e_FreightCostID refs"
proof -
  show "b_State b = (if c_Command c = ''OfferDelivery'' then InTransport else Created)"
    "d_batch d = b \<lparr> b_State := (if c_Command c = ''OfferDelivery'' then DeliveryPending else PickupPending) \<rparr>"
    by (rule offer_cases [OF assms], assumption)+
  show "e_FreightCostID (d_refs d) = e_FreightCostID refs"
    by (rule offer_cases [OF assms])
      (use offer_evidence(1) in \<open>fastforce split: if_splits\<close>)
qed

lemma accept_moves:
  assumes "apply_accept L s c x b refs = Inr d"
  shows "b_State b = (if c_Command c = ''AcceptDelivery'' then DeliveryPending else PickupPending)"
    and "b_State (d_batch d) = (if c_Command c = ''AcceptDelivery'' then Received else InTransport)"
    and "b_QuantityGrams (d_batch d) = b_QuantityGrams b" and "d_refs d = refs"
    and "c_Command c = ''AcceptDelivery'' \<longrightarrow> e_FreightCostID refs \<noteq> []"
  by (rule accept_cases [OF assms], simp)+

lemma freight_moves:
  assumes "apply_freight L s c x b refs v = Inr d"
  shows "b_State b = InTransport \<or> b_State b = DeliveryPending" "d_batch d = b"
    "e_FreightCostID refs = []"
    "e_FreightCostID (d_refs d) = fi_CostID (payload_of freightInput_fields freightInput_zero c)"
  using assms by (auto simp: apply_freight_def Let_def rbind_eq_Inr split: if_splits)

lemma report_moves:
  assumes "apply_report L s c x b refs v = Inr d"
  shows "b_State b = Received" "b_State (d_batch d) = RetailReported"
    "b_QuantityGrams (d_batch d) = b_QuantityGrams b" "e_FreightCostID (d_refs d) = e_FreightCostID refs"
  using assms by (auto simp: apply_report_def Let_def rbind_eq_Inr split: if_splits)

lemma command_custody:
  assumes checks: "apply_checks L s c x = Inr (exists, b, refs)" and s: "fresh s"
    and world: "world_ok (at L (view s))" and ex: "exists"
    and provider: "evidence_provider L evidence" and ev: "evidence c b refs = Inr v"
    and draft: "apply_command L s c x b refs v = Inr d"
    and ids: "validID (c_BatchID c) ''BAT''" "validID (c_OperationID c) ''OP''"
  shows "custody_step (c_Command c) (x_Actor x) (custody_of b refs)
           (custody_of (advance x b (d_batch d)) (d_refs d))"
proof -
  note facts = apply_checks_facts [OF checks s world]
  have here: "batch_here (at L (view s)) (c_BatchID c) b refs" using facts(9) ex by simp
  have ok: "draft_ok (at L (view s)) (at L (outcome (map_of (d_plan d)) (view s))) (c_BatchID c) x b d"
    by (rule command_draft [OF checks s world draft ids])
  have "b_Version (advance x b (d_batch d)) = b_Version b + 1"
    using ok by (simp add: draft_ok_def)
  then have version: "b_Version (advance x b z) = b_Version b + 1" for z
    by (simp add: advance_def)
  have shape: "b_OwnerMSP b = owner_at (b_State b)" "b_CustodianMSP b = custodian_at (b_State b)"
    using here by (simp_all add: batch_here_def batch_shape_def)
  have after: "b_OwnerMSP (d_batch d) = owner_at (b_State (d_batch d))"
    "b_CustodianMSP (d_batch d) = custodian_at (b_State (d_batch d))"
    using ok by (simp_all add: draft_ok_def batch_shape_def)
  have caller: "fst (expected_caller (c_Command c)) \<noteq> [] \<Longrightarrow> c_Command c \<noteq> ''Health'' \<Longrightarrow>
      x_Actor x = fst (expected_caller (c_Command c))"
    using permitted_caller [OF facts(1)] by blast
  note sets = custody_of_def shape after version custodian_at_def owner_at_def
  have not_create: "c_Command c \<noteq> ''CreateBatch''" using ex facts(6) by simp
  consider (analysis) "c_Command c \<in> {''EvaluatePrice'', ''OpenReview'', ''ResolveReview''}" "apply_analysis c b refs = Inr d"
    | (offer) "c_Command c = ''OfferPickup'' \<or> c_Command c = ''OfferDelivery''" "apply_offer L s c x b refs v = Inr d"
    | (accept) "c_Command c = ''AcceptPickup'' \<or> c_Command c = ''AcceptDelivery''" "apply_accept L s c x b refs = Inr d"
    | (freight) "c_Command c = ''RecordFreightCost''" "apply_freight L s c x b refs v = Inr d"
    | (report) "c_Command c = ''ReportRetailPrice''" "apply_report L s c x b refs v = Inr d"
    using draft [unfolded apply_command_def Let_def] not_create by (auto split: if_splits)
  then show ?thesis
  proof cases
    case analysis
    have d: "d_batch d = b" "d_refs d = refs"
      using analysis(2) by (auto simp: apply_analysis_def Let_def split: if_splits)
    have st: "b_State b = RetailReported"
      using evidence_provider.analysis_phase [OF provider ev analysis(1)] .
    have "x_Actor x = Regulator" using caller analysis(1) by (auto simp: expected_caller_def)
    moreover have "custody_step (c_Command c) Regulator (custody_of b refs)
        (custody_of b refs \<lparr> cu_version := cu_version (custody_of b refs) + 1 \<rparr>)"
      by (rule custody_step.analyse) (simp add: custody_of_def st, rule analysis(1))
    ultimately show ?thesis using version by (simp add: custody_of_def d)
  next
    case offer
    note m = offer_moves [OF offer(2)]
    show ?thesis
    proof (cases "c_Command c = ''OfferDelivery''")
      case True
      have "custody_step ''OfferDelivery'' Logistics (custody_of b refs) (custody_of b refs
          \<lparr> cu_phase := PhaseDeliveryPending, cu_version := cu_version (custody_of b refs) + 1 \<rparr>)"
        by (rule custody_step.offer_delivery) (simp_all add: sets m True)
      then show ?thesis using caller True m(3) by (simp add: sets m expected_caller_def)
    next
      case False
      have "custody_step ''OfferPickup'' Producer (custody_of b refs) (custody_of b refs
          \<lparr> cu_phase := PhasePickupPending, cu_version := cu_version (custody_of b refs) + 1 \<rparr>)"
        by (rule custody_step.offer_pickup) (simp_all add: sets m False)
      then show ?thesis using caller False m(3) offer(1) by (simp add: sets m expected_caller_def)
    qed
  next
    case accept
    note m = accept_moves [OF accept(2)]
    show ?thesis
    proof (cases "c_Command c = ''AcceptDelivery''")
      case True
      have "custody_step ''AcceptDelivery'' Retailer (custody_of b refs) (custody_of b refs
          \<lparr> cu_phase := PhaseReceived, cu_owner := Retailer, cu_custodian := Retailer,
            cu_version := cu_version (custody_of b refs) + 1 \<rparr>)"
        by (rule custody_step.accept_delivery) (simp_all add: sets m True)
      then show ?thesis using caller True by (simp add: sets m expected_caller_def)
    next
      case False
      have "custody_step ''AcceptPickup'' Logistics (custody_of b refs) (custody_of b refs
          \<lparr> cu_phase := PhaseInTransport, cu_custodian := Logistics,
            cu_version := cu_version (custody_of b refs) + 1 \<rparr>)"
        by (rule custody_step.accept_pickup) (simp_all add: sets m False)
      then show ?thesis using caller False accept(1) by (simp add: sets m expected_caller_def)
    qed
  next
    case freight
    note m = freight_moves [OF freight(2)]
    obtain p where p: "Unmarshal freightInput_fields (c_Payload c) freightInput_zero = Some p"
      "validID (fi_CostID p) ''CST''"
      using validate_freight [OF facts(2) freight(1)] by blast
    have "custody_step ''RecordFreightCost'' Logistics (custody_of b refs) (custody_of b refs
        \<lparr> cu_freight := True, cu_version := cu_version (custody_of b refs) + 1 \<rparr>)"
      by (rule custody_step.record_freight) (use m in \<open>auto simp: sets\<close>)
    moreover have "x_Actor x = Logistics" using caller freight(1) by (simp add: expected_caller_def)
    ultimately show ?thesis
      using freight(1) validID_nonempty [OF p(2)] version
      by (simp add: custody_of_def m payload_of_eq [OF p(1)])
  next
    case report
    note m = report_moves [OF report(2)]
    have "custody_step ''ReportRetailPrice'' Retailer (custody_of b refs) (custody_of b refs
        \<lparr> cu_phase := PhaseRetailReported, cu_version := cu_version (custody_of b refs) + 1 \<rparr>)"
      by (rule custody_step.report_price) (simp_all add: sets m)
    then show ?thesis using caller report(1) by (simp add: sets m expected_caller_def)
  qed
qed

lemma create_custody:
  assumes checks: "apply_checks L s c x = Inr (exists, b, refs)" and s: "fresh s"
    and world: "world_ok (at L (view s))" and ex: "\<not> exists"
    and draft: "apply_command L s c x b refs v = Inr d"
  shows "c_Command c = ''CreateBatch''"
    and "custody_of (advance x b (d_batch d)) (d_refs d) = initial_custody (b_QuantityGrams (d_batch d))"
proof -
  note facts = apply_checks_facts [OF checks s world]
  show cmd: "c_Command c = ''CreateBatch''" using facts(6) ex by simp
  have actor: "x_Actor x = Producer"
    using permitted_caller [OF facts(1)] cmd by (simp add: expected_caller_def)
  have b: "b = Batch_zero" "refs = EvidenceRefs_zero \<lparr> e_SchemaVersion := ''agrochain.batch-evidence.v1'',
      e_BatchID := c_BatchID c \<rparr>"
    using facts(9) ex by simp_all
  have "apply_create L s c x refs v = Inr d" using draft cmd by (simp add: apply_command_def)
  then show "custody_of (advance x b (d_batch d)) (d_refs d) = initial_custody (b_QuantityGrams (d_batch d))"
    using actor b
    by (auto simp: apply_create_def Let_def rbind_eq_Inr custody_of_def initial_custody_def new_batch_def
        advance_def Batch_zero_def wrap64_def EvidenceRefs_zero_def split: if_splits)
qed

text \<open>A successful command moves its own batch by one rule, or creates it, and no other.\<close>

lemma apply_custody:
  assumes provider: "evidence_provider L evidence" and s: "fresh s"
    and world: "world_ok (at L (view s))"
    and run: "engine_apply L evidence c x s = (Inr receipt, s')"
    and ids: "validID (c_BatchID c) ''BAT''" "validID (c_OperationID c) ''OP''"
    and after: "batch_here (at L (view s')) i b' r'"
  shows "batch_here (at L (view s)) i b' r'
    \<or> (\<exists>b r. batch_here (at L (view s)) i b r
          \<and> custody_step (c_Command c) (x_Actor x) (custody_of b r) (custody_of b' r'))
    \<or> (no_batch (at L (view s)) i \<and> c_Command c = ''CreateBatch''
          \<and> custody_of b' r' = initial_custody (b_QuantityGrams b'))"
proof (rule apply_effect [OF provider s world run ids])
  fix exists b refs v d
  assume checks: "apply_checks L s c x = Inr (exists, b, refs)" and ev: "evidence c b refs = Inr v"
    and draft: "apply_command L s c x b refs v = Inr d"
    and here: "batch_here (at L (view s')) (c_BatchID c) (advance x b (d_batch d)) (d_refs d)"
    and same: "\<And>j b r. j \<noteq> c_BatchID c \<Longrightarrow> batch_here (at L (view s)) j b r \<Longrightarrow>
      batch_here (at L (view s')) j b r"
    and none: "\<And>j. j \<noteq> c_BatchID c \<Longrightarrow> no_batch (at L (view s)) j \<Longrightarrow> no_batch (at L (view s')) j"
  note facts = apply_checks_facts [OF checks s world]
  show ?thesis
  proof (cases "i = c_BatchID c")
    case True
    then have eq: "b' = advance x b (d_batch d)" "r' = d_refs d"
      using batch_here_unique [OF after] here by simp_all
    show ?thesis
    proof (cases exists)
      case ex: True
      then show ?thesis
        using command_custody [OF checks s world ex provider ev draft ids] facts(9) True eq by auto
    next
      case ex: False
      then show ?thesis
        using create_custody [OF checks s world ex draft] facts(9) True eq by simp
    qed
  next
    case False
    have "\<not> no_batch (at L (view s)) i"
    proof
      assume "no_batch (at L (view s)) i"
      then have "no_batch (at L (view s')) i" by (rule none [OF False])
      with after show False by (simp add: no_batch_def batch_here_def)
    qed
    then obtain b1 r1 where "batch_here (at L (view s)) i b1 r1" using world by (auto simp: world_ok_def)
    moreover from this have "b1 = b'" "r1 = r'"
      using batch_here_unique [OF after] same [OF False] by blast+
    ultimately show ?thesis by blast
  qed
qed

end

subsection \<open>Transactions follow the rules\<close>

lemma context_actor: "invoke_context i msp role = Inr x \<Longrightarrow> x_Actor x = msp"
  by (auto simp: invoke_context_def executionFromStub_def split: if_splits option.splits)

context shim_stub begin

lemma dispatch_custody:
  assumes run: "dispatch (fabricLedger stub) msp role fn args [p] s = (Inr r0, s')"
    and x: "x_Actor (pr_x p) = msp"
    and s: "fresh s" and world: "world_ok (at stub (view s))"
    and after: "batch_here (at stub (view s')) i b' r'"
  shows "batch_here (at stub (view s)) i b' r'
    \<or> (\<exists>b r. batch_here (at stub (view s)) i b r
          \<and> custody_step fn msp (custody_of b r) (custody_of b' r'))
    \<or> (no_batch (at stub (view s)) i \<and> fn = ''CreateBatch''
          \<and> custody_of b' r' = initial_custody (b_QuantityGrams b'))"
  using run
proof (cases rule: dispatch_cases)
  case read
  then show ?thesis using after by simp
next
  case (boot y raw c)
  have "at stub (view s) kind attrs = at stub (view s') kind attrs"
    if "kind \<in> {''batch'', ''batchEvidence'', ''history'', ''owner'', ''state'', ''transfer'',
      ''pendingTransfer''}" for kind attrs
  proof -
    have "kind \<notin> set trust_kinds" using that by (auto simp: trust_kinds_def)
    then show ?thesis using fabric.bootstrap_frame [OF boot(3), of kind attrs] by simp
  qed
  then have "batch_here (at stub (view s)) i b' r'" by (rule batch_here_cong [OF _ after])
  then show ?thesis by blast
next
  case command
  from command(2) show ?thesis
  proof (rule dispatch_command_success)
    fix c P pr receipt
    assume c: "parseCommand fn (hd args) = Inr c" and pr: "[p] = [pr]"
      and run: "engine_apply (fabricLedger stub) (prepare (fabricLedger stub) P s (pr_transient pr) (pr_x pr))
          c (pr_x pr) s = (Inr receipt, s')"
    show ?thesis
      using fabric.apply_custody [OF real_evidence.evidence_provider_axioms s _ run
          parseCommand_ids(2,3) [OF c]] world after pr x parseCommand_ids(1) [OF c] by simp
  qed
qed

theorem reachable_custody:
  assumes start: "fresh s0" "\<And>k. view s0 k = []"
    and "reachable stub commit s0 s" and "batch_here (at stub (view s)) i b r"
  shows "\<exists>acts. custody_run (initial_custody (b_QuantityGrams b)) acts (custody_of b r)"
  using assms(3,4)
proof (induction arbitrary: b r rule: reachable.induct)
  case start
  then show ?case using assms(2) by (auto simp: batch_here_def at_def batch_encoded_nonempty split: option.splits)
next
  case (transaction s t bs s')
  have world: "fresh s" "world_ok (at stub (view s))"
    using reachable_world [OF start transaction(1)] by simp_all
  have here: "batch_here (at stub (view s')) i b r" using transaction(4) by (simp add: commit)
  from transaction(2) show ?case
  proof (rule Invoke_Success)
    fix msp role x tr r0
    assume x: "invoke_context t msp role = Inr x"
      and run: "dispatch (fabricLedger stub) msp role (inv_Function t) (inv_Parameters t)
        [\<lparr> pr_x = x, pr_transient = tr \<rparr>] s = (Inr r0, s')"
    have actor: "x_Actor (pr_x \<lparr> pr_x = x, pr_transient = tr \<rparr>) = msp"
      using context_actor [OF x] by simp
    from dispatch_custody [OF run actor world here] show ?thesis
    proof (elim disjE exE conjE)
      assume "batch_here (at stub (view s)) i b r"
      then show ?thesis by (rule transaction(3))
    next
      fix b0 r0
      assume step: "custody_step (inv_Function t) msp (custody_of b0 r0) (custody_of b r)"
        and "batch_here (at stub (view s)) i b0 r0"
      then obtain acts where
        "custody_run (initial_custody (b_QuantityGrams b0)) acts (custody_of b0 r0)"
        using transaction(3) by blast
      note all = custody_run_append [OF this step]
      from custody_run_order [OF all] have "b_QuantityGrams b = b_QuantityGrams b0"
        by (simp add: custody_of_def initial_custody_def)
      with all show ?thesis by auto
    next
      assume "custody_of b r = initial_custody (b_QuantityGrams b)"
      then show ?thesis using custody_run.done' by metis
    qed
  qed
qed

end

end
