(* ===== verification/Ordering.thy ===== *)
theory Ordering
  imports Text
begin

text \<open>
  The padded version numbers that end the keys of a batch's history: of ten digits each, in the
  order of the numbers.
\<close>

definition number :: "bytes \<Rightarrow> int" where
  "number s = foldl (\<lambda>a c. a * 10 + digit_val c) 0 s"

lemma foldl_number: "foldl (\<lambda>a c. a * 10 + digit_val c) a s = a * 10 ^ length s + number s"
proof (induction s arbitrary: a)
  case (Cons c s)
  have "foldl (\<lambda>a c. a * 10 + digit_val c) a (c # s) = (a * 10 + digit_val c) * 10 ^ length s + number s"
    by (simp add: Cons.IH)
  moreover have "number (c # s) = digit_val c * 10 ^ length s + number s"
    unfolding number_def using Cons.IH [of "digit_val c"] by (simp add: number_def)
  ultimately show ?case by (simp add: algebra_simps)
qed (simp add: number_def)

lemma number_Cons: "number (c # s) = digit_val c * 10 ^ length s + number s"
  unfolding number_def using foldl_number [of "digit_val c" s] by (simp add: number_def)

lemma number_Nil [simp]: "number [] = 0"
  by (simp add: number_def)

lemma parse_digits_number: "list_all is_digit s \<Longrightarrow> parse_digits a s = Some (a * 10 ^ length s + number s)"
  by (induction s arbitrary: a) (simp_all add: number_Cons algebra_simps)

lemma digit_val_bounds: "is_digit c \<Longrightarrow> 0 \<le> digit_val c \<and> digit_val c \<le> 9"
  by (simp add: is_digit_def digit_val_def)

lemma number_range: "list_all is_digit s \<Longrightarrow> 0 \<le> number s \<and> number s < 10 ^ length s"
proof (induction s)
  case (Cons c s)
  then have r: "0 \<le> digit_val c" "digit_val c \<le> 9" "0 \<le> number s" "number s < 10 ^ length s"
    using digit_val_bounds [of c] by simp_all
  then have "digit_val c * 10 ^ length s \<le> 9 * 10 ^ length s" by simp
  then have "digit_val c * 10 ^ length s + number s < 9 * 10 ^ length s + 10 ^ length s"
    using r(4) by (rule add_le_less_mono)
  moreover have "0 \<le> digit_val c * 10 ^ length s" using r(1) by simp
  ultimately show ?case using r(3) by (simp add: number_Cons)
qed simp

lemma digit_val_less: "digit_val c < digit_val d \<longleftrightarrow> c < d"
  by (simp add: digit_val_def less_char_def)

text \<open>Digit strings of one length are ordered as their numbers.\<close>

lemma number_less:
  "list_all is_digit s \<Longrightarrow> list_all is_digit t \<Longrightarrow> length s = length t \<Longrightarrow> s < t \<longleftrightarrow> number s < number t"
proof (induction s arbitrary: t)
  case (Cons c s)
  then obtain d u where t: "t = d # u" by (cases t) auto
  let ?p = "10 ^ length s :: int"
  have range: "0 \<le> number s" "number s < ?p" "0 \<le> number u" "number u < ?p"
    using Cons.prems number_range [of s] number_range [of u] t by simp_all
  have n: "number (c # s) = digit_val c * ?p + number s" "number t = digit_val d * ?p + number u"
    using Cons.prems t by (simp_all add: number_Cons)
  consider "c < d" | "c = d" | "d < c" by (cases c d rule: linorder_cases) auto
  then show ?case
  proof cases
    case 1
    then have "digit_val c + 1 \<le> digit_val d" by (simp add: digit_val_less [symmetric])
    then have "(digit_val c + 1) * ?p \<le> digit_val d * ?p" by (rule mult_right_mono) simp
    then show ?thesis using 1 n range t by (simp add: algebra_simps)
  next
    case 2
    then show ?thesis using Cons n t by simp
  next
    case 3
    then have "digit_val d + 1 \<le> digit_val c" by (simp add: digit_val_less [symmetric])
    then have "(digit_val d + 1) * ?p \<le> digit_val c * ?p" by (rule mult_right_mono) simp
    then show ?thesis using 3 n range t by (auto simp: algebra_simps)
  qed
qed simp

lemma number_format_uint: "0 \<le> n \<Longrightarrow> number (format_uint n) = n"
  using parse_digits_number [OF format_uint_digits, of n 0] parse_format_uint [of n] by simp

lemma format_uint_length: "n < 10 ^ k \<Longrightarrow> 0 < k \<Longrightarrow> length (format_uint n) \<le> k"
proof (induction n arbitrary: k rule: format_uint.induct)
  case (1 n)
  show ?case
  proof (cases "n < 10")
    case True
    then show ?thesis using 1(3) by (subst format_uint.simps) simp
  next
    case False
    then obtain j where k: "k = Suc j" using 1(2,3) by (cases k) auto
    have "n div 10 < 10 ^ j" using 1(2) k by simp
    moreover have "0 < j" using False 1(2) k by (cases j) auto
    ultimately show ?thesis using 1(1) [OF False] False k by (subst format_uint.simps) simp
  qed
qed

lemma format_padded_digits:
  assumes "0 \<le> n" "n < 10 ^ 10"
  shows "list_all is_digit (format_padded n)" "length (format_padded n) = 10" "number (format_padded n) = n"
proof -
  have f: "format_padded n = replicate (10 - length (format_uint n)) (CHR ''0'') @ format_uint n"
    using assms(1) by (simp add: format_padded_def Let_def)
  have l: "length (format_uint n) \<le> 10" by (rule format_uint_length [OF assms(2)]) simp
  have zeros: "number (replicate k (CHR ''0'') @ s) = number s" for k s
    by (induction k) (simp_all add: number_Cons digit_val_def)
  show "list_all is_digit (format_padded n)" "length (format_padded n) = 10" "number (format_padded n) = n"
    using format_uint_digits [OF assms(1)] l number_format_uint [OF assms(1)]
    by (auto simp: f zeros list_all_iff is_digit_def)
qed

lemma format_padded_less:
  assumes "0 \<le> m" "m < 10 ^ 10" "0 \<le> n" "n < 10 ^ 10"
  shows "format_padded m < format_padded n \<longleftrightarrow> m < n"
proof -
  note m = format_padded_digits [OF assms(1,2)] and n = format_padded_digits [OF assms(3,4)]
  have "format_padded m < format_padded n \<longleftrightarrow> number (format_padded m) < number (format_padded n)"
    by (rule number_less [OF m(1) n(1)]) (simp only: m(2) n(2))
  then show ?thesis unfolding m(3) n(3) .
qed

lemma format_padded_inject:
  assumes "0 \<le> m" "m < 10 ^ 10" "0 \<le> n" "n < 10 ^ 10" "format_padded m = format_padded n"
  shows "m = n"
  by (metis format_padded_digits(3) assms)

end
