(* ===== verification/Transactions.thy ===== *)
theory Transactions
  imports Lifecycle Ordering
begin

text \<open>
  What every transaction guarantees whatever it is asked: a rejected one leaves no trace, a
  query writes nothing, only a permitted caller succeeds, and the records that document what
  happened are written once and never change.
\<close>

subsection \<open>Rejections\<close>

lemma flush_keys_error: "flush_keys L p ks s = (Inl e, s') \<Longrightarrow> e = fail ''INTERNAL_ERROR''"
  by (induction L p ks s rule: flush_keys.induct) (auto split: option.splits)

lemma flush_error: "flush L p event s = (Inl e, s') \<Longrightarrow> e = fail ''INTERNAL_ERROR''"
  by (auto simp: flush_def canonical_def split: prod.splits sum.splits option.splits
      dest: flush_keys_error)

lemma write_private_error: "write_private L ws s = (Inl e, s') \<Longrightarrow> e = fail ''INTERNAL_ERROR''"
proof -
  have "write_private_all P vs t = (Inl e, t') \<Longrightarrow> e = fail ''INTERNAL_ERROR''" for P vs t t'
    by (induction P vs t rule: write_private_all.induct) (auto split: option.splits)
  then show "write_private L ws s = (Inl e, s') \<Longrightarrow> e = fail ''INTERNAL_ERROR''"
    by (auto simp: write_private_def split: if_splits option.splits)
qed

lemma write_keys_error: "write_keys L p ks s = (Inl e, s') \<Longrightarrow> e = fail ''INTERNAL_ERROR''"
  by (induction L p ks s rule: write_keys.induct) (auto split: option.splits)

lemma engine_apply_error:
  "engine_apply L evidence c x s = (Inl e, s') \<Longrightarrow> s' = s \<or> e = fail ''INTERNAL_ERROR''"
  by (auto simp: engine_apply_def split: sum.splits prod.splits
      dest: write_private_error flush_error)

lemma bootstrap_error:
  "bootstrap L x raw s = (Inl e, s') \<Longrightarrow> s' = s \<or> e = fail ''INTERNAL_ERROR''"
  by (auto simp: bootstrap_def split: sum.splits prod.splits dest: write_keys_error)

lemma dispatch_command_error:
  "dispatch_command L fn args request s = (Inl e, s') \<Longrightarrow> s' = s \<or> e = fail ''INTERNAL_ERROR''"
  by (auto simp: dispatch_command_def Let_def split: sum.splits prod.splits option.splits if_splits
      dest: engine_apply_error)

lemma dispatch_error:
  assumes "dispatch L msp role fn args request s = (Inl e, s')"
  shows "s' = s \<or> e = fail ''INTERNAL_ERROR''"
proof (cases "authorize msp role fn")
  case (Inl e0)
  then show ?thesis using assms by (simp add: dispatch_unfold)
next
  case (Inr u)
  consider (boot) "fn = ''Bootstrap''" | (cmd) "fn \<noteq> ''Bootstrap''" "isMutation fn"
    | (other) "fn \<noteq> ''Bootstrap''" "\<not> isMutation fn" by blast
  then show ?thesis
  proof cases
    case boot
    then show ?thesis
      using assms Inr bootstrap_error [of L "pr_x (hd request)" "hd args" s]
      by (auto simp: dispatch_unfold split: if_splits prod.splits sum.splits)
  next
    case cmd
    have "dispatch_command L fn args request s = (Inl e, s')"
      using assms Inr cmd by (simp add: dispatch_mutation)
    then show ?thesis by (rule dispatch_command_error)
  next
    case other
    then show ?thesis using assms Inr by (simp add: dispatch_unfold split: if_splits)
  qed
qed

text \<open>A reply that fails leaves the state, or tells that the ledger failed.\<close>

lemma Invoke_rejects:
  assumes "Invoke stub i s = (r, s')" "\<And>b. r \<noteq> Success b"
  shows "s' = s \<or> r = respond (fail ''INTERNAL_ERROR'')"
proof (cases "caller i")
  case (Inl e)
  then show ?thesis using assms by (auto simp: Invoke_def)
next
  case (Inr c)
  obtain msp role where c: "c = (msp, role)" by force
  show ?thesis
  proof (cases "invoke_context i msp role")
    case (Inl e)
    then show ?thesis using assms Inr c by (auto simp: Invoke_def)
  next
    case x: (Inr x)
    show ?thesis
    proof (cases "inv_Transient i")
      case None
      then show ?thesis using assms Inr c x by (auto simp: Invoke_def)
    next
      case (Some t)
      let ?run = "dispatch (fabricLedger stub) msp role (inv_Function i) (inv_Parameters i)
        [\<lparr> pr_x = x, pr_transient = t \<rparr>] s"
      obtain result where run: "?run = (result, s')" "r = reply result"
        using assms Inr c x Some by (auto simp: Invoke_def split: prod.splits)
      show ?thesis
      proof (cases result)
        case (Inl e)
        then have "s' = s \<or> e = fail ''INTERNAL_ERROR''" using run(1) by (intro dispatch_error) simp
        then show ?thesis using Inl run(2) by (auto simp: reply_def)
      next
        case (Inr v)
        then show ?thesis
          using run(2) assms(2) by (cases v) (auto simp: reply_def canonical_def)
      qed
    qed
  qed
qed

text \<open>Only mutations and the bootstrap write.\<close>

lemma dispatch_reads:
  "\<not> isMutation fn \<Longrightarrow> fn \<noteq> ''Bootstrap'' \<Longrightarrow> snd (dispatch L msp role fn args request s) = s"
  by (cases "authorize msp role fn") (simp_all add: dispatch_unfold)

lemma Invoke_reads:
  assumes "\<not> isMutation (inv_Function i)" "inv_Function i \<noteq> ''Bootstrap''"
  shows "snd (Invoke stub i s) = s"
  unfolding Invoke_def
  by (auto simp: dispatch_reads [OF assms] split: sum.split prod.split option.split)
    (metis dispatch_reads [OF assms] snd_conv)

subsection \<open>Records that never change\<close>

text \<open>
  The kinds of key that a transaction may write although they hold something.  The first six hold
  current state; a reference to a review action is only ever rewritten with its own value, which
  \<open>Listing\<close> shows.  A plan is additive when every other key in it held nothing before.
\<close>

definition rewritten_kinds :: "bytes list" where
  "rewritten_kinds = [''batch'', ''batchEvidence'', ''owner'', ''state'', ''transfer'',
     ''pendingTransfer'', ''reviewActionReference'']"

definition additive :: "('e) externals_scheme \<Rightarrow> (bytes \<Rightarrow> bytes) \<Rightarrow> writePlan \<Rightarrow> bool" where
  "additive L w p \<longleftrightarrow> (\<forall>k \<in> fst ` set p. w k = []
     \<or> (\<exists>kind \<in> set rewritten_kinds. \<exists>attrs. CreateCompositeKey L kind attrs = Some k))"

lemma additive_empty [simp]: "additive L w []"
  by (simp add: additive_def)

lemma additive_put:
  assumes "additive L w p"
    and "w k = [] \<or> (\<exists>kind \<in> set rewritten_kinds. \<exists>attrs. CreateCompositeKey L kind attrs = Some k)"
  shows "additive L w (put_entry k v p)"
  using assms by (auto simp: additive_def)

lemma additive_mutable:
  "additive L w p \<Longrightarrow> CreateCompositeKey L kind attrs = Some k \<Longrightarrow> kind \<in> set rewritten_kinds \<Longrightarrow>
     additive L w (put_entry k v p)"
  by (rule additive_put) auto

lemma additive_new: "additive L w p \<Longrightarrow> w k = [] \<Longrightarrow> additive L w (put_entry k v p)"
  by (rule additive_put) auto

lemma keys_merge_plan: "fst ` set (merge_plan q p) = fst ` set q \<union> fst ` set p"
proof (induction q arbitrary: p)
  case (Cons e q)
  obtain k v where "e = (k, v)" by force
  then have "merge_plan (e # q) p = merge_plan q (put_entry k v p)" by (simp add: merge_plan_def)
  then show ?case using Cons \<open>e = (k, v)\<close> by auto
qed (simp add: merge_plan_def)

lemma additive_merge: "additive L w q \<Longrightarrow> additive L w p \<Longrightarrow> additive L w (merge_plan q p)"
  by (auto simp: additive_def keys_merge_plan)

text \<open>Without a configuration there is no source key and no policy either.\<close>

definition trust_world :: "public \<Rightarrow> bool" where
  "trust_world f \<longleftrightarrow> f ''configuration'' [''v1''] = [] \<longrightarrow>
     (\<forall>attrs. f ''sourceKey'' attrs = [] \<and> f ''policy'' attrs = [])"

text \<open>The whole invariant of the public ledger.\<close>

definition consistent :: "public \<Rightarrow> bool" where
  "consistent f \<longleftrightarrow> world_ok f \<and> trust_world f"

context ledger_store begin

lemma additive_unchanged:
  assumes "additive L (view s) p" and "view s' = outcome (map_of p) (view s)"
    and "kind \<notin> set rewritten_kinds"
  shows "at L (view s) kind attrs = [] \<or> at L (view s') kind attrs = at L (view s) kind attrs"
proof (cases "CreateCompositeKey L kind attrs")
  case (Some k)
  show ?thesis
  proof (cases "k \<in> fst ` set p")
    case True
    then have "view s k = []" using assms(1,3) key_eq_iff [OF Some] by (fastforce simp: additive_def)
    then show ?thesis using Some by (simp add: at_key)
  next
    case False
    then have "map_of p k = None" by (simp add: map_of_eq_None_iff)
    then show ?thesis using Some assms(2) by (simp add: at_key outcome_def)
  qed
qed (simp add: at_def)

lemma consume_additive:
  "consumeDocument L s doc c p = Inr q \<Longrightarrow> fresh s \<Longrightarrow> additive L (view s) p \<Longrightarrow> additive L (view s) q"
  by (auto simp: consumeDocument_def rbind_eq_Inr key_eq_Inr intro!: additive_new
      dest: absent_view split: if_splits)

text \<open>The switch of \<open>apply\<close>, by case.\<close>

lemma apply_command_cases:
  assumes "apply_command L s c x b refs v = Inr d"
  obtains (analysis) "c_Command c \<in> {''EvaluatePrice'', ''OpenReview'', ''ResolveReview''}" "apply_analysis c b refs = Inr d"
    | (create) "c_Command c = ''CreateBatch''" "apply_create L s c x refs v = Inr d"
    | (offer) "c_Command c \<in> {''OfferPickup'', ''OfferDelivery''}" "apply_offer L s c x b refs v = Inr d"
    | (accept) "c_Command c \<in> {''AcceptPickup'', ''AcceptDelivery''}" "apply_accept L s c x b refs = Inr d"
    | (freight) "c_Command c = ''RecordFreightCost''" "apply_freight L s c x b refs v = Inr d"
    | (report) "c_Command c = ''ReportRetailPrice''" "apply_report L s c x b refs v = Inr d"
  using assms unfolding apply_command_def Let_def
  by (auto split: if_splits)

lemma offer_additive:
  assumes "offer_pickup_evidence L s c b refs v = Inr (refs', plan, ids)" and s: "fresh s"
  shows "additive L (view s) plan"
proof -
  obtain p1 p2 where p: "consumeDocument L s (v_Purchase v) c [] = Inr p1"
    "consumeDocument L s (v_HKS v) c p1 = Inr p2" "consumeDocument L s (v_Manifest v) c p2 = Inr plan"
    using assms(1)
    by (auto simp: offer_pickup_evidence_def rbind_eq_Inr consume_and_note_def split: if_splits)
  show ?thesis
    using consume_additive [OF p(1) s] consume_additive [OF p(2) s] consume_additive [OF p(3) s] by simp
qed

lemma draft_additive:
  assumes "apply_command L s c x b refs v = Inr d" and s: "fresh s"
  shows "additive L (view s) (d_plan d)"
  using assms(1)
proof (cases rule: apply_command_cases)
  case analysis
  then show ?thesis by (auto simp: apply_analysis_def Let_def split: if_splits)
next
  case create
  then obtain plan where "consumeDocument L s (v_CKS v) c [] = Inr plan" "d_plan d = plan"
    by (auto simp: apply_create_def Let_def rbind_eq_Inr split: if_splits)
  then show ?thesis using consume_additive [OF _ s] by simp
next
  case offer
  show ?thesis
  proof (rule offer_cases [OF offer(2)])
    fix pk tk refs' plan ids
    assume k: "CreateCompositeKey L ''pendingTransfer'' [b_BatchID b] = Some pk"
      "CreateCompositeKey L ''transfer'' [hi_TransferID (payload_of handoffInput_fields handoffInput_zero c)] = Some tk"
      and ev: "(if (if c_Command c = ''OfferDelivery'' then ''DELIVERY'' else ''PICKUP'') = ''PICKUP''
        then offer_pickup_evidence L s c b refs v
        else if e_TransportDocumentID refs = [] then Inl (fail ''MISSING_EVIDENCE'')
        else Inr (refs, [], [c_BatchID c])) = Inr (refs', plan, ids)"
    have "additive L (view s) plan"
      using ev offer_additive [OF _ s] by (auto split: if_splits)
    then have "additive L (view s) (put_entry pk v1 (put_entry tk v2 plan))" for v1 v2
      by (intro additive_mutable [OF _ k(1)] additive_mutable [OF _ k(2)]) (simp_all add: rewritten_kinds_def)
    moreover assume "d_plan d = put_entry pk (Some (encoded (JStr (hi_TransferID
        (payload_of handoffInput_fields handoffInput_zero c)))))
      (put_entry tk (Some (encoded (marshal Transfer_fields (Transfer_zero
        \<lparr> t_SchemaVersion := ''agrochain.custody-transfer.v1'',
          t_TransferID := hi_TransferID (payload_of handoffInput_fields handoffInput_zero c),
          t_BatchID := b_BatchID b,
          t_Kind := (if c_Command c = ''OfferDelivery'' then ''DELIVERY'' else ''PICKUP''),
          t_Status := ''OFFERED'', t_FromMSP := x_Actor x,
          t_ToMSP := (if c_Command c = ''OfferDelivery'' then b_IntendedRetailerMSP b else b_LogisticsMSP b),
          t_QuantityGrams := b_QuantityGrams b,
          t_OfferOperationID := c_OperationID c, t_OfferedTxID := x_TxID x \<rparr>)))) plan)"
    ultimately show ?thesis by simp
  qed
next
  case accept
  show ?thesis
    by (rule accept_cases [OF accept(2)])
      (auto simp: delete_key_def rewritten_kinds_def simp del: put_entry.simps
        intro!: additive_mutable)
next
  case freight
  then obtain k w where "CreateCompositeKey L ''costReference''
      [fi_CostID (payload_of freightInput_fields freightInput_zero c)] = Some k"
    "absent L s k ''COST_ALREADY_EXISTS'' = Inr ()" "d_plan d = put_entry k w []"
    by (auto simp: apply_freight_def Let_def rbind_eq_Inr key_eq_Inr split: if_splits)
  then show ?thesis using absent_view [OF _ s] by (metis additive_empty additive_new)
next
  case report
  then obtain k1 k2 w1 w2 where "absent L s k1 ''LOT_ALREADY_EXISTS'' = Inr ()"
    "absent L s k2 ''REPORT_ALREADY_EXISTS'' = Inr ()" "d_plan d = put_entry k2 w2 (put_entry k1 w1 [])"
    by (auto simp: apply_report_def Let_def rbind_eq_Inr key_eq_Inr split: if_splits
        simp del: put_entry.simps)
  then show ?thesis using absent_view [OF _ s] by (metis additive_empty additive_new)
qed

lemma put_record_additive:
  assumes "put_record L (kind, attrs, v) p = Inr q" "additive L w p"
    and "kind \<in> set rewritten_kinds \<or> at L w kind attrs = []"
  shows "additive L w q"
  using assms
  by (auto simp: put_record_def rbind_eq_Inr key_eq_Inr at_key
      intro: additive_mutable additive_new simp del: put_entry.simps)

lemma drop_stale_additive:
  assumes "drop_stale L stale kind attrs p = Inr q" "additive L w p" "kind \<in> set rewritten_kinds"
  shows "additive L w q"
  using assms
  by (auto simp: drop_stale_def delete_key_def rbind_eq_Inr key_eq_Inr
      intro: additive_mutable simp del: put_entry.simps split: if_splits)

lemma finish_additive:
  assumes "finish L c x exists old d public = Inr (receipt, plan, event)"
    and "additive L w (d_plan d)" "additive L w public"
    and "at L w ''operation'' [x_Actor x, c_OperationID c] = []"
    and "at L w ''history'' [c_BatchID c, format_padded (b_Version (advance x old (d_batch d)))] = []"
  shows "additive L w plan"
proof -
  let ?b = "advance x old (d_batch d)"
  let ?r = "marshal Receipt_fields (receipt_for c x ?b (sortedUnique (d_ids d)))"
  obtain p1 p2 p3 p4 p5 p6 p7 p8 where
    p: "put_record L (''batch'', [c_BatchID c], marshal Batch_fields ?b) (d_plan d) = Inr p1"
       "put_record L (''batchEvidence'', [c_BatchID c], marshal EvidenceRefs_fields (d_refs d)) p1 = Inr p2"
       "put_record L (''operation'', [x_Actor x, c_OperationID c], ?r) p2 = Inr p3"
       "put_record L (''history'', [c_BatchID c, format_padded (b_Version ?b)], ?r) p3 = Inr p4"
       "put_record L (''owner'', [b_OwnerMSP ?b, b_BatchID ?b], JStr (b_BatchID ?b)) p4 = Inr p5"
       "put_record L (''state'', [b_State ?b, b_BatchID ?b], JStr (b_BatchID ?b)) p5 = Inr p6"
       "drop_stale L (exists \<and> b_OwnerMSP old \<noteq> b_OwnerMSP ?b) ''owner'' [b_OwnerMSP old, b_BatchID ?b] p6 = Inr p7"
       "drop_stale L (exists \<and> b_State old \<noteq> b_State ?b) ''state'' [b_State old, b_BatchID ?b] p7 = Inr p8"
    and plan: "plan = merge_plan public p8"
    using assms(1) by (auto simp: finish_def Let_def rbind_eq_Inr)
  note step = put_record_additive [OF p(1) assms(2)]
  have "additive L w p8"
    by (intro drop_stale_additive [OF p(8)] drop_stale_additive [OF p(7)] put_record_additive [OF p(6)]
        put_record_additive [OF p(5)] put_record_additive [OF p(4)] put_record_additive [OF p(3)]
        put_record_additive [OF p(2)] put_record_additive [OF p(1)] assms(2))
      (use assms(4,5) in \<open>simp_all add: rewritten_kinds_def\<close>)
  then show ?thesis unfolding plan using assms(3) by (intro additive_merge)
qed

subsection \<open>The evidence of a command adds only new records\<close>

lemma mark_document_additive:
  assumes "mark_document L s c x doc public = Inr public'" "fresh s" "additive L (view s) public"
  shows "additive L (view s) public'"
proof -
  let ?h = "env_Header (bu_Envelope doc)"
  obtain k1 k2 k3 p1 p2 p3 where
    m: "mark_used L s c x (k1, ''DOCUMENT_ALREADY_USED'') public = Inr p1"
      "mark_used L s c x (k2, ''DOCUMENT_ALREADY_USED'') p1 = Inr p2"
      "mark_used L s c x (k3, ''SOURCE_NONCE_ALREADY_USED'') p2 = Inr p3"
    and p: "public' = put_entry k1 (Some (encoded (marshal envelope_fields (bu_Envelope doc)))) p3"
    using assms(1) by (auto simp: mark_document_def Let_def rbind_eq_Inr)
  have used: "view s k = [] \<and> (\<exists>v. q' = put_entry k v q)"
    if "mark_used L s c x (k, code) q = Inr q'" for k code q q'
    using that absent_view [OF _ assms(2)]
    by (auto simp: mark_used_def rbind_eq_Inr split: if_splits simp del: put_entry.simps)
  show ?thesis
    using used [OF m(1)] used [OF m(2)] used [OF m(3)] assms(3)
    unfolding p by (auto intro!: additive_new simp del: put_entry.simps)
qed

lemma prepare_document_additive:
  assumes "prepare_document L s t x c b doc acc = Inr acc'" "fresh s"
    and "additive L (view s) (v_Public (snd acc))"
  shows "additive L (view s) (v_Public (snd acc'))"
proof -
  obtain required v where acc: "acc = (required, v)" by force
  obtain public v1 collection where m: "mark_document L s c x doc (v_Public v) = Inr public"
    and v1: "document_claim L t x c b doc (v \<lparr> v_Public := public \<rparr>) = Inr (v1, collection)"
    and acc': "v_Public (snd acc') = v_Public v1"
    using assms(1) unfolding acc
    by (auto simp: prepare_document_def Let_def rbind_eq_Inr split: if_splits dest: add_private_public)
  have "v_Public v1 = public" using document_claim_public [OF v1] by simp
  then show ?thesis using mark_document_additive [OF m assms(2)] assms(3) acc acc' by simp
qed

lemma analysis_additive:
  assumes "analysis L P s t x c b refs = Inr v" and s: "fresh s"
  shows "additive L (view s) (v_Public v)"
proof -
  let ?p = "payload_of analysisInput_fields analysisInput_zero c"
  obtain a v0 where v0: "(if c_Command c = ''EvaluatePrice'' then analysis_evaluate L P s t x c b refs ?p
       else analysis_review L P s t x c b ?p) = Inr (a, v0)" and v: "v_Public v = v_Public v0"
    using assms(1)
    by (auto simp: analysis_def Let_def rbind_eq_Inr split: if_splits dest: add_private_public)
  show ?thesis
  proof (cases "c_Command c = ''EvaluatePrice''")
    case True
    then obtain k1 k2 w where "absent L s k1 ''ANOMALY_ALREADY_EXISTS'' = Inr ()"
      "absent L s k2 ''ANOMALY_ALREADY_EXISTS'' = Inr ()"
      "v_Public v0 = put_entry k2 w (put_entry k1 w [])"
      using v0
      by (auto simp: analysis_evaluate_def Let_def rbind_eq_Inr split: if_splits
          simp del: put_entry.simps)
    then show ?thesis
      using v absent_view [OF _ s] by (auto intro!: additive_new simp del: put_entry.simps)
  next
    case False
    then obtain k1 w where "CreateCompositeKey L ''reviewActionReference'' [ai_AnomalyID ?p, c_OperationID c] = Some k1"
      "v_Public v0 = put_entry k1 w []"
      using v0
      by (auto simp: analysis_review_def Let_def rbind_eq_Inr key_eq_Inr verified_zero_def
          split: if_splits simp del: put_entry.simps dest!: add_private_public)
    then show ?thesis
      using v by (auto intro!: additive_mutable simp: rewritten_kinds_def simp del: put_entry.simps)
  qed
qed

lemma prepare_additive:
  assumes run: "prepare L P s t x c b refs = Inr v" and s: "fresh s"
  shows "additive L (view s) (v_Public v)"
proof (cases "c_Command c \<in> {''EvaluatePrice'', ''OpenReview'', ''ResolveReview''}")
  case True
  then show ?thesis using run analysis_additive [OF _ s] by (simp add: prepare_analysis)
next
  case False
  show ?thesis
  proof (rule prepare_stages [OF run False])
    fix config required extra documents required' v1
    assume docs: "fold_result (prepare_document L s t x c b) documents (required, verified_zero) = Inr (required', v1)"
      and v: "if c_Command c = ''ReportRetailPrice'' then prepare_report L P s t x config c b refs v1 = Inr v
        else v = v1"
    have "additive L (view s) (v_Public (snd (required', v1)))"
      by (rule fold_result_invariant [OF docs, where P = "\<lambda>a. additive L (view s) (v_Public (snd a))"])
        (auto simp: verified_zero_def intro: prepare_document_additive [OF _ s])
    then show ?thesis using v by (auto split: if_splits dest!: prepare_report_public)
  qed
qed

subsection \<open>A command adds only new records\<close>

lemma history_new:
  assumes "batch_here f i b r \<or> no_batch f i" "v = b_Version b + 1 \<or> no_batch f i" "1 \<le> v" "v \<le> 2147483647"
  shows "f ''history'' [i, format_padded v] = []"
  using assms(1,2)
proof (elim disjE)
  assume here: "batch_here f i b r" and v: "v = b_Version b + 1"
  have hist: "f ''history'' [i, w] \<noteq> [] \<longleftrightarrow> (\<exists>n. 1 \<le> n \<and> n \<le> b_Version b \<and> w = format_padded n)" for w
    using here by (auto simp: batch_here_def index_world_def batch_shape_def)
  have "format_padded v \<noteq> format_padded n" if "1 \<le> n" "n \<le> b_Version b" for n
    using format_padded_inject [of v n] that assms(3,4) v by fastforce
  then show ?thesis using hist by blast
qed (simp_all add: no_batch_def)

lemma engine_apply_additive:
  assumes s: "fresh s" and world: "world_ok (at L (view s))"
    and run: "engine_apply L (prepare L P s t x) c x s = (Inr receipt, s')"
    and ids: "validID (c_BatchID c) ''BAT''" "validID (c_OperationID c) ''OP''"
    and kind: "kind \<notin> set rewritten_kinds"
  shows "at L (view s) kind attrs = [] \<or> at L (view s') kind attrs = at L (view s) kind attrs"
proof -
  from engine_apply_view [OF run] obtain exists old refs v d plan event where
    checks: "apply_checks L s c x = Inr (exists, old, refs)" and ev: "prepare L P s t x c old refs = Inr v"
    and draft: "apply_command L s c x old refs v = Inr d"
    and fin: "finish L c x exists old d (v_Public v) = Inr (receipt, plan, event)"
    and view: "view s' = outcome (map_of plan) (view s)" .
  note facts = apply_checks_facts [OF checks s world]
  have "draft_ok (at L (view s)) (at L (outcome (map_of (d_plan d)) (view s))) (c_BatchID c) x old d"
    by (rule command_draft [OF checks s world draft ids])
  then have version: "b_Version (advance x old (d_batch d)) = b_Version old + 1"
    "1 \<le> b_Version (advance x old (d_batch d))" "b_Version (advance x old (d_batch d)) \<le> 2147483647"
    by (simp_all add: draft_ok_def batch_shape_def)
  have hist: "at L (view s) ''history'' [c_BatchID c, format_padded (b_Version (advance x old (d_batch d)))] = []"
    by (rule history_new [where b = old and r = refs, OF _ _ version(2,3)])
      (use facts(9) version(1) in \<open>auto split: if_splits\<close>)
  have "additive L (view s) plan"
    by (rule finish_additive [OF fin draft_additive [OF draft s] prepare_additive [OF ev s] facts(5) hist])
  then show ?thesis by (rule additive_unchanged [OF _ view kind])
qed

text \<open>A command leaves the trusted configuration alone.\<close>

lemma engine_apply_trust:
  assumes s: "fresh s" and world: "world_ok (at L (view s))"
    and provider: "evidence_provider L evidence"
    and run: "engine_apply L evidence c x s = (Inr receipt, s')"
    and ids: "validID (c_BatchID c) ''BAT''" "validID (c_OperationID c) ''OP''"
    and kind: "kind \<in> set trust_kinds"
  shows "at L (view s') kind attrs = at L (view s) kind attrs"
proof -
  from engine_apply_view [OF run] obtain exists old refs v d plan event where
    checks: "apply_checks L s c x = Inr (exists, old, refs)" and ev: "evidence c old refs = Inr v"
    and draft: "apply_command L s c x old refs v = Inr d"
    and fin: "finish L c x exists old d (v_Public v) = Inr (receipt, plan, event)"
    and view: "view s' = outcome (map_of plan) (view s)" .
  have "frame (at L (view s)) (at L (outcome (map_of (d_plan d)) (view s))) (c_BatchID c)"
    using command_draft [OF checks s world draft ids] by (simp add: draft_ok_def)
  moreover have other: "kind \<notin> set evidence_kinds" "kind \<notin> set draft_kinds"
    "kind \<notin> {''batch'', ''batchEvidence'', ''operation'', ''history'', ''owner'', ''state''}"
    using kind by (auto simp: trust_kinds_def evidence_kinds_def draft_kinds_def)
  ultimately show ?thesis
    using finish_effect [OF fin evidence_provider.public_marks [OF provider ev] other(1), of "view s" attrs]
    by (simp add: view settled_other [OF other(3)] frame_other)
qed

subsection \<open>A bootstrap adds only new records\<close>

lemma register_source_additive:
  assumes "register_source L x k st = Inr st'" and "additive L w (bl_plan st)"
    and "\<And>attrs. at L w ''sourceKey'' attrs = []"
  shows "additive L w (bl_plan st')"
proof -
  obtain rk v where rk: "CreateCompositeKey L ''sourceKey'' [sk_IssuerID k, sk_KeyID k] = Some rk"
    and plan: "bl_plan st' = put_entry rk (Some v) (bl_plan st)"
    using assms(1)
    by (auto simp: register_source_def rbind_eq_Inr key_eq_Inr split: if_splits simp del: put_entry.simps)
  have "w rk = []" using assms(3) [of "[sk_IssuerID k, sk_KeyID k]"] rk by (simp add: at_key)
  then show ?thesis unfolding plan by (rule additive_new [OF assms(2)])
qed

lemma bootstrap_effect:
  assumes run: "bootstrap L x raw s = (Inr c, s')" and s: "fresh s"
    and trust: "trust_world (at L (view s))"
  shows "kind \<notin> set rewritten_kinds \<Longrightarrow>
      at L (view s) kind attrs = [] \<or> at L (view s') kind attrs = at L (view s) kind attrs"
    and "at L (view s) ''configuration'' [''v1''] = []"
    and "at L (view s') ''configuration'' [''v1''] = encoded (marshal configuration_fields c)"
proof -
  obtain plan where run': "bootstrap_plan L s x raw = Inr (c, plan)"
    and view: "view s' = outcome (map_of plan) (view s)"
    using bootstrap_view [OF run] by blast
  obtain k1 k2 w2 st where k: "CreateCompositeKey L ''configuration'' [''v1''] = Some k1"
      "CreateCompositeKey L ''policy'' [cf_PolicyID c] = Some k2"
    and ab: "absent L s k1 ''CONFIGURATION_ALREADY_EXISTS'' = Inr ()"
    and st: "fold_result (register_source L x) (cf_Sources c)
       \<lparr> bl_plan = [], bl_seenKeys = [], bl_seen = [], bl_last = [] \<rparr> = Inr st"
    and plan: "plan = put_entry k2 (Some w2)
      (put_entry k1 (Some (encoded (marshal configuration_fields c))) (bl_plan st))"
    using run'
    by (auto simp: bootstrap_plan_def rbind_eq_Inr key_eq_Inr split: if_splits)
  show none: "at L (view s) ''configuration'' [''v1''] = []"
    using absent_view [OF ab s] k(1) by (simp add: at_key)
  then have empty: "at L (view s) ''sourceKey'' as = []" "at L (view s) ''policy'' as = []" for as
    using trust by (simp_all add: trust_world_def)
  have "additive L (view s) (bl_plan st)"
    by (rule fold_result_invariant [OF st, where P = "\<lambda>t. additive L (view s) (bl_plan t)"])
      (auto intro: register_source_additive empty)
  then have "additive L (view s) plan"
    unfolding plan using none empty(2) [of "[cf_PolicyID c]"] k
    by (intro additive_new) (simp_all add: at_key)
  then show "kind \<notin> set rewritten_kinds \<Longrightarrow>
      at L (view s) kind attrs = [] \<or> at L (view s') kind attrs = at L (view s) kind attrs"
    by (rule additive_unchanged [OF _ view])
  show "at L (view s') ''configuration'' [''v1''] = encoded (marshal configuration_fields c)"
    unfolding view plan by (simp add: at_upd [OF k(2)] at_upd [OF k(1)] del: put_entry.simps)
qed

end

subsection \<open>Across transactions\<close>

context shim_stub begin

lemma dispatch_additive:
  assumes run: "dispatch (fabricLedger stub) msp role fn args request s = (Inr r, s')"
    and s: "fresh s" and world: "world_ok (at stub (view s))" and trust: "trust_world (at stub (view s))"
    and kind: "kind \<notin> set rewritten_kinds"
  shows "at stub (view s) kind attrs = [] \<or> at stub (view s') kind attrs = at stub (view s) kind attrs"
  using run
proof (cases rule: dispatch_cases)
  case (boot x raw c)
  then show ?thesis using fabric.bootstrap_effect(1) [OF boot(3) s] trust kind by simp
next
  case command
  from command(2) show ?thesis
  proof (rule dispatch_command_success)
    fix c P pr receipt
    assume c: "parseCommand fn (hd args) = Inr c"
      and run: "engine_apply (fabricLedger stub) (prepare (fabricLedger stub) P s (pr_transient pr) (pr_x pr))
          c (pr_x pr) s = (Inr receipt, s')"
    show ?thesis
      using fabric.engine_apply_additive [OF s _ run parseCommand_ids(2,3) [OF c] kind] world by simp
  qed
qed simp

lemma dispatch_trust:
  assumes run: "dispatch (fabricLedger stub) msp role fn args request s = (Inr r, s')"
    and s: "fresh s" and world: "world_ok (at stub (view s))" and trust: "trust_world (at stub (view s))"
  shows "trust_world (at stub (view s'))"
  using run
proof (cases rule: dispatch_cases)
  case read
  then show ?thesis using trust by simp
next
  case (boot x raw c)
  have "at stub (view s') ''configuration'' [''v1''] \<noteq> []"
    using fabric.bootstrap_effect(3) [OF boot(3) s] trust by simp
  then show ?thesis by (simp add: trust_world_def)
next
  case command
  from command(2) show ?thesis
  proof (rule dispatch_command_success)
    fix c P pr receipt
    assume c: "parseCommand fn (hd args) = Inr c"
      and run: "engine_apply (fabricLedger stub) (prepare (fabricLedger stub) P s (pr_transient pr) (pr_x pr))
          c (pr_x pr) s = (Inr receipt, s')"
    have "at stub (view s') kind attrs = at stub (view s) kind attrs" if "kind \<in> set trust_kinds" for kind attrs
      using fabric.engine_apply_trust [OF s _ real_evidence.evidence_provider_axioms run
          parseCommand_ids(2,3) [OF c] that] world by simp
    then show ?thesis using trust by (simp add: trust_world_def trust_kinds_def)
  qed
qed

text \<open>What holds in every committed state, and what further transactions may do to it.\<close>

lemma empty_consistent: "(\<And>k. view s k = []) \<Longrightarrow> consistent (at stub (view s))"
proof -
  assume "\<And>k. view s k = []"
  then have "at stub (view s) = (\<lambda>kind attrs. [])" by (auto simp: at_def fun_eq_iff split: option.splits)
  then show ?thesis by (simp add: consistent_def world_ok_empty trust_world_def)
qed

lemma transaction_consistent:
  assumes s: "fresh s" "consistent (at stub (view s))" and run: "Invoke stub i s = (Success b, s')"
  shows "consistent (at stub (view s'))"
  using run
  by (rule Invoke_Success) (use s in \<open>auto simp: consistent_def intro: dispatch_trust dispatch_world\<close>)

lemma later_consistent:
  assumes s: "fresh s" "consistent (at stub (view s))" and later: "reachable stub commit s s'"
  shows "fresh s' \<and> consistent (at stub (view s'))"
  using later
  by (induction rule: reachable.induct)
    (use s in \<open>auto simp: commit intro: transaction_consistent\<close>)

lemma transaction_additive:
  assumes s: "fresh s" "consistent (at stub (view s))" and run: "Invoke stub i s = (Success b, s')"
    and kind: "kind \<notin> set rewritten_kinds"
  shows "at stub (view s) kind attrs = [] \<or> at stub (view s') kind attrs = at stub (view s) kind attrs"
  using run
proof (rule Invoke_Success)
  fix msp role x t r
  assume "dispatch (fabricLedger stub) msp role (inv_Function i) (inv_Parameters i)
       [\<lparr> pr_x = x, pr_transient = t \<rparr>] s = (Inr r, s')"
  then show ?thesis using dispatch_additive s kind unfolding consistent_def by blast
qed

lemma later_additive:
  assumes s: "fresh s" "consistent (at stub (view s))" and later: "reachable stub commit s s'"
    and kind: "kind \<notin> set rewritten_kinds"
  shows "at stub (view s) kind attrs = [] \<or> at stub (view s') kind attrs = at stub (view s) kind attrs"
  using later
proof (induction rule: reachable.induct)
  case start
  then show ?case by simp
next
  case (transaction s1 i b s2)
  have "fresh s1 \<and> consistent (at stub (view s1))" by (rule later_consistent [OF s transaction(1)])
  then have "at stub (view s1) kind attrs = [] \<or> at stub (view s2) kind attrs = at stub (view s1) kind attrs"
    using transaction_additive [OF _ _ transaction(2) kind] by blast
  then show ?case using transaction.IH by (auto simp: commit)
qed

end

end
