(* ===== verification/Encoding.thy ===== *)
theory Encoding
  imports Ledger
begin

text \<open>
  What the JSON layer promises the rest: the parser's fuel is always enough, printing and
  parsing are inverse, the canonical encoding ignores the order of members, and the strict
  decoder accepts exactly the encodings it should.
\<close>

subsection \<open>Fuel\<close>




















subsection \<open>The strict decoder on canonical texts\<close>

lemma printed_valid: "json_ok v \<Longrightarrow> utf8_valid (encoded v)" "json_ok v \<Longrightarrow> 0 < len (encoded v)"
  using json_print_text [OF json_ok_sort, of v] encoded_nonempty [of v]
  by (simp_all add: text_ok_def len_def)

lemma strictJSON_encoded:
  assumes "json_ok v" "len (encoded v) \<le> 65536"
  shows "strictJSON (encoded v) =
    (if tokenValue 0 (json_sort v) then Inr (json_sort v) else Inl (fail ''INVALID_SCHEMA''))"
  using assms printed_valid [OF assms(1)]
  by (simp add: strictJSON_def json_parse_print json_ok_sort del: json_print.simps json_sort.simps)

text \<open>An upper bound of the length of a printed value, quick to evaluate.\<close>

fun width :: "jv \<Rightarrow> int" where
  "width (JObj ms) = 2 + sum_list (map (\<lambda>(k, v). 6 * len k + 4 + width v) ms)"
| "width (JArr vs) = 2 + sum_list (map (\<lambda>v. 1 + width v) vs)"
| "width (JStr s) = 6 * len s + 2"
| "width (JNum t) = len t"
| "width (JBool b) = 5"
| "width JNull = 4"

lemma escape_control_len: "is_control c \<Longrightarrow> len (escape_control c) \<le> 6"
  by (simp add: escape_control_def)

lemma escape_len: "len (escape s) \<le> 6 * len s"
proof (induction "length s" arbitrary: s rule: less_induct)
  case less
  show ?case
  proof (cases s)
    case (Cons c t)
    have IH: "len (escape t) \<le> 6 * len t" using less [of t] Cons by simp
    let ?separator = "\<exists>d u. c = CHR 0xE2 \<and> t = CHR 0x80 # d # u \<and> (d = CHR 0xA8 \<or> d = CHR 0xA9)"
    have copied: "escape (c # t) = c # escape t"
      if "\<not> (c = quote \<or> c = backslash)" "\<not> is_control c" "\<not> ?separator"
      by (subst escape.simps(2)) (use that in \<open>auto split: list.split\<close>)
    consider "c = quote \<or> c = backslash" | "\<not> (c = quote \<or> c = backslash)" "is_control c"
      | ?separator | "\<not> (c = quote \<or> c = backslash)" "\<not> is_control c" "\<not> ?separator"
      by argo
    then show ?thesis
    proof cases
      case 1
      then show ?thesis using IH Cons by auto
    next
      case 2
      then show ?thesis using IH Cons escape_control_len [of c] by simp
    next
      case 3
      then obtain d u where u: "c = CHR 0xE2" "t = CHR 0x80 # d # u" "d = CHR 0xA8 \<or> d = CHR 0xA9"
        by blast
      then have "len (escape u) \<le> 6 * len u" using less [of u] Cons by simp
      then show ?thesis using u Cons by (simp add: escape_E2 del: escape.simps)
    next
      case 4
      show ?thesis unfolding Cons copied [OF 4] using IH by simp
    qed
  qed simp
qed

lemma print_string_len: "text_ok s \<Longrightarrow> len (print_string s) \<le> 6 * len s + 2"
  using escape_len [of s] by (simp add: print_string_ok)

lemma join_len: "len (join xs) \<le> sum_list (map (\<lambda>x. 1 + len x) xs)"
  by (induction xs rule: join.induct) auto

lemma json_print_len: "json_ok v \<Longrightarrow> len (json_print v) \<le> width v"
proof (induction v rule: json_print.induct)
  case (1 ms)
  have "1 + len (member_text m) \<le> (case m of (k, v) \<Rightarrow> 6 * len k + 4 + width v)" if "m \<in> set ms" for m
    using that 1 print_string_len [of "fst m"] by (fastforce simp: list_all_iff)
  then have "sum_list (map (\<lambda>m. 1 + len (member_text m)) ms)
      \<le> sum_list (map (\<lambda>(k, v). 6 * len k + 4 + width v) ms)"
    by (rule sum_list_mono)
  then show ?case using join_len [of "map member_text ms"] by (simp add: comp_def)
next
  case (2 vs)
  have "sum_list (map (\<lambda>v. 1 + len (json_print v)) vs) \<le> sum_list (map (\<lambda>v. 1 + width v) vs)"
    by (rule sum_list_mono) (use 2 in \<open>auto simp: list_all_iff\<close>)
  then show ?case using join_len [of "map json_print vs"] by (simp add: comp_def)
qed (auto simp: print_string_len)

lemma sum_list_sort_key: "sum_list (map g (sort_key f xs)) = (sum_list (map g xs) :: int)"
proof -
  have "sum_list (map g (insort_key f y ys)) = g y + sum_list (map g ys)" for y ys
    by (induction ys) auto
  then show ?thesis by (induction xs) simp_all
qed

lemma width_sort [simp]: "width (json_sort v) = width v"
proof (induction v rule: json_sort.induct)
  case (1 ms)
  have "map ((\<lambda>(k, v). 6 * len k + 4 + width v) \<circ> map_prod id json_sort) ms
      = map (\<lambda>(k, v). 6 * len k + 4 + width v) ms"
    using 1 by (auto simp: map_prod_def)
  then show ?case by (simp only: json_sort.simps width.simps sum_list_sort_key map_map)
next
  case (2 vs)
  then have "map ((\<lambda>v. 1 + width v) \<circ> json_sort) vs = map (\<lambda>v. 1 + width v) vs" by simp
  then show ?case by (simp only: json_sort.simps width.simps map_map)
qed simp_all

lemma encoded_len: "json_ok v \<Longrightarrow> width v \<le> n \<Longrightarrow> len (encoded v) \<le> n"
  using json_print_len [OF json_ok_sort, of v] by simp

lemma decode_encoded:
  assumes "json_ok (JObj ms)" "width (JObj ms) \<le> 65536" "tokenValue 0 (json_sort (JObj ms))"
    and "len names = len ms" "list_all (\<lambda>k. k \<in> set (map fst ms)) names"
    and "Unmarshal fs (encoded (JObj ms)) z = Some r"
  shows "decode fs (encoded (JObj ms)) z names = Inr r"
proof -
  let ?ms = "sort_key fst (map (map_prod id json_sort) ms)"
  have "strictJSON (encoded (JObj ms)) = Inr (JObj ?ms)"
    using strictJSON_encoded [OF assms(1) encoded_len [OF assms(1,2)]] assms(3)
    by (simp only: json_sort.simps if_True)
  moreover have "len ?ms = len names" using assms(4) by (simp add: len_def)
  moreover have "set (map fst ?ms) = set (map fst ms)" by (force simp: image_iff)
  ultimately show ?thesis using assms(5,6) unfolding decode_eq_Inr by metis
qed

text \<open>
  Every struct without optional fields is accepted back by \<open>exact\<close>, when its encoding passes
  the strict decoder.
\<close>

context struct begin

lemma exact_encoded:
  assumes "P r" and all: "\<And>f. f \<in> set fs \<Longrightarrow> \<not> omitempty f"
    and "width (marshal fs r) \<le> 65536" "tokenValue 0 (json_sort (marshal fs r))"
  shows "exact fs (encoded (marshal fs r)) r0 = Inr r"
proof -
  have m: "marshal fs r = JObj (map (\<lambda>f. (tag f, encode_field f r)) fs)"
    using all by (simp add: marshal_def omitted_def filter_True)
  show ?thesis
    unfolding exact_def m
    by (rule decode_encoded)
      (use assms marshal_ok [OF assms(1)] Unmarshal_print [OF assms(1), of r0] all
       in \<open>auto simp: m list_all_iff image_iff len_def\<close>)
qed

end

end
