(* ===== verification/Progress.thy ===== *)
theory Progress
  imports Transactions Encoding
begin

text \<open>
  Progress: on a peer whose operations do not fail, the checks are all that stands between a
  command and its commit.  A command that satisfies them is committed, and a pending handover
  can always be accepted by its recipient.
\<close>

subsection \<open>A peer that does not fail\<close>

locale reliable_ledger = ledger_store +
  assumes key_exists: "list_all (list_all printable) (kind # as) \<Longrightarrow> \<exists>k. CreateCompositeKey L kind as = Some k"
    and read_total: "\<exists>v. l_read L s k = Some v"
    and write_total: "CreateCompositeKey L kind as = Some k \<Longrightarrow> \<exists>s'. l_write L k v s = Some s'"
    and remove_total: "CreateCompositeKey L kind as = Some k \<Longrightarrow> \<exists>s'. l_remove L k s = Some s'"
    and emit_total: "n \<noteq> [] \<Longrightarrow> \<exists>s'. l_emit L n v s = Some s'"
    and private_total: "\<exists>P. l_private L = Some P"
    and private_write_total: "l_private L = Some P \<Longrightarrow> CreateCompositeKey L kind as = Some k \<Longrightarrow>
          \<exists>s'. p_write P c k v s = Some s'"
begin

lemma key_total: "list_all (list_all printable) (kind # as) \<Longrightarrow> \<exists>k. key L kind as = Inr k"
  using key_exists by (simp add: key_def) (metis of_option_simps(2))

lemma load_missing: "fresh s \<Longrightarrow> view s k = [] \<Longrightarrow> load L s k c dst = Inr (False, dst)"
  using read_total [of s k] read_view [of s k] by (auto simp: load_def)

lemma load_present:
  "fresh s \<Longrightarrow> view s k \<noteq> [] \<Longrightarrow> decoded c dst (view s k) = Some r \<Longrightarrow> load L s k c dst = Inr (True, r)"
  using read_total [of s k] read_view [of s k] by (auto simp: load_def decoded_def len_def)

lemma absent_missing: "fresh s \<Longrightarrow> view s k = [] \<Longrightarrow> absent L s k code = Inr ()"
  using read_total [of s k] read_view [of s k] by (auto simp: absent_def)

end

text \<open>A plan all of whose keys are composite keys.\<close>

definition composite :: "('e) externals_scheme \<Rightarrow> writePlan \<Rightarrow> bool" where
  "composite L p \<longleftrightarrow> (\<forall>k \<in> fst ` set p. \<exists>kind attrs. CreateCompositeKey L kind attrs = Some k)"

lemma composite_empty [simp]: "composite L []"
  by (simp add: composite_def)

lemma composite_put:
  "composite L p \<Longrightarrow> CreateCompositeKey L kind attrs = Some k \<Longrightarrow> composite L (put_entry k v p)"
  by (auto simp: composite_def)

lemma composite_within: "plan_within L kinds p \<Longrightarrow> composite L p"
  by (fastforce simp: plan_within_def composite_def)

context reliable_ledger begin

lemma flush_keys_total:
  "composite L p \<Longrightarrow> set ks \<subseteq> fst ` set p \<Longrightarrow> \<exists>s'. flush_keys L p ks s = (Inr (), s')"
proof (induction ks arbitrary: s)
  case (Cons k ks)
  then obtain kind attrs where k: "CreateCompositeKey L kind attrs = Some k"
    by (fastforce simp: composite_def)
  have "\<exists>s1. (case map_of p k of Some (Some v) \<Rightarrow> l_write L k v s | _ \<Rightarrow> l_remove L k s) = Some s1"
    using write_total [OF k] remove_total [OF k] by (simp split: option.split)
  then show ?case using Cons by auto
qed simp

lemma flush_total:
  assumes "composite L p" "ev_EventType event \<noteq> []"
  shows "\<exists>s'. flush L p event s = (Inr (), s')"
proof -
  obtain s1 where s1: "flush_keys L p (sort (map fst p)) s = (Inr (), s1)"
    using flush_keys_total [OF assms(1), of "sort (map fst p)" s] by auto
  obtain s2 where "l_emit L (ev_EventType event) (encoded (marshal Event_fields event)) s1 = Some s2"
    using emit_total [OF assms(2)] by blast
  with s1 show ?thesis by (simp add: flush_def canonical_def)
qed

lemma write_private_total:
  assumes "\<forall>w \<in> set ws. \<exists>kind attrs. CreateCompositeKey L kind attrs = Some (pw_Key w)"
  shows "\<exists>s'. write_private L ws s = (Inr (), s')"
proof -
  obtain P where P: "l_private L = Some P" using private_total by blast
  have "\<exists>s'. write_private_all P ws s = (Inr (), s')"
    using assms
  proof (induction ws arbitrary: s)
    case (Cons w ws)
    then obtain kind attrs where "CreateCompositeKey L kind attrs = Some (pw_Key w)" by auto
    then obtain s1 where "p_write P (pw_Collection w) (pw_Key w) (pw_Value w) s = Some s1"
      using private_write_total [OF P] by blast
    then show ?case using Cons by simp
  qed simp
  then show ?thesis using P by (simp add: write_private_def)
qed

lemma put_record_total:
  assumes "composite L p" "list_all (list_all printable) (kind # attrs)"
  shows "\<exists>q. put_record L (kind, attrs, v) p = Inr q \<and> composite L q"
proof -
  obtain k where k: "CreateCompositeKey L kind attrs = Some k" using key_exists [OF assms(2)] by blast
  then show ?thesis using composite_put [OF assms(1) k] by (simp add: put_record_def key_def)
qed

lemma drop_stale_total:
  assumes "composite L p" "list_all (list_all printable) (kind # attrs)"
  shows "\<exists>q. drop_stale L stale kind attrs p = Inr q \<and> composite L q"
proof -
  obtain k where k: "CreateCompositeKey L kind attrs = Some k" using key_exists [OF assms(2)] by blast
  then show ?thesis
    using assms(1) composite_put [OF assms(1) k] by (simp add: drop_stale_def key_def delete_key_def)
qed

lemma finish_total:
  assumes "composite L (d_plan d)" "composite L public"
    and names: "list_all printable (c_BatchID c)" "list_all printable (x_Actor x)"
      "list_all printable (c_OperationID c)" "list_all printable (b_OwnerMSP old)"
      "list_all printable (b_State old)" "list_all printable (b_OwnerMSP (d_batch d))"
      "list_all printable (b_State (d_batch d))" "list_all printable (b_BatchID (d_batch d))"
  shows "\<exists>receipt plan event. finish L c x exists old d public = Inr (receipt, plan, event)
    \<and> composite L plan \<and> ev_EventType event = d_event d"
proof -
  let ?b = "advance x old (d_batch d)"
  let ?r = "marshal Receipt_fields (receipt_for c x ?b (sortedUnique (d_ids d)))"
  have kinds: "list_all printable ''batch''" "list_all printable ''batchEvidence''"
    "list_all printable ''operation''" "list_all printable ''history''" "list_all printable ''owner''"
    "list_all printable ''state''"
    by (simp_all add: printable_code)
  have padded: "list_all printable (format_padded n)" for n
    using format_uint_digits [of "\<bar>n\<bar>"]
    by (auto simp: format_padded_def Let_def printable_code list_all_iff is_digit_printable)
  obtain p1 where 1: "put_record L (''batch'', [c_BatchID c], marshal Batch_fields ?b) (d_plan d) = Inr p1" "composite L p1"
    using put_record_total [OF assms(1), of "''batch''" "[c_BatchID c]"] kinds names by auto
  obtain p2 where 2: "put_record L (''batchEvidence'', [c_BatchID c], marshal EvidenceRefs_fields (d_refs d)) p1 = Inr p2" "composite L p2"
    using put_record_total [OF 1(2), of "''batchEvidence''" "[c_BatchID c]"] kinds names by auto
  obtain p3 where 3: "put_record L (''operation'', [x_Actor x, c_OperationID c], ?r) p2 = Inr p3" "composite L p3"
    using put_record_total [OF 2(2), of "''operation''" "[x_Actor x, c_OperationID c]"] kinds names by auto
  obtain p4 where 4: "put_record L (''history'', [c_BatchID c, format_padded (b_Version ?b)], ?r) p3 = Inr p4" "composite L p4"
    using put_record_total [OF 3(2), of "''history''" "[c_BatchID c, format_padded (b_Version ?b)]"] kinds names padded by auto
  obtain p5 where 5: "put_record L (''owner'', [b_OwnerMSP ?b, b_BatchID ?b], JStr (b_BatchID ?b)) p4 = Inr p5" "composite L p5"
    using put_record_total [OF 4(2), of "''owner''" "[b_OwnerMSP ?b, b_BatchID ?b]"] kinds names by auto
  obtain p6 where 6: "put_record L (''state'', [b_State ?b, b_BatchID ?b], JStr (b_BatchID ?b)) p5 = Inr p6" "composite L p6"
    using put_record_total [OF 5(2), of "''state''" "[b_State ?b, b_BatchID ?b]"] kinds names by auto
  obtain p7 where 7: "drop_stale L (exists \<and> b_OwnerMSP old \<noteq> b_OwnerMSP ?b) ''owner'' [b_OwnerMSP old, b_BatchID ?b] p6 = Inr p7" "composite L p7"
    using drop_stale_total [OF 6(2), of "''owner''" "[b_OwnerMSP old, b_BatchID ?b]"] kinds names by auto
  obtain p8 where 8: "drop_stale L (exists \<and> b_State old \<noteq> b_State ?b) ''state'' [b_State old, b_BatchID ?b] p7 = Inr p8" "composite L p8"
    using drop_stale_total [OF 7(2), of "''state''" "[b_State old, b_BatchID ?b]"] kinds names by auto
  have "composite L (merge_plan public p8)"
    using assms(2) 8(2) by (auto simp: composite_def keys_merge_plan)
  then show ?thesis
    using 1(1) 2(1) 3(1) 4(1) 5(1) 6(1) 7(1) 8(1)
    by (simp add: finish_def Let_def event_for_def del: advance_simps)
qed

text \<open>The shared checks pass for an existing batch, and for a new one.\<close>

lemma apply_checks_existing:
  assumes s: "fresh s" and here: "batch_here (at L (view s)) (c_BatchID c) b r"
    and permitted: "permitted (x_Actor x) (x_Role x) (c_Command c)" and payload: "validatePayload c = Inr ()"
    and x: "match_hexID (x_TxID x)" "valid_context x"
    and new: "at L (view s) ''operation'' [x_Actor x, c_OperationID c] = []"
    and cmd: "c_Command c \<noteq> ''CreateBatch''" "b_Version b = c_ExpectedVersion c" "b_Version b \<noteq> 2147483647"
    and names: "list_all printable (c_BatchID c)" "list_all printable (x_Actor x)" "list_all printable (c_OperationID c)"
  shows "apply_checks L s c x = Inr (True, b, r)"
proof -
  have kinds: "list_all printable ''batch''" "list_all printable ''batchEvidence''" "list_all printable ''operation''"
    by (simp_all add: printable_code)
  obtain ok where ok: "CreateCompositeKey L ''operation'' [x_Actor x, c_OperationID c] = Some ok"
    using key_exists [of "''operation''" "[x_Actor x, c_OperationID c]"] kinds names by auto
  obtain bk where bk: "CreateCompositeKey L ''batch'' [c_BatchID c] = Some bk"
    using key_exists [of "''batch''" "[c_BatchID c]"] kinds names by auto
  obtain rk where rk: "CreateCompositeKey L ''batchEvidence'' [c_BatchID c] = Some rk"
    using key_exists [of "''batchEvidence''" "[c_BatchID c]"] kinds names by auto
  have ok': "absent L s ok ''DUPLICATE_TRANSACTION'' = Inr ()"
    using new ok by (intro absent_missing [OF s]) (simp add: at_key)
  have bv: "view s bk = encoded (marshal Batch_fields b)" "Batch_ok b"
    and rv: "view s rk = encoded (marshal EvidenceRefs_fields r)" "EvidenceRefs_ok r"
    using here bk rk by (simp_all add: batch_here_def at_key)
  have bl: "load L s bk (struct_codec Batch_fields) Batch_zero = Inr (True, b)"
    by (rule load_present [OF s]) (use bv batch_decoded [OF bv(2)] in simp_all)
  have rl: "load L s rk (struct_codec EvidenceRefs_fields) (EvidenceRefs_zero
      \<lparr> e_SchemaVersion := ''agrochain.batch-evidence.v1'', e_BatchID := c_BatchID c \<rparr>) = Inr (True, r)"
    by (rule load_present [OF s]) (use rv refs_decoded [OF rv(2)] in simp_all)
  have "authorize (x_Actor x) (x_Role x) (c_Command c) = Inr ()" using permitted by (simp add: authorize_permitted)
  then show ?thesis
    unfolding apply_checks_def Let_def
    using payload x ok ok' bk bl rk rl cmd by (simp add: key_def)
qed

lemma apply_checks_new:
  assumes s: "fresh s" and none: "no_batch (at L (view s)) (c_BatchID c)"
    and permitted: "permitted (x_Actor x) (x_Role x) (c_Command c)" and payload: "validatePayload c = Inr ()"
    and x: "match_hexID (x_TxID x)" "valid_context x"
    and new: "at L (view s) ''operation'' [x_Actor x, c_OperationID c] = []"
    and cmd: "c_Command c = ''CreateBatch''" "c_ExpectedVersion c = 0"
    and names: "list_all printable (c_BatchID c)" "list_all printable (x_Actor x)" "list_all printable (c_OperationID c)"
  shows "apply_checks L s c x = Inr (False, Batch_zero, EvidenceRefs_zero
      \<lparr> e_SchemaVersion := ''agrochain.batch-evidence.v1'', e_BatchID := c_BatchID c \<rparr>)"
proof -
  have kinds: "list_all printable ''batch''" "list_all printable ''operation''"
    by (simp_all add: printable_code)
  obtain ok where ok: "CreateCompositeKey L ''operation'' [x_Actor x, c_OperationID c] = Some ok"
    using key_exists [of "''operation''" "[x_Actor x, c_OperationID c]"] kinds names by auto
  obtain bk where bk: "CreateCompositeKey L ''batch'' [c_BatchID c] = Some bk"
    using key_exists [of "''batch''" "[c_BatchID c]"] kinds names by auto
  have ok': "absent L s ok ''DUPLICATE_TRANSACTION'' = Inr ()"
    using new ok by (intro absent_missing [OF s]) (simp add: at_key)
  have bl: "load L s bk (struct_codec Batch_fields) Batch_zero = Inr (False, Batch_zero)"
    using none bk by (intro load_missing [OF s]) (simp add: no_batch_def at_key)
  have "authorize (x_Actor x) (x_Role x) (c_Command c) = Inr ()" using permitted by (simp add: authorize_permitted)
  then show ?thesis
    unfolding apply_checks_def Let_def
    using payload x ok ok' bk bl cmd by (simp add: key_def Batch_zero_def)
qed

text \<open>A command whose checks pass is committed.\<close>

lemma engine_apply_total:
  assumes "apply_checks L s c x = Inr (exists, b, refs)" "evidence c b refs = Inr v"
    and "apply_command L s c x b refs v = Inr d"
    and "composite L (d_plan d)" "composite L (v_Public v)" "d_event d \<noteq> []"
    and "\<forall>w \<in> set (v_Private v). \<exists>kind attrs. CreateCompositeKey L kind attrs = Some (pw_Key w)"
    and "list_all printable (c_BatchID c)" "list_all printable (x_Actor x)"
      "list_all printable (c_OperationID c)" "list_all printable (b_OwnerMSP b)"
      "list_all printable (b_State b)" "list_all printable (b_OwnerMSP (d_batch d))"
      "list_all printable (b_State (d_batch d))" "list_all printable (b_BatchID (d_batch d))"
  shows "\<exists>receipt s'. engine_apply L evidence c x s = (Inr receipt, s')"
proof -
  obtain receipt plan event where fin: "finish L c x exists b d (v_Public v) = Inr (receipt, plan, event)"
    "composite L plan" "ev_EventType event = d_event d"
    using finish_total [OF assms(4,5,8-15), of exists] by blast
  obtain s1 where s1: "write_private L (v_Private v) s = (Inr (), s1)"
    using write_private_total [OF assms(7)] by blast
  obtain s2 where s2: "flush L plan event s1 = (Inr (), s2)"
    using flush_total [OF fin(2)] fin(3) assms(6) by metis
  show ?thesis
    using assms(1-3) fin(1) s1 s2 by (simp add: engine_apply_def apply_plan_def)
qed

end

subsection \<open>A pending handover can be accepted\<close>

context reliable_ledger begin

lemma accept_possible:
  assumes s: "fresh s" and here: "batch_here (at L (view s)) (c_BatchID c) b refs"
    and pending: "pending_state (b_State b)"
    and freight: "b_State b = DeliveryPending \<Longrightarrow> e_FreightCostID refs \<noteq> []"
    and cmd: "c_Command c = (if b_State b = PickupPending then ''AcceptPickup'' else ''AcceptDelivery'')"
    and actor: "x_Actor x = (if b_State b = PickupPending then Logistics else Retailer)"
    and payload: "validatePayload c = Inr ()"
    and p: "p = payload_of handoffInput_fields handoffInput_zero c"
    and quantity: "hi_QuantityGrams p = b_QuantityGrams b"
    and awaited: "at L (view s) ''pendingTransfer'' [c_BatchID c] = encoded (JStr (hi_TransferID p))"
  obtains d where "apply_accept L s c x b refs = Inr d" "composite L (d_plan d)" "d_event d \<noteq> []"
    "d_refs d = refs" "b_BatchID (d_batch d) = c_BatchID c"
    "b_State (d_batch d) = (if b_State b = PickupPending then InTransport else Received)"
    "b_OwnerMSP (d_batch d) = (if b_State b = PickupPending then b_OwnerMSP b else Retailer)"
proof -
  let ?delivery = "c_Command c = ''AcceptDelivery''"
  have states: "b_State b = (if ?delivery then DeliveryPending else PickupPending)"
    and delivery: "?delivery \<longleftrightarrow> b_State b \<noteq> PickupPending"
    using pending cmd by (auto simp: pending_state_def)
  have shape: "batch_shape (c_BatchID c) b" and id: "b_BatchID b = c_BatchID c"
    and pw: "pending_world (at L (view s)) b"
    using here by (simp_all add: batch_here_def batch_shape_def)
  obtain p' where "Unmarshal handoffInput_fields (c_Payload c) handoffInput_zero = Some p'"
    "validID (hi_TransferID p') ''TRF''"
    using validate_handoff [OF payload] cmd by (metis (full_types) insertCI)
  then have tid: "validID (hi_TransferID p) ''TRF''" using p by (simp add: payload_of_eq)
  obtain t where t: "stored_transfer (at L (view s)) t" "awaited b t"
    "at L (view s) ''pendingTransfer'' [c_BatchID c] = encoded (JStr (t_TransferID t))"
    using pw pending id by (auto simp: pending_world_def)
  have t_ok: "Transfer_ok t" "text_ok (t_TransferID t)"
    using t(1) by (auto simp: stored_transfer_def Transfer_ok_def)
  have "Some (t_TransferID t) = Some (hi_TransferID p)"
    using t(3) awaited decoded_string [OF t_ok(2), of "[]"] decoded_string [OF validID_text [OF tid], of "[]"]
    by metis
  then have same: "t_TransferID t = hi_TransferID p" by simp
  have kinds: "list_all printable ''transfer''" "list_all printable ''pendingTransfer''"
    by (simp_all add: printable_code)
  have printable_ids: "list_all printable (hi_TransferID p)" "list_all printable (c_BatchID c)"
    using tid shape by (auto simp: validID_def batch_shape_def identifier_printable)
  obtain tk where tk: "CreateCompositeKey L ''transfer'' [hi_TransferID p] = Some tk"
    using key_exists [of "''transfer''" "[hi_TransferID p]"] kinds printable_ids by auto
  obtain pk where pk: "CreateCompositeKey L ''pendingTransfer'' [c_BatchID c] = Some pk"
    using key_exists [of "''pendingTransfer''" "[c_BatchID c]"] kinds printable_ids by auto
  have tv: "view s tk = encoded (marshal Transfer_fields t)"
    using t(1) tk same by (simp add: stored_transfer_def at_key)
  have tl: "load L s tk (struct_codec Transfer_fields) Transfer_zero = Inr (True, t)"
    by (rule load_present [OF s]) (use tv transfer_decoded [OF t_ok(1)] in simp_all)
  have pv: "view s pk = encoded (JStr (hi_TransferID p))"
    using awaited pk by (simp add: at_key)
  have pl: "load L s pk string_codec [] = Inr (True, hi_TransferID p)"
  proof (rule load_present [OF s])
    show "view s pk \<noteq> []" unfolding pv by (simp add: print_string_def)
    show "decoded string_codec [] (view s pk) = Some (hi_TransferID p)"
      unfolding pv by (rule decoded_string [OF validID_text [OF tid]])
  qed
  have fields: "t_BatchID t = b_BatchID b" "t_ToMSP t = x_Actor x" "t_Status t = ''OFFERED''"
    "t_Kind t = (if ?delivery then ''DELIVERY'' else ''PICKUP'')" "t_QuantityGrams t = b_QuantityGrams b"
    "t_FromMSP t = b_CustodianMSP b"
    using t(2) actor delivery by (auto simp: awaited_def)
  let ?t = "t \<lparr> t_Status := ''ACCEPTED'', t_AcceptOperationID := c_OperationID c, t_AcceptedTxID := x_TxID x \<rparr>"
  let ?plan = "delete_key (put_entry tk (Some (encoded (marshal Transfer_fields ?t))) []) pk"
  let ?b = "b \<lparr> b_State := (if ?delivery then Received else InTransport), b_CustodianMSP := x_Actor x \<rparr>"
  let ?d = "\<lparr> d_batch = (if ?delivery then ?b \<lparr> b_OwnerMSP := x_Actor x \<rparr> else ?b), d_refs = refs,
     d_plan = ?plan, d_ids = [c_BatchID c, hi_TransferID p],
     d_event = (if ?delivery then ''DeliveryAccepted'' else ''PickupAccepted'') \<rparr>"
  have run: "apply_accept L s c x b refs = Inr ?d"
    unfolding apply_accept_def Let_def p [symmetric]
    using tk pk tl pl fields id same states quantity freight
    by (simp add: key_def split: if_splits)
  show thesis
  proof (rule that [OF run])
    show "composite L (d_plan ?d)"
      by (simp add: delete_key_def del: put_entry.simps)
        (intro composite_put [OF _ pk] composite_put [OF _ tk] composite_empty)
  qed (use delivery id actor in auto)
qed

end

subsection \<open>From the proposal to the commit\<close>

text \<open>
  A shim that makes a key of all printable texts, and, beyond that, one whose operations do not fail.
\<close>

locale naming_stub = shim_stub +
  assumes composite_exists:
      "list_all (list_all printable) (kind # as) \<Longrightarrow> \<exists>k. CreateCompositeKey stub kind as = Some k"

text \<open>
  A shim whose pages list committed states under keys that extend the partial key asked for, where
  the page starts at the first of them or at a bookmark that extends the partial key.  From any other
  bookmark Fabric lists whatever keys follow it.
\<close>

locale paging_stub = naming_stub +
  assumes page_law: "fresh s \<Longrightarrow>
      bookmark = [] \<or> (\<exists>k. CreateCompositeKey stub kind attrs = Some k \<and> HasPrefix bookmark k) \<Longrightarrow>
      GetStateByPartialCompositeKeyWithPagination stub s kind attrs limit bookmark = Some (entries, meta) \<Longrightarrow>
      Some e \<in> set entries \<Longrightarrow>
      en_Value e = view s (en_Key e) \<and> en_Value e \<noteq> []
      \<and> (\<exists>rest. CreateCompositeKey stub kind (attrs @ rest) = Some (en_Key e))"

locale reliable_stub = naming_stub +
  assumes get_total: "\<exists>v. GetState stub s k = Some v"
    and put_total: "CreateCompositeKey stub kind as = Some k \<Longrightarrow> \<exists>s'. PutState stub k v s = Some s'"
    and del_total: "CreateCompositeKey stub kind as = Some k \<Longrightarrow> \<exists>s'. DelState stub k s = Some s'"
    and event_total: "n \<noteq> [] \<Longrightarrow> \<exists>s'. SetEvent stub n v s = Some s'"
    and put_private_total: "CreateCompositeKey stub kind as = Some k \<Longrightarrow>
          \<exists>s'. PutPrivateData stub c k v s = Some s'"

sublocale reliable_stub \<subseteq> reliable: reliable_ledger "fabricLedger stub" fresh view private_view
  by unfold_locales
    (auto simp: fabricLedger_def intro: composite_exists get_total put_total del_total event_total put_private_total)

interpretation naming_memory: naming_stub memory_stub memory_fresh memory_view memory_private memory_commit
proof (unfold_locales, goal_cases)
  case (1 kind as)
  have "segment_ok a" if "list_all printable a" for a
    using that by (auto simp: segment_ok_def list_all_iff printable_code)
  then show ?case using 1 by (auto simp: memory_stub_def memory_key_def list_all_iff)
qed

lemma le_append: "(p :: bytes) \<le> p @ q"
  by (induction p) simp_all

interpretation paging_memory: paging_stub memory_stub memory_fresh memory_view memory_private memory_commit
proof (unfold_locales, goal_cases)
  case (1 m bookmark kind attrs limit entries meta e)
  let ?prefix = "CHR 0x00 # segments (kind # attrs)"
  have ok: "list_all segment_ok (kind # attrs)" and page: "memory_page m kind attrs limit bookmark = Some (entries, meta)"
    using 1(3) by (auto simp: memory_stub_def memory_page_def memory_key_eq split: option.splits)
  then have e: "continues ?prefix (en_Key e) \<or> bookmark \<noteq> [] \<and> en_Key e < ?prefix" "bookmark \<le> en_Key e"
      "en_Value e = lookup (m_committed m) (en_Key e)" "en_Value e \<noteq> []"
    using 1(4) by (auto simp: memory_page_def memory_key_def Let_def dest!: in_set_takeD)
  have "?prefix \<le> bookmark" if "bookmark \<noteq> []"
    using 1(2) that ok le_append [of ?prefix] by (auto simp: memory_stub_def memory_key_def HasPrefix_iff simp del: segments.simps)
  then have "continues ?prefix (en_Key e)" using e(1,2) by force
  obtain rest where rest: "en_Key e = ?prefix @ rest" "rest = [] \<or> last rest = CHR 0x00"
    using \<open>continues ?prefix (en_Key e)\<close> by (auto simp: continues_def HasPrefix_iff)
  then obtain as where as: "list_all segment_ok as" "segments as = rest" using segments_split by metis
  have "memory_key kind (attrs @ as) = Some (en_Key e)"
    using ok as rest(1) by (simp add: memory_key_eq segments_append)
  moreover have "memory_view m = lookup (m_committed m)"
    using 1(1) by (simp add: memory_fresh_def memory_view_def fun_eq_iff)
  ultimately show ?case using e(3,4) by (auto simp: memory_stub_def)
qed

interpretation reliable_memory: reliable_stub memory_stub memory_fresh memory_view memory_private memory_commit
  by unfold_locales (auto simp: memory_stub_def memory_key_eq)

text \<open>A command the engine accepts is answered with its receipt.\<close>

lemma Invoke_commits:
  assumes "caller i = Inr (msp, role)" "isMutation (inv_Function i)" "permitted msp role (inv_Function i)"
    and "executionFromStub i msp role = Inr x" "inv_Transient i = Some t" "inv_Parameters i = [raw]"
    and "parseCommand (inv_Function i) raw = Inr c" "getConfig (fabricLedger stub) s = Inr cfg"
    and "l_private (fabricLedger stub) = Some P"
    and "engine_apply (fabricLedger stub) (prepare (fabricLedger stub) P s t x) c x s = (Inr receipt, s')"
  shows "Invoke stub i s = (Success (encoded (marshal Receipt_fields receipt)), s')"
proof -
  have auth: "authorize msp role (inv_Function i) = Inr ()" using assms(3) by (simp add: authorize_permitted)
  have "dispatch_command (fabricLedger stub) (inv_Function i) [raw] [\<lparr> pr_x = x, pr_transient = t \<rparr>] s
      = (Inr (Some (marshal Receipt_fields receipt)), s')"
    using assms(7-10) by (simp add: dispatch_command_def)
  then have "dispatch (fabricLedger stub) msp role (inv_Function i) [raw] [\<lparr> pr_x = x, pr_transient = t \<rparr>] s
      = (Inr (Some (marshal Receipt_fields receipt)), s')"
    by (simp add: dispatch_mutation [OF assms(2) auth])
  moreover have "invoke_context i msp role = Inr x" using assms(2,4) by (simp add: invoke_context_def)
  ultimately show ?thesis
    using assms(1,5,6) by (simp add: Invoke_def reply_def canonical_def)
qed

text \<open>The context of a proposal is valid; the seconds of its time stamp are an \<open>int64\<close>.\<close>

lemma executionFromStub_facts:
  assumes "executionFromStub i msp role = Inr x"
    and "\<And>seconds nanos. inv_TxTimestamp i = Some (seconds, nanos) \<Longrightarrow> seconds < 2 ^ 63"
  shows "x_Actor x = msp" "x_Role x = role" "match_hexID (x_TxID x)" "valid_context x"
proof -
  obtain seconds nanos where ts: "inv_TxTimestamp i = Some (seconds, nanos)"
    "0 \<le> seconds" "0 \<le> nanos" "nanos \<le> 999999999" "match_hexID (inv_TxID i)"
    and x: "x = \<lparr> x_Actor = msp, x_Role = role, x_TxID = inv_TxID i,
      x_Time = \<lparr> tm_Seconds = FormatInt seconds, tm_Nanos = nanos \<rparr> \<rparr>"
    using assms(1) by (auto simp: executionFromStub_def split: option.splits if_splits)
  have "ParseInt 64 (FormatInt seconds) = Some seconds"
    by (rule parse_format_int) (use ts assms(2) in simp_all)
  then show "x_Actor x = msp" "x_Role x = role" "match_hexID (x_TxID x)" "valid_context x"
    using ts by (simp_all add: x valid_context_def)
qed

lemma prepare_nothing:
  assumes "c_Command c \<in> {''AcceptPickup'', ''AcceptDelivery'', ''OfferDelivery''}" "getConfig L s = Inr cfg"
  shows "prepare L P s [] x c b refs = Inr verified_zero"
  using assms by (auto simp: prepare_def required_evidence_def check_transient_def)

context reliable_stub begin

lemma accept_commits:
  assumes s: "fresh s" and world: "world_ok (at stub (view s))"
    and here: "batch_here (at stub (view s)) (c_BatchID c) b refs"
    and pending: "pending_state (b_State b)"
    and freight: "b_State b = DeliveryPending \<Longrightarrow> e_FreightCostID refs \<noteq> []"
    and version: "b_Version b < 2147483647" "c_ExpectedVersion c = b_Version b"
    and config: "getConfig (fabricLedger stub) s = Inr cfg"
    and fn: "inv_Function i = (if b_State b = PickupPending then ''AcceptPickup'' else ''AcceptDelivery'')"
    and who: "caller i = Inr (expected_caller (inv_Function i))"
    and x: "executionFromStub i (fst (expected_caller (inv_Function i))) (snd (expected_caller (inv_Function i))) = Inr x"
    and time: "\<And>seconds nanos. inv_TxTimestamp i = Some (seconds, nanos) \<Longrightarrow> seconds < 2 ^ 63"
    and args: "inv_Transient i = Some []" "inv_Parameters i = [raw]" "parseCommand (inv_Function i) raw = Inr c"
    and p: "p = payload_of handoffInput_fields handoffInput_zero c"
    and quantity: "hi_QuantityGrams p = b_QuantityGrams b"
    and awaited: "at stub (view s) ''pendingTransfer'' [c_BatchID c] = encoded (JStr (hi_TransferID p))"
    and new: "at stub (view s) ''operation'' [x_Actor x, c_OperationID c] = []"
  shows "\<exists>bs s' b'. Invoke stub i s = (Success bs, s') \<and> batch_here (at stub (view s')) (c_BatchID c) b' refs
    \<and> b_State b' = (if b_State b = PickupPending then InTransport else Received)"
proof -
  let ?L = "fabricLedger stub"
  have cmd: "c_Command c = inv_Function i" and payload: "validatePayload c = Inr ()"
    and ids: "validID (c_BatchID c) ''BAT''" "validID (c_OperationID c) ''OP''"
    using parseCommand_ids [OF args(3)] by simp_all
  let ?msp = "fst (expected_caller (inv_Function i))" and ?role = "snd (expected_caller (inv_Function i))"
  note actor = executionFromStub_facts [OF x time]
  have msp: "?msp = (if b_State b = PickupPending then Logistics else Retailer)"
    using fn by (simp add: expected_caller_def)
  have permitted: "permitted ?msp ?role (inv_Function i)"
    using fn by (simp add: permitted_def expected_caller_def member_def)
  obtain P where P: "l_private ?L = Some P" using reliable.private_total by blast
  have names: "list_all printable (c_BatchID c)" "list_all printable (x_Actor x)"
      "list_all printable (c_OperationID c)"
    using ids actor(1) msp by (auto simp: validID_def identifier_printable msp_defs printable_code)
  have old: "list_all printable (b_OwnerMSP b)" "list_all printable (b_State b)"
    using here pending
    by (auto simp: batch_here_def batch_shape_def pending_state_def owner_at_def msp_defs state_defs printable_code)
  have checks: "apply_checks ?L s c x = Inr (True, b, refs)"
    by (rule reliable.apply_checks_existing [OF s])
      (use here permitted payload actor new version cmd fn names in auto)
  have ev: "prepare ?L P s [] x c b refs = Inr verified_zero"
    by (rule prepare_nothing [OF _ config]) (use cmd fn in auto)
  have here': "batch_here (at ?L (view s)) (c_BatchID c) b refs" using here by simp
  obtain d where d: "apply_accept ?L s c x b refs = Inr d" "composite ?L (d_plan d)" "d_event d \<noteq> []"
    "d_refs d = refs" "b_BatchID (d_batch d) = c_BatchID c"
    "b_State (d_batch d) = (if b_State b = PickupPending then InTransport else Received)"
    "b_OwnerMSP (d_batch d) = (if b_State b = PickupPending then b_OwnerMSP b else Retailer)"
    by (rule reliable.accept_possible [OF s here' pending freight _ _ payload p quantity])
      (use cmd fn actor msp awaited in auto)
  have draft: "apply_command ?L s c x b refs verified_zero = Inr d"
    using d(1) cmd fn by (simp add: apply_command_def)
  have "\<exists>receipt s'. engine_apply ?L (prepare ?L P s [] x) c x s = (Inr receipt, s')"
    by (rule reliable.engine_apply_total [where b = b and refs = refs and v = verified_zero and d = d,
        OF checks _ draft d(2) _ d(3)])
      (use ev names old d in \<open>auto simp: verified_zero_def msp_defs state_defs printable_code\<close>)
  then obtain receipt s' where run: "engine_apply ?L (prepare ?L P s [] x) c x s = (Inr receipt, s')" by blast
  have success: "Invoke stub i s = (Success (encoded (marshal Receipt_fields receipt)), s')"
    by (rule Invoke_commits [OF _ _ permitted x args config P run])
      (use who fn in \<open>auto simp: isMutation_def\<close>)
  have world': "world_ok (at ?L (view s))" using world by simp
  show ?thesis
  proof (rule fabric.apply_effect [OF real_evidence.evidence_provider_axioms s world' run ids])
    fix exists b1 refs1 v1 d1
    assume "apply_checks ?L s c x = Inr (exists, b1, refs1)" "prepare ?L P s [] x c b1 refs1 = Inr v1"
      "apply_command ?L s c x b1 refs1 v1 = Inr d1"
      and after: "batch_here (at ?L (view s')) (c_BatchID c) (advance x b1 (d_batch d1)) (d_refs d1)"
    then have "d1 = d" using checks ev draft by simp
    then show ?thesis
      using success after d(4,6) by (intro exI [of _ "encoded (marshal Receipt_fields receipt)"] exI [of _ s']
        exI [of _ "advance x b1 (d_batch d1)"]) simp
  qed
qed

end

end
