(* ===== verification/Commit.thy ===== *)
theory Commit
  imports Progress
begin

text \<open>
  On a peer that does not fail a transaction is all or nothing: whatever the checks let through
  is committed as a whole, and anything else leaves the state as it was.
\<close>

subsection \<open>Every planned key is a composite key\<close>

lemma consume_within:
  "consumeDocument L s doc c p = Inr q \<Longrightarrow> plan_within L draft_kinds p \<Longrightarrow> plan_within L draft_kinds q"
  by (auto simp: consumeDocument_def rbind_eq_Inr key_eq_Inr draft_kinds_def intro!: plan_within_put
      split: if_splits simp del: put_entry.simps)

lemma offer_within:
  assumes "offer_pickup_evidence L s c b refs v = Inr (refs', plan, ids)"
  shows "plan_within L draft_kinds plan"
proof -
  obtain p1 p2 where p: "consumeDocument L s (v_Purchase v) c [] = Inr p1"
    "consumeDocument L s (v_HKS v) c p1 = Inr p2" "consumeDocument L s (v_Manifest v) c p2 = Inr plan"
    using assms(1)
    by (auto simp: offer_pickup_evidence_def rbind_eq_Inr consume_and_note_def split: if_splits)
  show ?thesis
    using consume_within [OF p(1)] consume_within [OF p(2)] consume_within [OF p(3)] by simp
qed

text \<open>Private writes go to composite keys too.\<close>

definition composite_writes :: "('e) externals_scheme \<Rightarrow> privateWrite list \<Rightarrow> bool" where
  "composite_writes L ws \<longleftrightarrow> (\<forall>w \<in> set ws. \<exists>kind attrs. CreateCompositeKey L kind attrs = Some (pw_Key w))"

lemma composite_writes_zero [simp]: "composite_writes L (v_Private verified_zero)"
  by (simp add: composite_writes_def verified_zero_def)

lemma add_private_composite:
  assumes "add_private v collection k w = Inr v'" "composite_writes L (v_Private v)"
    "CreateCompositeKey L kind attrs = Some k"
  shows "composite_writes L (v_Private v')"
proof -
  obtain raw where "v' = v \<lparr> v_Private := v_Private v @
      [\<lparr> pw_Collection = collection, pw_Key = k, pw_Value = raw \<rparr>] \<rparr>"
    using assms(1) by (auto simp: add_private_def rbind_eq_Inr)
  moreover have "\<exists>kind attrs. CreateCompositeKey L kind attrs = Some k" using assms(3) by blast
  ultimately show ?thesis using assms(2) by (auto simp: composite_writes_def)
qed

lemma document_claim_composite:
  assumes "document_claim L t x c b doc v = Inr (v', collection)" "composite_writes L (v_Private v)"
  shows "composite_writes L (v_Private v')"
proof -
  have "composite_writes L (v_Private v')" if "claim_freight L t x c b doc v = Inr (v', collection)"
    using that assms(2)
    by (auto simp: claim_freight_def Let_def rbind_eq_Inr key_eq_Inr split: if_splits
        elim!: add_private_composite)
  then show ?thesis
    using assms
    by (auto simp: document_claim_def Let_def claim_eligibility_def claim_purchase_def
        claim_notification_def claim_manifest_def rbind_eq_Inr split: if_splits)
qed

lemma prepare_document_writes:
  assumes "prepare_document L s t x c b doc (required, v) = Inr (required', v')"
  obtains public v1 collection where
    "document_claim L t x c b doc (v \<lparr> v_Public := public \<rparr>) = Inr (v1, collection)"
    "v' = v1 \<or> (\<exists>k w. CreateCompositeKey L ''documentOpening''
        [h_DocumentID (env_Header (bu_Envelope doc))] = Some k \<and> add_private v1 collection k w = Inr v')"
proof -
  obtain public xb where
    claim: "document_claim L t x c b doc (v \<lparr> v_Public := public \<rparr>) = Inr xb"
    and rest: "(case xb of (v1, collection) \<Rightarrow>
      if collection \<noteq> []
      then rbind (key L ''documentOpening'' [h_DocumentID (env_Header (bu_Envelope doc))]) (\<lambda>k.
           rbind (add_private v1 collection k
                    (marshal_opening \<lparr> op_Body = bu_Body doc, op_Salt = bu_Salt doc \<rparr>)) (\<lambda>v2.
           Inr (filter (\<lambda>(k, _). k \<noteq> h_DocumentType (env_Header (bu_Envelope doc))) required, v2)))
      else Inr (filter (\<lambda>(k, _). k \<noteq> h_DocumentType (env_Header (bu_Envelope doc))) required, v1)) =
      Inr (required', v')"
    using assms unfolding prepare_document_def Let_def prod.case if_Inl_eq_Inr rbind_eq_Inr by blast
  show thesis
  proof (cases xb)
    case (Pair v1 collection)
    then show thesis
      using that [of public v1 collection] claim rest
      by (auto simp: rbind_eq_Inr key_eq_Inr split: if_splits)
  qed
qed

lemma prepare_document_composite:
  assumes "prepare_document L s t x c b doc acc = Inr acc'" "composite_writes L (v_Private (snd acc))"
  shows "composite_writes L (v_Private (snd acc'))"
proof -
  obtain required v required' v' where acc: "acc = (required, v)" "acc' = (required', v')"
    by (cases acc, cases acc')
  obtain public v1 collection where
    v1: "document_claim L t x c b doc (v \<lparr> v_Public := public \<rparr>) = Inr (v1, collection)"
    and v': "v' = v1 \<or> (\<exists>k w. CreateCompositeKey L ''documentOpening''
        [h_DocumentID (env_Header (bu_Envelope doc))] = Some k \<and> add_private v1 collection k w = Inr v')"
    by (rule prepare_document_writes [OF assms(1) [unfolded acc]])
  have "composite_writes L (v_Private v1)"
    using document_claim_composite [OF v1] assms(2) acc by simp
  then show ?thesis using v' acc by (auto elim!: add_private_composite)
qed

lemma prepare_report_composite:
  "prepare_report L P s t x config c b refs v = Inr v' \<Longrightarrow> composite_writes L (v_Private v) \<Longrightarrow>
     composite_writes L (v_Private v')"
  by (auto simp: prepare_report_def Let_def rbind_eq_Inr key_eq_Inr split: if_splits
      elim!: add_private_composite)

lemma analysis_composite:
  assumes "analysis L P s t x c b refs = Inr v"
  shows "composite_writes L (v_Private v)"
proof -
  let ?p = "payload_of analysisInput_fields analysisInput_zero c"
  obtain a v0 k where v0: "(if c_Command c = ''EvaluatePrice'' then analysis_evaluate L P s t x c b refs ?p
       else analysis_review L P s t x c b ?p) = Inr (a, v0)"
    and k: "CreateCompositeKey L ''anomaly'' [ai_AnomalyID ?p] = Some k"
    and v: "add_private v0 audit k (Some (marshal anomalyRecord_fields a)) = Inr v"
    using assms
    by (auto simp: analysis_def Let_def rbind_eq_Inr key_eq_Inr split: if_splits)
  have "composite_writes L (v_Private v0)"
  proof (cases "c_Command c = ''EvaluatePrice''")
    case True
    then show ?thesis
      using v0 by (auto simp: analysis_evaluate_def Let_def rbind_eq_Inr verified_zero_def
          composite_writes_def split: if_splits simp del: put_entry.simps)
  next
    case False
    then show ?thesis
      using v0
      by (auto simp: analysis_review_def Let_def rbind_eq_Inr key_eq_Inr split: if_splits
          simp del: put_entry.simps elim!: add_private_composite)
  qed
  then show ?thesis using add_private_composite [OF v _ k] by simp
qed

lemma prepare_composite:
  assumes run: "prepare L P s t x c b refs = Inr v"
  shows "composite_writes L (v_Private v)"
proof (cases "c_Command c \<in> {''EvaluatePrice'', ''OpenReview'', ''ResolveReview''}")
  case True
  then show ?thesis using run analysis_composite by (simp add: prepare_analysis)
next
  case False
  show ?thesis
  proof (rule prepare_stages [OF run False])
    fix config required extra documents required' v1
    assume docs: "fold_result (prepare_document L s t x c b) documents (required, verified_zero) = Inr (required', v1)"
      and v: "if c_Command c = ''ReportRetailPrice'' then prepare_report L P s t x config c b refs v1 = Inr v
        else v = v1"
    have "composite_writes L (v_Private (snd (required', v1)))"
      by (rule fold_result_invariant [OF docs, where P = "\<lambda>a. composite_writes L (v_Private (snd a))"])
        (auto intro: prepare_document_composite)
    then show ?thesis using v by (auto split: if_splits dest!: prepare_report_composite)
  qed
qed

subsection \<open>What a case of the switch plans\<close>

lemma consume_single:
  "consumeDocument L s doc c [] = Inr q \<Longrightarrow> plan_within L draft_kinds q"
  by (erule consume_within) simp

lemma draft_event: "apply_command L s c x b refs v = Inr d \<Longrightarrow> d_event d \<noteq> []"
  by (auto simp: apply_command_def apply_analysis_def apply_create_def apply_offer_def apply_accept_def
      apply_freight_def apply_report_def Let_def rbind_eq_Inr split: if_splits)

context ledger_store begin

text \<open>A case of the switch plans composite keys of the draft kinds only.\<close>

lemma draft_within:
  assumes "apply_command L s c x b refs v = Inr d"
  shows "plan_within L draft_kinds (d_plan d)"
  using assms
proof (cases rule: apply_command_cases)
  case analysis
  then show ?thesis by (auto simp: apply_analysis_def Let_def split: if_splits)
next
  case create
  then show ?thesis
    by (auto simp: apply_create_def Let_def rbind_eq_Inr split: if_splits intro: consume_single)
next
  case offer
  show ?thesis
  proof (rule offer_cases [OF offer(2)])
    fix pk tk refs' plan ids
    assume k: "CreateCompositeKey L ''pendingTransfer'' [b_BatchID b] = Some pk"
      "CreateCompositeKey L ''transfer'' [hi_TransferID (payload_of handoffInput_fields handoffInput_zero c)] = Some tk"
      and ev: "(if (if c_Command c = ''OfferDelivery'' then ''DELIVERY'' else ''PICKUP'') = ''PICKUP''
        then offer_pickup_evidence L s c b refs v
        else if e_TransportDocumentID refs = [] then Inl (fail ''MISSING_EVIDENCE'')
        else Inr (refs, [], [c_BatchID c])) = Inr (refs', plan, ids)"
    have "plan_within L draft_kinds plan"
      using ev offer_within [of L s c b refs v refs' plan ids] by (auto split: if_splits)
    then have "plan_within L draft_kinds (put_entry pk v1 (put_entry tk v2 plan))" for v1 v2
      by (intro plan_within_put [OF _ k(1)] plan_within_put [OF _ k(2)]) (simp_all add: draft_kinds_def)
    moreover assume "d_plan d = put_entry pk (Some (encoded (JStr (hi_TransferID
        (payload_of handoffInput_fields handoffInput_zero c)))))
      (put_entry tk (Some (encoded (marshal Transfer_fields (Transfer_zero
        \<lparr> t_SchemaVersion := ''agrochain.custody-transfer.v1'',
          t_TransferID := hi_TransferID (payload_of handoffInput_fields handoffInput_zero c),
          t_BatchID := b_BatchID b,
          t_Kind := (if c_Command c = ''OfferDelivery'' then ''DELIVERY'' else ''PICKUP''),
          t_Status := ''OFFERED'', t_FromMSP := x_Actor x,
          t_ToMSP := (if c_Command c = ''OfferDelivery'' then b_IntendedRetailerMSP b else b_LogisticsMSP b),
          t_QuantityGrams := b_QuantityGrams b,
          t_OfferOperationID := c_OperationID c, t_OfferedTxID := x_TxID x \<rparr>)))) plan)"
    ultimately show ?thesis by simp
  qed
next
  case accept
  show ?thesis
    by (rule accept_cases [OF accept(2)])
      (auto simp: delete_key_def draft_kinds_def simp del: put_entry.simps intro!: plan_within_put)
next
  case freight
  then obtain k w where "CreateCompositeKey L ''costReference''
      [fi_CostID (payload_of freightInput_fields freightInput_zero c)] = Some k"
    "d_plan d = put_entry k w []"
    by (auto simp: apply_freight_def Let_def rbind_eq_Inr key_eq_Inr split: if_splits)
  then show ?thesis by (auto simp: draft_kinds_def intro!: plan_within_put simp del: put_entry.simps)
next
  case report
  let ?p = "payload_of reportInput_fields reportInput_zero c"
  obtain k1 k2 w1 w2 where "CreateCompositeKey L ''lot'' [ri_RetailLotID ?p] = Some k1"
    "CreateCompositeKey L ''reportReference'' [ri_ReportID ?p] = Some k2"
    "d_plan d = put_entry k2 w2 (put_entry k1 w1 [])"
    using report(2)
    by (auto simp: apply_report_def Let_def rbind_eq_Inr key_eq_Inr split: if_splits
        simp del: put_entry.simps)
  then show ?thesis by (auto simp: draft_kinds_def intro!: plan_within_put simp del: put_entry.simps)
qed

end

subsection \<open>All or nothing\<close>

lemma member_printable: "member m \<Longrightarrow> list_all printable m"
  by (auto simp: member_def msp_defs printable_code)

lemma shape_printable:
  "batch_shape i b \<Longrightarrow> list_all printable (b_OwnerMSP b) \<and> list_all printable (b_State b)
     \<and> list_all printable (b_BatchID b)"
  by (auto simp: batch_shape_def owner_at_def validState_def validID_def identifier_printable
      msp_defs state_defs printable_code)

context reliable_ledger begin

text \<open>Once the checks, the evidence and the case of the switch have passed, nothing stops a command.\<close>

lemma engine_apply_commits:
  assumes s: "fresh s" and world: "world_ok (at L (view s))"
    and ids: "validID (c_BatchID c) ''BAT''" "validID (c_OperationID c) ''OP''"
    and checks: "apply_checks L s c x = Inr (exists, b, refs)"
    and ev: "prepare L P s t x c b refs = Inr v"
    and draft: "apply_command L s c x b refs v = Inr d"
  shows "\<exists>receipt s'. engine_apply L (prepare L P s t x) c x s = (Inr receipt, s')"
proof -
  note facts = apply_checks_facts [OF checks s world]
  have ok: "draft_ok (at L (view s)) (at L (outcome (map_of (d_plan d)) (view s))) (c_BatchID c) x b d"
    by (rule command_draft [OF checks s world draft ids])
  have names: "list_all printable (c_BatchID c)" "list_all printable (c_OperationID c)"
    using ids by (auto simp: validID_def identifier_printable)
  have actor: "list_all printable (x_Actor x)"
    using facts(1) by (auto simp: permitted_def member_printable)
  have old: "list_all printable (b_OwnerMSP b)" "list_all printable (b_State b)"
    using facts(9) shape_printable by (auto simp: batch_here_def Batch_zero_def split: if_splits)
  have "batch_shape (c_BatchID c) (advance x b (d_batch d))" using ok by (simp add: draft_ok_def)
  from shape_printable [OF this] have new: "list_all printable (b_OwnerMSP (d_batch d))"
    "list_all printable (b_State (d_batch d))" "list_all printable (b_BatchID (d_batch d))"
    by simp_all
  have public: "composite L (v_Public v)"
    using evidence_provider.public_marks [OF real_evidence.evidence_provider_axioms ev]
    by (auto simp: evidence_plan_def intro: composite_within)
  show ?thesis
    by (rule engine_apply_total [where evidence = "prepare L P s t x", OF checks ev draft composite_within [OF draft_within [OF draft]] public draft_event [OF draft]
          _ names(1) actor names(2) old new])
      (use prepare_composite [OF ev] in \<open>simp add: composite_writes_def\<close>)
qed

lemma engine_apply_atomic:
  assumes s: "fresh s" and world: "world_ok (at L (view s))"
    and ids: "validID (c_BatchID c) ''BAT''" "validID (c_OperationID c) ''OP''"
    and run: "engine_apply L (prepare L P s t x) c x s = (Inl e, s')"
  shows "s' = s"
proof (cases "apply_plan L (prepare L P s t x) c x s")
  case (Inl e')
  then show ?thesis using run by (simp add: engine_apply_def)
next
  case (Inr q)
  then obtain exists b refs v d where "apply_checks L s c x = Inr (exists, b, refs)"
    "prepare L P s t x c b refs = Inr v" "apply_command L s c x b refs v = Inr d"
    by (auto simp: apply_plan_def rbind_eq_Inr)
  then show ?thesis using engine_apply_commits [OF s world ids] run by fastforce
qed

lemma write_keys_total:
  "composite L p \<Longrightarrow> set ks \<subseteq> fst ` set p \<Longrightarrow> \<exists>s'. write_keys L p ks s = (Inr (), s')"
proof (induction ks arbitrary: s)
  case (Cons k ks)
  then obtain kind attrs where k: "CreateCompositeKey L kind attrs = Some k"
    by (fastforce simp: composite_def)
  obtain s1 where "l_write L k (case map_of p k of Some (Some v) \<Rightarrow> v | _ \<Rightarrow> []) s = Some s1"
    using write_total [OF k] by blast
  then show ?case using Cons by simp
qed simp

lemma bootstrap_atomic:
  assumes "bootstrap L x raw s = (Inl e, s')"
  shows "s' = s"
proof (cases "bootstrap_plan L s x raw")
  case (Inl e')
  then show ?thesis using assms by (simp add: bootstrap_def)
next
  case (Inr q)
  obtain c plan where q: "q = (c, plan)" by force
  have "composite L plan"
    using bootstrap_plan_within [of L s x raw c plan] Inr q by (simp add: composite_within)
  then obtain s1 where "write_keys L plan (sort (map fst plan)) s = (Inr (), s1)"
    using write_keys_total [of plan "sort (map fst plan)" s] by auto
  then show ?thesis using assms Inr q by (simp add: bootstrap_def)
qed

lemma dispatch_atomic:
  assumes s: "fresh s" and world: "world_ok (at L (view s))"
    and run: "dispatch L msp role fn args request s = (Inl e, s')"
  shows "s' = s"
proof (cases "authorize msp role fn")
  case (Inl e0)
  then show ?thesis using run by (simp add: dispatch_unfold)
next
  case (Inr u)
  consider (boot) "fn = ''Bootstrap''" | (cmd) "fn \<noteq> ''Bootstrap''" "isMutation fn"
    | (other) "fn \<noteq> ''Bootstrap''" "\<not> isMutation fn" by blast
  then show ?thesis
  proof cases
    case boot
    then show ?thesis
      using run Inr bootstrap_atomic [of "pr_x (hd request)" "hd args" s]
      by (auto simp: dispatch_unfold split: if_splits prod.splits sum.splits)
  next
    case cmd
    have "dispatch_command L fn args request s = (Inl e, s')"
      using run Inr cmd by (simp add: dispatch_mutation)
    then show ?thesis
      using engine_apply_atomic [OF s world parseCommand_ids(2,3)]
      by (auto simp: dispatch_command_def Let_def split: sum.splits prod.splits option.splits if_splits)
  next
    case other
    then show ?thesis using run Inr by (simp add: dispatch_unfold split: if_splits)
  qed
qed

end

text \<open>Only a query can have a value that does not print.\<close>

lemma dispatch_no_value: "dispatch L msp role fn args request s = (Inr None, s') \<Longrightarrow> s' = s"
  by (cases "fn = ''Bootstrap''"; cases "isMutation fn"; cases "authorize msp role fn")
    (auto simp: dispatch_mutation dispatch_unfold split: if_split_asm prod.split_asm sum.split_asm
      elim!: dispatch_command_success)

context reliable_stub begin

lemma Invoke_atomic:
  assumes s: "fresh s" and world: "world_ok (at stub (view s))"
    and run: "Invoke stub i s = (r, s')" and failed: "\<And>b. r \<noteq> Success b"
  shows "s' = s"
proof -
  consider "s' = s" | msp role x t where "snd (dispatch (fabricLedger stub) msp role (inv_Function i)
      (inv_Parameters i) [\<lparr> pr_x = x, pr_transient = t \<rparr>] s) = s'"
    "r = reply (fst (dispatch (fabricLedger stub) msp role (inv_Function i)
      (inv_Parameters i) [\<lparr> pr_x = x, pr_transient = t \<rparr>] s))"
    using run by (auto simp: Invoke_def split: sum.splits prod.splits option.splits) (metis fst_conv snd_conv)
  then show ?thesis
  proof cases
    case (2 msp role x t)
    then obtain result where run: "dispatch (fabricLedger stub) msp role (inv_Function i) (inv_Parameters i)
        [\<lparr> pr_x = x, pr_transient = t \<rparr>] s = (result, s')" "r = reply result"
      by (metis prod.collapse)
    show ?thesis
    proof (cases result)
      case (Inl e)
      then show ?thesis using reliable.dispatch_atomic [OF s] world run(1) by simp
    next
      case (Inr v)
      then have "result = Inr None" using run(2) failed by (cases v) (auto simp: reply_def canonical_def)
      with run(1) have "dispatch (fabricLedger stub) msp role (inv_Function i) (inv_Parameters i)
        [\<lparr> pr_x = x, pr_transient = t \<rparr>] s = (Inr None, s')" by simp
      then show ?thesis by (rule dispatch_no_value)
    qed
  qed simp
qed

end

end
