(* ===== verification/Refinement.thy ===== *)
theory Refinement
  imports Transactions
begin

text \<open>
  The channel as a specification sees it: a map from batch identifiers to their custody, which a
  command of the contract creates, moves by one rule of \<open>custody_step\<close>, or leaves alone.  The
  abstraction \<open>custody_map\<close> reads it off the stored records, and every transaction of the
  chaincode is a step of the specification.
\<close>

subsection \<open>The abstract channel\<close>

type_synonym channel = "bytes \<rightharpoonup> custody"

inductive channel_step :: "bytes \<Rightarrow> bytes \<Rightarrow> channel \<Rightarrow> channel \<Rightarrow> bool" where
  observe: "\<not> isMutation fn \<Longrightarrow> channel_step fn actor M M"
| create: "M i = None \<Longrightarrow> 1 \<le> q \<Longrightarrow> q \<le> 100000000 \<Longrightarrow>
    channel_step ''CreateBatch'' Producer M (M(i \<mapsto> initial_custody q))"
| move: "M i = Some u \<Longrightarrow> custody_step fn actor u v \<Longrightarrow> channel_step fn actor M (M(i \<mapsto> v))"

inductive channel_run :: "channel \<Rightarrow> (bytes \<times> bytes) list \<Rightarrow> channel \<Rightarrow> bool" where
  idle: "channel_run M [] M"
| more: "channel_run M acts N \<Longrightarrow> channel_step fn actor N N' \<Longrightarrow>
    channel_run M (acts @ [(fn, actor)]) N'"

inductive_cases channel_stepE: "channel_step fn actor M N"

text \<open>What the specification promises of every step.\<close>

lemma channel_step_order:
  assumes "channel_step fn actor M N" "M i = Some u"
  obtains v where "N i = Some v" "cu_quantity v = cu_quantity u" "cu_phase u \<le> cu_phase v"
    "cu_version u \<le> cu_version v"
  using assms(1)
proof (cases rule: channel_step.cases)
  case observe
  then show ?thesis using that [of u] assms(2) by simp
next
  case (create j q)
  then have "i \<noteq> j" using assms(2) by auto
  then show ?thesis using that [of u] create assms(2) by simp
next
  case (move j u' v)
  show ?thesis
  proof (cases "j = i")
    case True
    then show ?thesis using that [of v] move assms(2) custody_step_order [OF move(3)] by simp
  next
    case False
    then show ?thesis using that [of u] move assms(2) by simp
  qed
qed

subsection \<open>The abstraction\<close>

definition custody_map :: "public \<Rightarrow> channel" where
  "custody_map f i =
     (if f ''batch'' [i] = [] then None
      else case (Unmarshal Batch_fields (f ''batch'' [i]) Batch_zero,
                 Unmarshal EvidenceRefs_fields (f ''batchEvidence'' [i]) EvidenceRefs_zero) of
        (Some b, Some r) \<Rightarrow> Some (custody_of b r)
      | _ \<Rightarrow> None)"

lemma custody_map_none [simp]: "no_batch f i \<Longrightarrow> custody_map f i = None"
  by (simp add: custody_map_def no_batch_def)

lemma custody_map_here [simp]:
  assumes "batch_here f i b r"
  shows "custody_map f i = Some (custody_of b r)"
proof -
  have "EvidenceRefs_ok r" using assms by (simp add: batch_here_def)
  then have "Unmarshal EvidenceRefs_fields (encoded (marshal EvidenceRefs_fields r)) EvidenceRefs_zero = Some r"
    using refs_decoded [of r "[]" "[]"] by (simp add: EvidenceRefs_zero_def)
  then show ?thesis
    using assms by (simp add: custody_map_def batch_here_def batch_decoded)
qed

lemma custody_map_batch:
  assumes "custody_map f i = Some u" "world_ok f"
  shows "\<exists>b r. batch_here f i b r \<and> u = custody_of b r"
proof -
  have "\<not> no_batch f i" using assms(1) by auto
  then obtain b r where "batch_here f i b r" using assms(2) by (auto simp: world_ok_def)
  then show ?thesis using assms(1) by auto
qed

lemma custody_map_cong:
  "f ''batch'' = g ''batch'' \<Longrightarrow> f ''batchEvidence'' = g ''batchEvidence'' \<Longrightarrow> custody_map f = custody_map g"
  by (simp add: custody_map_def fun_eq_iff)

subsection \<open>Every transaction is a step\<close>

context ledger_store begin

lemma apply_refines:
  assumes provider: "evidence_provider L evidence" and s: "fresh s" and world: "world_ok (at L (view s))"
    and run: "engine_apply L evidence c x s = (Inr receipt, s')"
    and ids: "validID (c_BatchID c) ''BAT''" "validID (c_OperationID c) ''OP''"
  shows "channel_step (c_Command c) (x_Actor x) (custody_map (at L (view s))) (custody_map (at L (view s')))"
proof (rule apply_effect [OF provider s world run ids])
  fix exists b refs v d
  assume checks: "apply_checks L s c x = Inr (exists, b, refs)" and ev: "evidence c b refs = Inr v"
    and draft: "apply_command L s c x b refs v = Inr d"
    and here: "batch_here (at L (view s')) (c_BatchID c) (advance x b (d_batch d)) (d_refs d)"
    and same: "\<And>j b r. j \<noteq> c_BatchID c \<Longrightarrow> batch_here (at L (view s)) j b r \<Longrightarrow>
      batch_here (at L (view s')) j b r"
    and none: "\<And>j. j \<noteq> c_BatchID c \<Longrightarrow> no_batch (at L (view s)) j \<Longrightarrow> no_batch (at L (view s')) j"
  let ?M = "custody_map (at L (view s))" and ?v = "custody_of (advance x b (d_batch d)) (d_refs d)"
  note facts = apply_checks_facts [OF checks s world]
  have "custody_map (at L (view s')) j = (?M(c_BatchID c \<mapsto> ?v)) j" for j
  proof (cases "j = c_BatchID c")
    case False
    then show ?thesis
      using world same [OF False] none [OF False] unfolding world_ok_def
      by (metis custody_map_here custody_map_none fun_upd_other)
  qed (simp add: custody_map_here [OF here])
  then have after: "custody_map (at L (view s')) = ?M(c_BatchID c \<mapsto> ?v)" by (rule ext)
  show ?thesis
  proof (cases exists)
    case True
    have "?M (c_BatchID c) = Some (custody_of b refs)" using facts(9) True by simp
    then show ?thesis
      unfolding after using command_custody [OF checks s world True provider ev draft ids]
      by (rule channel_step.move)
  next
    case False
    have new: "?M (c_BatchID c) = None" using facts(9) False by simp
    note create = create_custody [OF checks s world False draft]
    have quantity: "1 \<le> b_QuantityGrams (d_batch d)" "b_QuantityGrams (d_batch d) \<le> 100000000"
      using here by (auto simp: batch_here_def batch_shape_def)
    have "x_Actor x = Producer"
      using permitted_caller [OF facts(1)] create(1) by (simp add: expected_caller_def)
    then show ?thesis
      unfolding after create(1) create(2) using channel_step.create [of ?M, OF new quantity] by simp
  qed
qed

end

context shim_stub begin

lemma dispatch_refines:
  assumes run: "dispatch (fabricLedger stub) msp role fn args [p] s = (Inr r0, s')"
    and x: "x_Actor (pr_x p) = msp"
    and s: "fresh s" and world: "world_ok (at stub (view s))"
  shows "channel_step fn msp (custody_map (at stub (view s))) (custody_map (at stub (view s')))"
proof (cases "isMutation fn")
  case False
  have "custody_map (at stub (view s')) = custody_map (at stub (view s))"
    using run
  proof (cases rule: dispatch_cases)
    case (boot y raw c)
    have "at stub (view s') kind = at stub (view s) kind" if "kind \<in> {''batch'', ''batchEvidence''}" for kind
    proof (rule ext)
      fix attrs
      have "kind \<notin> set trust_kinds" using that by (auto simp: trust_kinds_def)
      then show "at stub (view s') kind attrs = at stub (view s) kind attrs"
        using fabric.bootstrap_frame [OF boot(3), of kind attrs] by simp
    qed
    then show ?thesis by (intro custody_map_cong) simp_all
  qed (use False in simp_all)
  then show ?thesis using False channel_step.observe by simp
next
  case True
  have "dispatch_command (fabricLedger stub) fn args [p] s = (Inr r0, s')"
    using run dispatch_authorized [OF run]
    by (simp add: authorize_permitted [of msp role fn "()", symmetric] dispatch_mutation [OF True])
  then show ?thesis
  proof (rule dispatch_command_success)
    fix c P pr receipt
    assume c: "parseCommand fn (hd args) = Inr c" and pr: "[p] = [pr]"
      and run: "engine_apply (fabricLedger stub) (prepare (fabricLedger stub) P s (pr_transient pr) (pr_x pr))
          c (pr_x pr) s = (Inr receipt, s')"
    show ?thesis
      using fabric.apply_refines [OF real_evidence.evidence_provider_axioms s _ run
          parseCommand_ids(2,3) [OF c]] world pr x parseCommand_ids(1) [OF c] by simp
  qed
qed

lemma transaction_channel:
  assumes s: "fresh s" "world_ok (at stub (view s))"
    and run: "Invoke stub i s = (Success bs, s')"
  obtains msp role where "caller i = Inr (msp, role)"
    "channel_step (inv_Function i) msp (custody_map (at stub (view s))) (custody_map (at stub (view s')))"
  using run
proof (rule Invoke_Success)
  fix msp role x t r
  assume c: "caller i = Inr (msp, role)" and x: "invoke_context i msp role = Inr x"
    and run: "dispatch (fabricLedger stub) msp role (inv_Function i) (inv_Parameters i)
       [\<lparr> pr_x = x, pr_transient = t \<rparr>] s = (Inr r, s')"
  have "x_Actor (pr_x \<lparr> pr_x = x, pr_transient = t \<rparr>) = msp" using context_actor [OF x] by simp
  from dispatch_refines [OF run this s] show thesis using that c by blast
qed

lemma reachable_channel:
  assumes s: "fresh s0" "consistent (at stub (view s0))" and "reachable stub commit s0 s"
  shows "\<exists>acts. channel_run (custody_map (at stub (view s0))) acts (custody_map (at stub (view s)))"
  using assms(3)
proof (induction rule: reachable.induct)
  case start
  then show ?case using channel_run.idle by metis
next
  case (transaction s i b s')
  have "fresh s" "world_ok (at stub (view s))"
    using later_consistent [OF s transaction(1)] by (simp_all add: consistent_def)
  then show ?case
    by (rule transaction_channel [OF _ _ transaction(2)])
      (use transaction(3) in \<open>auto simp: commit intro: channel_run.more\<close>)
qed

end

lemma channel_run_order:
  assumes "channel_run M acts N" "M i = Some u"
  obtains v where "N i = Some v" "cu_quantity v = cu_quantity u" "cu_phase u \<le> cu_phase v"
    "cu_version u \<le> cu_version v"
proof -
  have "\<exists>v. N i = Some v \<and> cu_quantity v = cu_quantity u \<and> cu_phase u \<le> cu_phase v \<and> cu_version u \<le> cu_version v"
    using assms
  proof (induction rule: channel_run.induct)
    case (more M acts N fn actor N')
    then obtain v where v: "N i = Some v" "cu_quantity v = cu_quantity u" "cu_phase u \<le> cu_phase v"
      "cu_version u \<le> cu_version v"
      by blast
    from more(2) v(1) show ?case
      by (rule channel_step_order) (use v in auto)
  qed auto
  then show thesis using that by blast
qed

end
