(* ===== verification/Records.thy ===== *)
theory Records
  imports Refinement
begin

text \<open>
  What a successful command leaves on record: its receipt, at the caller's operation and at the
  batch's new version, exactly once.
\<close>

subsection \<open>A receipt can be read back\<close>

lemma consume_valid: "consumeDocument L s doc c p = Inr q \<Longrightarrow> validID doc ''DOC''"
  by (auto simp: consumeDocument_def split: if_splits)

lemma sortedUnique_set: "set (sortedUnique ids) = set ids"
  by (simp add: sortedUnique_def)

lemma int_ok_version: "1 \<le> n \<Longrightarrow> n \<le> 2147483647 \<Longrightarrow> int_ok 64 n"
  by (simp add: int_ok_def)

context ledger_store begin

lemma draft_ids:
  assumes draft: "apply_command L s c x b refs v = Inr d" and payload: "validatePayload c = Inr ()"
    and id: "validID (c_BatchID c) ''BAT''"
  shows "list_all text_ok (d_ids d)"
  using draft
proof (cases rule: apply_command_cases)
  case analysis
  obtain p where "Unmarshal analysisInput_fields (c_Payload c) analysisInput_zero = Some p"
    "validID (ai_AnomalyID p) ''ANM''" "c_Command c = ''EvaluatePrice'' \<Longrightarrow> validID (ai_ReportID p) ''RPT''"
    using validate_analysis [OF payload analysis(1)] by blast
  then show ?thesis
    using analysis(2) id validID_text by (auto simp: apply_analysis_def Let_def payload_of_eq split: if_splits)
next
  case create
  then have "d_ids d = [c_BatchID c, v_CKS v]" "validID (v_CKS v) ''DOC''"
    by (auto simp: apply_create_def Let_def rbind_eq_Inr split: if_splits dest: consume_valid)
  then show ?thesis using id validID_text by simp
next
  case offer
  obtain p where p: "Unmarshal handoffInput_fields (c_Payload c) handoffInput_zero = Some p"
    "validID (hi_TransferID p) ''TRF''"
    by (rule validate_handoff [OF payload]) (use offer(1) in auto)
  have "list_all text_ok ids" if "offer_pickup_evidence L s c b refs v = Inr (refs', plan, ids)" for refs' plan ids
    using that id validID_text
    by (auto simp: offer_pickup_evidence_def rbind_eq_Inr consume_and_note_def split: if_splits dest!: consume_valid)
  then show ?thesis
    using offer(2) id p validID_text
    by (fastforce simp: apply_offer_def Let_def rbind_eq_Inr payload_of_eq split: if_splits)
next
  case accept
  obtain p where p: "Unmarshal handoffInput_fields (c_Payload c) handoffInput_zero = Some p"
    "validID (hi_TransferID p) ''TRF''"
    by (rule validate_handoff [OF payload]) (use accept(1) in auto)
  have "d_ids d = [c_BatchID c, hi_TransferID p]"
    using accept(2) p(1) by (auto simp: apply_accept_def Let_def rbind_eq_Inr payload_of_eq split: if_splits)
  then show ?thesis using id p(2) validID_text by simp
next
  case freight
  obtain p where p: "Unmarshal freightInput_fields (c_Payload c) freightInput_zero = Some p"
    "validID (fi_CostID p) ''CST''"
    using validate_freight [OF payload freight(1)] by blast
  have "d_ids d = [c_BatchID c, fi_CostID p]"
    using freight(2) p(1) by (auto simp: apply_freight_def Let_def rbind_eq_Inr payload_of_eq split: if_splits)
  then show ?thesis using id p(2) validID_text by simp
next
  case report
  obtain p where p: "Unmarshal reportInput_fields (c_Payload c) reportInput_zero = Some p"
    "validID (ri_ReportID p) ''RPT''" "validID (ri_RetailLotID p) ''LOT''" "validID (ri_PolicyID p) ''CFG''"
    using validate_report [OF payload report(1)] by blast
  have "d_ids d = [c_BatchID c, ri_ReportID p, ri_RetailLotID p, ri_PolicyID p]"
    using report(2) p(1) by (auto simp: apply_report_def Let_def rbind_eq_Inr payload_of_eq split: if_splits)
  then show ?thesis using id p(2-4) validID_text by simp
qed

lemma receipt_readable:
  assumes checks: "apply_checks L s c x = Inr (exists, b, refs)" and s: "fresh s" and world: "world_ok (at L (view s))"
    and draft: "apply_command L s c x b refs v = Inr d" and cmd: "text_ok (c_Command c)"
    and ids: "validID (c_BatchID c) ''BAT''" "validID (c_OperationID c) ''OP''"
  shows "Receipt_ok (receipt_for c x (advance x b (d_batch d)) (sortedUnique (d_ids d)))"
proof -
  note facts = apply_checks_facts [OF checks s world]
  have "batch_shape (c_BatchID c) (advance x b (d_batch d))"
    using command_draft [OF checks s world draft ids] by (simp add: draft_ok_def)
  then have "int_ok 64 (b_Version (advance x b (d_batch d)))" by (simp add: batch_shape_def int_ok_version)
  moreover have "list_all text_ok (sortedUnique (d_ids d))"
    using draft_ids [OF draft facts(2) ids(1)] by (simp add: list_all_iff sortedUnique_set)
  moreover have "text_ok (x_Actor x)" using facts(1) by (simp add: permitted_def member_text)
  ultimately show ?thesis
    using validID_text ids hexID_text [OF facts(3)] valid_context_time [OF facts(4)] cmd
    by (simp add: Receipt_ok_def receipt_for_def)
qed

end

lemma receipt_decoded:
  "Receipt_ok r \<Longrightarrow> Unmarshal Receipt_fields (encoded (marshal Receipt_fields r)) Receipt_zero = Some r"
  by (rule receipt.Unmarshal_print) (auto simp: Receipt_fields_def)

lemma mutation_text: "isMutation fn \<Longrightarrow> text_ok fn"
  by (auto simp: isMutation_def)

subsection \<open>What is on record after a command\<close>

context shim_stub begin

lemma mutation_run:
  assumes run: "Invoke stub i s = (Success bs, s')" and fn: "isMutation (inv_Function i)"
  obtains msp role raw c P t x receipt where "caller i = Inr (msp, role)" "inv_Parameters i = [raw]"
    "inv_Transient i = Some t" "parseCommand (inv_Function i) raw = Inr c" "x_Actor x = msp" "permitted msp role (inv_Function i)"
    "engine_apply (fabricLedger stub) (prepare (fabricLedger stub) P s t x) c x s = (Inr receipt, s')"
    "bs = encoded (marshal Receipt_fields receipt)"
proof (rule Invoke_Success [OF run])
  fix msp role x t r
  assume c: "caller i = Inr (msp, role)" and x: "invoke_context i msp role = Inr x"
    and t: "inv_Transient i = Some t"
    and go: "dispatch (fabricLedger stub) msp role (inv_Function i) (inv_Parameters i)
       [\<lparr> pr_x = x, pr_transient = t \<rparr>] s = (Inr r, s')"
  note allowed = dispatch_authorized [OF go]
  have cmd: "dispatch_command (fabricLedger stub) (inv_Function i) (inv_Parameters i)
       [\<lparr> pr_x = x, pr_transient = t \<rparr>] s = (Inr r, s')"
    using go allowed
    by (simp add: authorize_permitted [of msp role "inv_Function i" "()", symmetric] dispatch_mutation [OF fn])
  have one: "len (inv_Parameters i) = 1"
    using cmd by (auto simp: dispatch_command_def split: if_split_asm)
  then obtain raw where raw: "inv_Parameters i = [raw]" by (cases "inv_Parameters i") (auto simp: len_def)
  have reply: "bs = (case r of None \<Rightarrow> bs | Some v \<Rightarrow> encoded v)"
    using run c x t go by (auto simp: Invoke_def reply_def canonical_def split: option.splits)
  from cmd show thesis
  proof (rule dispatch_command_success)
    fix d P pr receipt
    assume "parseCommand (inv_Function i) (hd (inv_Parameters i)) = Inr d"
      and "[\<lparr> pr_x = x, pr_transient = t \<rparr>] = [pr]"
      and "engine_apply (fabricLedger stub) (prepare (fabricLedger stub) P s (pr_transient pr) (pr_x pr))
          d (pr_x pr) s = (Inr receipt, s')"
      and "r = Some (marshal Receipt_fields receipt)"
    then show thesis using that [OF c raw t _ context_actor [OF x] allowed] raw reply by auto
  qed
qed

text \<open>What is on record after a command, about what was there before.\<close>

lemma mutation_records:
  assumes s: "fresh s" "world_ok (at stub (view s))"
    and run: "Invoke stub i s = (Success bs, s')" and fn: "isMutation (inv_Function i)"
  obtains msp role raw c receipt b r where "caller i = Inr (msp, role)" "inv_Parameters i = [raw]"
    "parseCommand (inv_Function i) raw = Inr c" "bs = encoded (marshal Receipt_fields receipt)"
    "at stub (view s) ''operation'' [msp, c_OperationID c] = []"
    "at stub (view s') ''operation'' [msp, c_OperationID c] = bs"
    "\<And>attrs. attrs \<noteq> [msp, c_OperationID c] \<Longrightarrow>
       at stub (view s') ''operation'' attrs = at stub (view s) ''operation'' attrs"
    "at stub (view s') ''history'' [c_BatchID c, format_padded (b_Version b)] = bs"
    "batch_here (at stub (view s')) (c_BatchID c) b r" "b_Version b = c_ExpectedVersion c + 1"
    "if inv_Function i = ''CreateBatch''
     then no_batch (at stub (view s)) (c_BatchID c) \<and> c_ExpectedVersion c = 0
     else \<exists>b0 r0. batch_here (at stub (view s)) (c_BatchID c) b0 r0 \<and> b_Version b0 = c_ExpectedVersion c"
    "r_OperationID receipt = c_OperationID c" "r_BatchID receipt = c_BatchID c"
    "r_Command receipt = inv_Function i" "r_ActorMSP receipt = msp" "r_ResultVersion receipt = b_Version b"
    "Receipt_ok receipt"
proof (rule mutation_run [OF run fn])
  fix msp role raw c P t x receipt
  assume i: "caller i = Inr (msp, role)" "inv_Parameters i = [raw]"
    and c: "parseCommand (inv_Function i) raw = Inr c" and x: "x_Actor x = msp"
    and run: "engine_apply (fabricLedger stub) (prepare (fabricLedger stub) P s t x) c x s = (Inr receipt, s')"
    and bs: "bs = encoded (marshal Receipt_fields receipt)"
  note ids = parseCommand_ids [OF c]
  have world: "world_ok (at (fabricLedger stub) (view s))" using s by simp
  show thesis
  proof (rule fabric.apply_effect [OF real_evidence.evidence_provider_axioms s(1) world run ids(2,3)])
    fix exists b refs v d
    assume checks: "apply_checks (fabricLedger stub) s c x = Inr (exists, b, refs)"
      and draft: "apply_command (fabricLedger stub) s c x b refs v = Inr d"
      and here: "batch_here (at (fabricLedger stub) (view s')) (c_BatchID c) (advance x b (d_batch d)) (d_refs d)"
      and receipt: "receipt = receipt_for c x (advance x b (d_batch d)) (sortedUnique (d_ids d))"
      and op: "at (fabricLedger stub) (view s') ''operation'' [x_Actor x, c_OperationID c]
          = encoded (marshal Receipt_fields receipt)"
      and others: "\<And>attrs. attrs \<noteq> [x_Actor x, c_OperationID c] \<Longrightarrow>
       at (fabricLedger stub) (view s') ''operation'' attrs = at (fabricLedger stub) (view s) ''operation'' attrs"
      and hist: "at (fabricLedger stub) (view s') ''history''
          [c_BatchID c, format_padded (b_Version (advance x b (d_batch d)))] = encoded (marshal Receipt_fields receipt)"
    note facts = fabric.apply_checks_facts [OF checks s(1) world]
    have "draft_ok (at (fabricLedger stub) (view s))
        (at (fabricLedger stub) (outcome (map_of (d_plan d)) (view s))) (c_BatchID c) x b d"
      by (rule fabric.command_draft [OF checks s(1) world draft ids(2,3)])
    then have version: "b_Version (advance x b (d_batch d)) = c_ExpectedVersion c + 1"
      using facts(7) by (simp add: draft_ok_def)
    have before: "if inv_Function i = ''CreateBatch''
       then no_batch (at stub (view s)) (c_BatchID c) \<and> c_ExpectedVersion c = 0
       else \<exists>b0 r0. batch_here (at stub (view s)) (c_BatchID c) b0 r0 \<and> b_Version b0 = c_ExpectedVersion c"
      using facts(6,7,9) ids(1) by (auto simp: Batch_zero_def split: if_splits)
    have "Receipt_ok receipt"
      unfolding receipt
      by (rule fabric.receipt_readable [OF checks s(1) world draft _ ids(2,3)]) (use ids(1) fn mutation_text in simp)
    then show thesis
      by (intro that [OF i c bs _ _ _ _ _ version before])
        (use facts(5) op others hist here receipt x bs ids(1) in \<open>simp_all add: receipt_for_def\<close>)
  qed
qed

text \<open>An operation that is on record is on record for good.\<close>

lemma operation_taken:
  assumes s: "fresh s" "consistent (at stub (view s))" and later: "reachable stub commit s s'"
    and taken: "at stub (view s) ''operation'' [msp, op] \<noteq> []"
    and i: "caller i = Inr (msp, role)" "isMutation (inv_Function i)" "inv_Parameters i = [raw]"
      "parseCommand (inv_Function i) raw = Inr c" "c_OperationID c = op"
  shows "Invoke stub i s' \<noteq> (Success bs, s2)"
proof
  assume run: "Invoke stub i s' = (Success bs, s2)"
  have s': "fresh s'" "world_ok (at stub (view s'))"
    using later_consistent [OF s later] by (simp_all add: consistent_def)
  have "at stub (view s') ''operation'' [msp, op] \<noteq> []"
    using later_additive [OF s later, of "''operation''" "[msp, op]"] taken by (auto simp: rewritten_kinds_def)
  moreover have "at stub (view s') ''operation'' [msp, op] = []"
    by (rule mutation_records [OF s' run i(2)]) (use i in auto)
  ultimately show False by simp
qed

end

end
