(* ===== verification/Consumption.thy ===== *)
theory Consumption
  imports Records
begin

text \<open>
  The evidence of a command: which documents it takes, that each is verified and bound to the
  command, and that each is used once.  The configuration they are trusted under is set once.
\<close>

subsection \<open>One document\<close>

abbreviation document_header :: "bundle_t \<Rightarrow> header" where
  "document_header d \<equiv> env_Header (bu_Envelope d)"

text \<open>The three records that mark a document as used.\<close>

definition use_records :: "header \<Rightarrow> (bytes \<times> bytes list) list" where
  "use_records h = [(''document'', [h_DocumentID h]), (''sourceUse'', [h_IssuerID h, h_SourceDocumentID h]),
     (''nonceUse'', [h_IssuerID h, h_Nonce h])]"

text \<open>A plan that has a value for a record.\<close>

definition planned :: "('e) externals_scheme \<Rightarrow> writePlan \<Rightarrow> bytes \<times> bytes list \<Rightarrow> bool" where
  "planned L p r \<longleftrightarrow> (\<exists>k v. CreateCompositeKey L (fst r) (snd r) = Some k \<and> map_of p k = Some (Some v) \<and> v \<noteq> [])"

lemma encoded_obj [simp]: "encoded (JObj ms) \<noteq> []"
  by simp

lemma mark_used_facts:
  assumes "mark_used L s c x (k, code) p = Inr q"
  shows "l_read L s k = Some []" "q = put_entry k (Some (encoded (use_mark c x))) p"
  using assms by (auto simp: mark_used_def rbind_eq_Inr absent_eq_Inr split: if_splits simp del: put_entry.simps)

lemma mark_document_facts:
  assumes "mark_document L s c x doc p = Inr q"
  shows "\<forall>r \<in> set (use_records (document_header doc)). planned L q r
      \<and> (\<exists>k. CreateCompositeKey L (fst r) (snd r) = Some k \<and> l_read L s k = Some [])"
    and "planned L p r \<Longrightarrow> planned L q r"
proof -
  let ?h = "document_header doc"
  obtain k1 k2 k3 p1 p2 p3 where k: "CreateCompositeKey L ''document'' [h_DocumentID ?h] = Some k1"
      "CreateCompositeKey L ''sourceUse'' [h_IssuerID ?h, h_SourceDocumentID ?h] = Some k2"
      "CreateCompositeKey L ''nonceUse'' [h_IssuerID ?h, h_Nonce ?h] = Some k3"
    and m: "mark_used L s c x (k1, ''DOCUMENT_ALREADY_USED'') p = Inr p1"
      "mark_used L s c x (k2, ''DOCUMENT_ALREADY_USED'') p1 = Inr p2"
      "mark_used L s c x (k3, ''SOURCE_NONCE_ALREADY_USED'') p2 = Inr p3"
    and q: "q = put_entry k1 (Some (encoded (marshal envelope_fields (bu_Envelope doc)))) p3"
    using assms by (auto simp: mark_document_def Let_def rbind_eq_Inr key_eq_Inr)
  note f = mark_used_facts [OF m(1)] mark_used_facts [OF m(2)] mark_used_facts [OF m(3)]
  have mark: "encoded (use_mark c x) \<noteq> []" by (simp add: use_mark_def)
  have map: "map_of q = (map_of p)(k1 \<mapsto> Some (encoded (use_mark c x)), k2 \<mapsto> Some (encoded (use_mark c x)),
      k3 \<mapsto> Some (encoded (use_mark c x)), k1 \<mapsto> Some (encoded (marshal envelope_fields (bu_Envelope doc))))"
    unfolding q f(2) f(4) f(6) by simp
  show "\<forall>r \<in> set (use_records ?h). planned L q r
      \<and> (\<exists>k. CreateCompositeKey L (fst r) (snd r) = Some k \<and> l_read L s k = Some [])"
    using k f(1,3,5) mark by (auto simp: use_records_def planned_def map)
  assume "planned L p r"
  then obtain k v where kv: "CreateCompositeKey L (fst r) (snd r) = Some k" "map_of p k = Some (Some v)" "v \<noteq> []"
    by (auto simp: planned_def)
  then have "\<exists>w. map_of q k = Some (Some w) \<and> w \<noteq> []"
    using mark unfolding map by (auto simp: fun_upd_def)
  then show "planned L q r" using kv(1) unfolding planned_def by metis
qed

lemma prepare_document_facts:
  assumes "prepare_document L s t x c b doc (required, v) = Inr (required', v')"
  shows "h_SourceSystem (document_header doc) = entry_of required (h_DocumentType (document_header doc))"
    "h_SourceSystem (document_header doc) \<noteq> []"
    "verifyBundle L s doc = Inr ()" "h_BatchID (document_header doc) = c_BatchID c"
    "h_OperationID (document_header doc) = c_OperationID c"
    "required' = filter (\<lambda>(k, _). k \<noteq> h_DocumentType (document_header doc)) required"
    "\<exists>public. mark_document L s c x doc (v_Public v) = Inr public \<and> v_Public v' = public"
  using assms
  by (auto simp: prepare_document_def Let_def rbind_eq_Inr split: if_splits
      dest!: document_claim_public add_private_public)

subsection \<open>All documents of a command\<close>

text \<open>What is known of a document that a command took.\<close>

definition accepted_document :: "'s ledger \<Rightarrow> 's \<Rightarrow> Command \<Rightarrow> bundle_t \<Rightarrow> bool" where
  "accepted_document L s c d \<longleftrightarrow>
     verifyBundle L s d = Inr () \<and> h_BatchID (document_header d) = c_BatchID c
   \<and> h_OperationID (document_header d) = c_OperationID c
   \<and> (\<forall>r \<in> set (use_records (document_header d)).
        \<exists>k. CreateCompositeKey L (fst r) (snd r) = Some k \<and> l_read L s k = Some [])"

lemma entry_of_member: "entry_of required k \<noteq> [] \<Longrightarrow> k \<in> fst ` set required"
  by (force simp: entry_of_def split: option.splits dest: map_of_SomeD)

lemma prepare_documents:
  assumes "fold_result (prepare_document L s t x c b) documents (required, v) = Inr (required', v')"
  shows "(\<forall>d \<in> set documents. accepted_document L s c d
        \<and> h_SourceSystem (document_header d) = entry_of required (h_DocumentType (document_header d))
        \<and> (\<forall>r \<in> set (use_records (document_header d)). planned L (v_Public v') r))
    \<and> (\<forall>r. planned L (v_Public v) r \<longrightarrow> planned L (v_Public v') r)
    \<and> distinct (map (h_DocumentType \<circ> document_header) documents)
    \<and> set (map (h_DocumentType \<circ> document_header) documents) \<subseteq> fst ` set required"
  using assms
proof (induction documents arbitrary: required v)
  case (Cons d ds)
  let ?type = "h_DocumentType (document_header d)"
  obtain r1 v1 where one: "prepare_document L s t x c b d (required, v) = Inr (r1, v1)"
    and rest: "fold_result (prepare_document L s t x c b) ds (r1, v1) = Inr (required', v')"
    using Cons.prems by (auto simp: rbind_eq_Inr)
  note f = prepare_document_facts [OF one]
  obtain public where m: "mark_document L s c x d (v_Public v) = Inr public" "v_Public v1 = public"
    using f(7) by blast
  note g = mark_document_facts [OF m(1)]
  note ih = Cons.IH [OF rest]
  have types: "fst ` set r1 = fst ` set required - {?type}" unfolding f(6) by force
  have keep: "entry_of r1 k = entry_of required k" if "k \<in> fst ` set r1" for k
  proof -
    have "k \<noteq> ?type" using that types by auto
    then have "map_of r1 k = map_of required k" unfolding f(6) by (induction required) auto
    then show ?thesis by (simp add: entry_of_def)
  qed
  have "?type \<in> fst ` set required" using f(1,2) by (intro entry_of_member) simp
  moreover have "accepted_document L s c d" using f(3-5) g(1) by (simp add: accepted_document_def)
  ultimately show ?case using ih f(1) g m(2) types keep by (auto simp: subset_iff)
qed simp

lemma prepare_evidence:
  assumes run: "prepare L P s t x c b refs = Inr v"
    and cmd: "c_Command c \<notin> {''EvaluatePrice'', ''OpenReview'', ''ResolveReview''}"
    and req: "fst (required_evidence (c_Command c)) \<noteq> []"
  obtains documents where "decodeBundles (entry_of t ''evidence'') = Inr documents"
    "set (map (h_DocumentType \<circ> document_header) documents) = fst ` set (fst (required_evidence (c_Command c)))"
    "distinct (map (h_DocumentType \<circ> document_header) documents)"
    "\<forall>d \<in> set documents. accepted_document L s c d \<and> h_SourceSystem (document_header d) =
        entry_of (fst (required_evidence (c_Command c))) (h_DocumentType (document_header d))"
    "\<forall>d \<in> set documents. \<forall>r \<in> set (use_records (document_header d)). planned L (v_Public v) r"
proof (rule prepare_stages [OF run cmd])
  fix config required extra documents required' v1
  assume re: "required_evidence (c_Command c) = (required, extra)"
    and docs: "if len required > 0
       then decodeBundles (entry_of t ''evidence'') = Inr documents \<and> len documents = len required
       else documents = []"
    and fold: "fold_result (prepare_document L s t x c b) documents (required, verified_zero) = Inr (required', v1)"
    and v: "if c_Command c = ''ReportRetailPrice'' then prepare_report L P s t x config c b refs v1 = Inr v
       else v = v1"
  have some: "len required > 0" using req re by (cases required) (auto simp: len_def)
  note f = prepare_documents [OF fold]
  have fin: "finite (fst ` set required)" by simp
  have card: "card (fst ` set required) \<le> card (set (map (h_DocumentType \<circ> document_header) documents))"
  proof -
    have "card (fst ` set required) \<le> length required" by (metis card_length length_map list.set_map)
    also have "length required = card (set (map (h_DocumentType \<circ> document_header) documents))"
      using f docs some by (simp only: distinct_card) (simp add: len_def)
    finally show ?thesis .
  qed
  have "set (map (h_DocumentType \<circ> document_header) documents) = fst ` set required"
    using card_seteq [OF fin _ card] f by blast
  moreover have "v_Public v = v_Public v1" using v by (auto split: if_splits dest: prepare_report_public)
  ultimately show thesis
    using that [of documents] f docs some re by auto
qed

subsection \<open>The evidence of a committed command\<close>

lemma finish_public:
  "finish L c x exists old d public = Inr (receipt, plan, event) \<Longrightarrow> \<exists>p. plan = merge_plan public p"
  by (auto simp: finish_def Let_def rbind_eq_Inr)

context ledger_store begin

lemma planned_written:
  assumes "planned L public r" "distinct (map fst public)" "view s' = outcome (map_of (merge_plan public p)) w"
  shows "at L (view s') (fst r) (snd r) \<noteq> []"
proof -
  obtain k v where "CreateCompositeKey L (fst r) (snd r) = Some k" "map_of public k = Some (Some v)" "v \<noteq> []"
    using assms(1) by (auto simp: planned_def)
  then show ?thesis
    using assms(3) map_of_merge_plan [OF assms(2), of p] by (simp add: at_def outcome_def map_add_def)
qed

lemma apply_evidence:
  assumes s: "fresh s" and run: "engine_apply L (prepare L P s t x) c x s = (Inr receipt, s')"
    and cmd: "c_Command c \<notin> {''EvaluatePrice'', ''OpenReview'', ''ResolveReview''}"
    and req: "fst (required_evidence (c_Command c)) \<noteq> []"
  obtains documents where "decodeBundles (entry_of t ''evidence'') = Inr documents"
    "set (map (h_DocumentType \<circ> document_header) documents) = fst ` set (fst (required_evidence (c_Command c)))"
    "distinct (map (h_DocumentType \<circ> document_header) documents)"
    "\<forall>d \<in> set documents. verifyBundle L s d = Inr () \<and> h_BatchID (document_header d) = c_BatchID c
       \<and> h_OperationID (document_header d) = c_OperationID c
       \<and> h_SourceSystem (document_header d) =
           entry_of (fst (required_evidence (c_Command c))) (h_DocumentType (document_header d))
       \<and> (\<forall>(kind, attrs) \<in> set (use_records (document_header d)).
            at L (view s) kind attrs = [] \<and> at L (view s') kind attrs \<noteq> [])"
proof -
  from engine_apply_view [OF run] obtain exists old refs v d plan event where
    ev: "prepare L P s t x c old refs = Inr v"
    and fin: "finish L c x exists old d (v_Public v) = Inr (receipt, plan, event)"
    and view: "view s' = outcome (map_of plan) (view s)" .
  obtain p where plan: "plan = merge_plan (v_Public v) p" using finish_public [OF fin] by blast
  have dist: "distinct (map fst (v_Public v))"
    using evidence_provider.public_marks [OF real_evidence.evidence_provider_axioms ev]
    by (simp add: evidence_plan_def)
  have after: "at L (view s') kind attrs \<noteq> []" if "planned L (v_Public v) (kind, attrs)" for kind attrs
    using planned_written [OF that dist view [unfolded plan]] by simp
  have before: "at L (view s) kind attrs = []"
    if "CreateCompositeKey L kind attrs = Some k" "l_read L s k = Some []" for kind attrs k
    using that read_view [OF s that(2)] by (simp add: at_key)
  show thesis
  proof (rule prepare_evidence [OF ev cmd req])
    fix documents
    assume d: "decodeBundles (entry_of t ''evidence'') = Inr documents"
      "set (map (h_DocumentType \<circ> document_header) documents) = fst ` set (fst (required_evidence (c_Command c)))"
      "distinct (map (h_DocumentType \<circ> document_header) documents)"
      and ok: "\<forall>d \<in> set documents. accepted_document L s c d \<and> h_SourceSystem (document_header d) =
        entry_of (fst (required_evidence (c_Command c))) (h_DocumentType (document_header d))"
      and marks: "\<forall>d \<in> set documents. \<forall>r \<in> set (use_records (document_header d)). planned L (v_Public v) r"
    show thesis
      by (rule that [OF d]) (use ok marks after before in \<open>fastforce simp: accepted_document_def\<close>)
  qed
qed

end

context shim_stub begin

lemma mutation_evidence:
  assumes s: "fresh s" and run: "Invoke stub i s = (Success bs, s')"
    and fn: "inv_Function i \<in> {''CreateBatch'', ''OfferPickup'', ''RecordFreightCost''}"
  obtains raw c t documents where "inv_Parameters i = [raw]" "parseCommand (inv_Function i) raw = Inr c"
    "inv_Transient i = Some t" "decodeBundles (entry_of t ''evidence'') = Inr documents"
    "set (map (h_DocumentType \<circ> document_header) documents) = fst ` set (fst (required_evidence (inv_Function i)))"
    "distinct (map (h_DocumentType \<circ> document_header) documents)"
    "\<forall>d \<in> set documents. verifyBundle (fabricLedger stub) s d = Inr () \<and> h_BatchID (document_header d) = c_BatchID c
       \<and> h_OperationID (document_header d) = c_OperationID c
       \<and> h_SourceSystem (document_header d) =
           entry_of (fst (required_evidence (inv_Function i))) (h_DocumentType (document_header d))
       \<and> (\<forall>(kind, attrs) \<in> set (use_records (document_header d)).
            at stub (view s) kind attrs = [] \<and> at stub (view s') kind attrs \<noteq> [])"
proof -
  have mut: "isMutation (inv_Function i)" using fn by (auto simp: isMutation_def)
  show thesis
  proof (rule mutation_run [OF run mut])
    fix msp role raw c P t x receipt
    assume i: "inv_Parameters i = [raw]" "inv_Transient i = Some t"
      and c: "parseCommand (inv_Function i) raw = Inr c"
      and run: "engine_apply (fabricLedger stub) (prepare (fabricLedger stub) P s t x) c x s = (Inr receipt, s')"
    note cmd = parseCommand_ids(1) [OF c]
    have c1: "c_Command c \<notin> {''EvaluatePrice'', ''OpenReview'', ''ResolveReview''}" using fn cmd by auto
    have c2: "fst (required_evidence (c_Command c)) \<noteq> []" using fn cmd by (auto simp: required_evidence_def)
    show thesis
      by (rule fabric.apply_evidence [OF s run c1 c2]) (use that [OF i(1) c i(2)] cmd in simp)
  qed
qed

subsection \<open>The configuration is set once\<close>

lemma bootstrap_once:
  assumes s: "fresh s" "consistent (at stub (view s))" and later: "reachable stub commit s s'"
    and config: "at stub (view s) ''configuration'' [''v1''] \<noteq> []"
  shows "at stub (view s') ''configuration'' [''v1''] = at stub (view s) ''configuration'' [''v1'']"
    and "inv_Function i = ''Bootstrap'' \<Longrightarrow> Invoke stub i s' \<noteq> (Success bs, s2)"
proof -
  show same: "at stub (view s') ''configuration'' [''v1''] = at stub (view s) ''configuration'' [''v1'']"
    using later_additive [OF s later, of "''configuration''" "[''v1'']"] config by (auto simp: rewritten_kinds_def)
  have s': "fresh s'" "trust_world (at (fabricLedger stub) (view s'))"
    using later_consistent [OF s later] by (simp_all add: consistent_def)
  assume fn: "inv_Function i = ''Bootstrap''"
  show "Invoke stub i s' \<noteq> (Success bs, s2)"
  proof
    assume "Invoke stub i s' = (Success bs, s2)"
    then show False
    proof (rule Invoke_Success)
      fix msp role x t r
      assume run: "dispatch (fabricLedger stub) msp role (inv_Function i) (inv_Parameters i)
         [\<lparr> pr_x = x, pr_transient = t \<rparr>] s' = (Inr r, s2)"
      obtain c where "bootstrap (fabricLedger stub) x (hd (inv_Parameters i)) s' = (Inr c, s2)"
        using run fn by (auto simp: dispatch_unfold split: sum.split_asm if_split_asm prod.split_asm)
      then show False
        using fabric.bootstrap_effect(2) [OF _ s'] same config by simp
    qed
  qed
qed

end

end
