(* ===== verification/Creation.thy ===== *)
theory Creation
  imports Commit Consumption
begin

text \<open>
  A batch can be created: bundles that a client encodes are read back as they were sent, and on a
  peer that does not fail a well-formed \<open>CreateBatch\<close> with one verified, unused and fitting
  certificate of eligibility is committed.
\<close>

subsection \<open>Sending bundles\<close>

lemma map_of_sorted_members:
  assumes "distinct (map fst ms)"
  shows "map_of (sort_key fst (map (map_prod id f) ms)) k = map_option f (map_of ms k)"
proof -
  let ?ms = "map (map_prod id f) ms"
  have d: "distinct (map fst ?ms)" using assms by (simp add: comp_def)
  then have "distinct (map fst (sort_key fst ?ms))"
    by (simp only: distinct_map distinct_sort set_sort simp_thms)
  from map_of_inject_set [OF this d] have "map_of (sort_key fst ?ms) = map_of ?ms" by simp
  moreover have "map_of ?ms k = map_option f (map_of ms k)" by (induction ms) auto
  ultimately show ?thesis by simp
qed

lemma encodedExact_sorted: "encodedExact fs (Some (json_sort v)) dst = encodedExact fs (Some v) dst"
  by (simp add: encodedExact_def canonical_def json_sort_idem)

text \<open>A struct whose encoding is within the limits of strict decoding.\<close>

definition fits :: "'r field list \<Rightarrow> 'r \<Rightarrow> bool" where
  "fits fs r \<longleftrightarrow> width (marshal fs r) \<le> 65536 \<and> tokenValue 0 (json_sort (marshal fs r))"

definition bundle_fits :: "bundle_t \<Rightarrow> bool" where
  "bundle_fits d \<longleftrightarrow> bundle_ok d \<and> fits bundle_fields d \<and> fits envelope_fields (bu_Envelope d)
     \<and> fits header_fields (document_header d)"

context struct begin

lemma encodedExact_encoded:
  assumes "P r" "fits fs r" "\<And>f. f \<in> set fs \<Longrightarrow> \<not> omitempty f"
  shows "encodedExact fs (Some (json_sort (marshal fs r))) r0 = Inr r"
  using exact_encoded [OF assms(1,3)] assms(2) by (simp add: fits_def encodedExact_def canonical_def json_sort_idem)

lemma exact_fits:
  "P r \<Longrightarrow> fits fs r \<Longrightarrow> (\<And>f. f \<in> set fs \<Longrightarrow> \<not> omitempty f) \<Longrightarrow> exact fs (encoded (marshal fs r)) r0 = Inr r"
  by (rule exact_encoded) (simp_all add: fits_def)

end

lemma no_omission:
  "f \<in> set bundle_fields \<Longrightarrow> \<not> omitempty f" "g \<in> set envelope_fields \<Longrightarrow> \<not> omitempty g"
  "h \<in> set header_fields \<Longrightarrow> \<not> omitempty h"
  by (auto simp: bundle_fields_def envelope_fields_def header_fields_def)

lemma decode_item_encoded:
  assumes d: "bundle_fits d" and prev: "\<not> h_DocumentID (document_header d) \<le> prev"
  shows "decode_item (json_sort (marshal bundle_fields d)) (acc, prev) = Inr (acc @ [d], h_DocumentID (document_header d))"
proof -
  let ?e = "bu_Envelope d"
  have ok: "bundle_ok d" "envelope_ok ?e" "header_ok (env_Header ?e)"
    using d by (simp_all add: bundle_fits_def bundle_ok_def envelope_ok_def)
  obtain ms where ms: "json_sort (marshal bundle_fields d) = JObj ms"
    "map_of ms ''envelope'' = Some (json_sort (marshal envelope_fields ?e))"
    by (simp add: marshal_def bundle_fields_def omitted_def map_of_sorted_members struct_codec_def)
  obtain es where es: "json_sort (marshal envelope_fields ?e) = JObj es"
    "map_of es ''header'' = Some (json_sort (marshal header_fields (env_Header ?e)))"
    by (simp add: marshal_def envelope_fields_def omitted_def map_of_sorted_members struct_codec_def)
  have 1: "encodedExact bundle_fields (Some (JObj ms)) bundle_zero = Inr d"
    using bundle_q.encodedExact_encoded [OF ok(1) _ no_omission(1)] d ms(1) by (simp add: bundle_fits_def)
  have 2: "encodedExact envelope_fields (Some (JObj es)) envelope_zero = Inr ?e"
    using envelope.encodedExact_encoded [OF ok(2) _ no_omission(2)] d es(1) by (simp add: bundle_fits_def)
  have 3: "encodedExact header_fields (map_of es ''header'') header_zero = Inr (env_Header ?e)"
    using header.encodedExact_encoded [OF ok(3) _ no_omission(3)] d es(2) by (simp add: bundle_fits_def)
  show ?thesis unfolding decode_item_def ms(1) using 1 2 3 ms(2) es(1) prev by simp
qed

lemma decode_items_encoded:
  "list_all bundle_fits ds \<Longrightarrow> sorted_wrt (<) (prev # map (\<lambda>d. h_DocumentID (document_header d)) ds) \<Longrightarrow>
     \<exists>prev'. fold_result decode_item (map (\<lambda>d. json_sort (marshal bundle_fields d)) ds) (acc, prev) = Inr (acc @ ds, prev')"
proof (induction ds arbitrary: acc prev)
  case (Cons d ds)
  then have "\<not> h_DocumentID (document_header d) \<le> prev" by (simp add: not_le)
  then have one: "decode_item (json_sort (marshal bundle_fields d)) (acc, prev)
      = Inr (acc @ [d], h_DocumentID (document_header d))"
    using Cons.prems(1) by (intro decode_item_encoded) simp_all
  obtain prev' where "fold_result decode_item (map (\<lambda>d. json_sort (marshal bundle_fields d)) ds)
      (acc @ [d], h_DocumentID (document_header d)) = Inr ((acc @ [d]) @ ds, prev')"
    using Cons.IH [of "h_DocumentID (document_header d)" "acc @ [d]"] Cons.prems by auto
  then show ?case using one by simp
qed simp

definition bundles_value :: "bundle_t list \<Rightarrow> jv" where
  "bundles_value ds = JArr (map (marshal bundle_fields) ds)"

lemma decodeBundles_encoded:
  assumes ds: "list_all bundle_fits ds" "sorted_wrt (<) (map (\<lambda>d. h_DocumentID (document_header d)) ds)"
    and ids: "list_all (\<lambda>d. h_DocumentID (document_header d) \<noteq> []) ds"
    and size: "width (bundles_value ds) \<le> 65536" "tokenValue 0 (json_sort (bundles_value ds))"
  shows "decodeBundles (encoded (bundles_value ds)) = Inr ds"
proof -
  have "list_all json_ok (map (marshal bundle_fields) ds)"
    using ds(1) bundle_q.marshal_ok by (auto simp: list_all_iff bundle_fits_def)
  then have ok: "json_ok (bundles_value ds)" by (simp add: bundles_value_def list_all_iff)
  have "sorted_wrt (<) ([] # map (\<lambda>d. h_DocumentID (document_header d)) ds)"
    using ds(2) ids by (auto simp: list_all_iff) (metis not_less_Nil list.exhaust Nil_less_Cons)
  from decode_items_encoded [OF ds(1) this, of "[]"] obtain prev' where
    "fold_result decode_item (map (\<lambda>d. json_sort (marshal bundle_fields d)) ds) ([], []) = Inr (ds, prev')" by auto
  moreover have "strictJSON (encoded (bundles_value ds)) = Inr (json_sort (bundles_value ds))"
    using strictJSON_encoded [OF ok encoded_len [OF ok size(1)]] size(2) by simp
  ultimately show ?thesis by (simp add: decodeBundles_def bundles_value_def comp_def)
qed

subsection \<open>Documents that have not been used\<close>

lemma header_printable:
  assumes "header_well_formed h"
  shows "list_all printable (h_DocumentID h)" "list_all printable (h_IssuerID h)"
    "list_all printable (h_SourceDocumentID h)" "list_all printable (h_Nonce h)"
  using assms
  by (auto simp: header_well_formed_def validID_def match_reference_def list_all_iff upnum_printable
      printable_code dest!: identifier_printable hexID_printable)

lemma verified_well_formed: "verifyBundle L s d = Inr u \<Longrightarrow> header_well_formed (document_header d)"
  by (auto simp: verifyBundle_def Let_def if_Inl_eq_Inr split: if_splits)

text \<open>The records that mark a document are free, on the ledger and in the plan so far.\<close>

definition unused :: "public \<Rightarrow> header \<Rightarrow> bool" where
  "unused f h \<longleftrightarrow> list_all (\<lambda>(kind, attrs). f kind attrs = []) (use_records h)"

definition unplanned :: "('e) externals_scheme \<Rightarrow> writePlan \<Rightarrow> header \<Rightarrow> bool" where
  "unplanned L p h \<longleftrightarrow> (\<forall>(kind, attrs) \<in> set (use_records h). \<forall>k. CreateCompositeKey L kind attrs = Some k \<longrightarrow> map_of p k = None)"

lemma unplanned_empty [simp]: "unplanned L [] h"
  by (simp add: unplanned_def case_prod_beta')

context reliable_ledger begin

lemma mark_document_total:
  assumes s: "fresh s" and h: "header_well_formed (document_header d)"
    and free: "unused (at L (view s)) (document_header d)" "unplanned L p (document_header d)"
  shows "\<exists>q. mark_document L s c x d p = Inr q"
proof -
  let ?h = "document_header d"
  note names = header_printable [OF h]
  have kinds: "list_all printable ''document''" "list_all printable ''sourceUse''" "list_all printable ''nonceUse''"
    by (simp_all add: printable_code)
  obtain k1 where k1: "CreateCompositeKey L ''document'' [h_DocumentID ?h] = Some k1"
    using key_exists [of "''document''" "[h_DocumentID ?h]"] kinds names by auto
  obtain k2 where k2: "CreateCompositeKey L ''sourceUse'' [h_IssuerID ?h, h_SourceDocumentID ?h] = Some k2"
    using key_exists [of "''sourceUse''" "[h_IssuerID ?h, h_SourceDocumentID ?h]"] kinds names by auto
  obtain k3 where k3: "CreateCompositeKey L ''nonceUse'' [h_IssuerID ?h, h_Nonce ?h] = Some k3"
    using key_exists [of "''nonceUse''" "[h_IssuerID ?h, h_Nonce ?h]"] kinds names by auto
  have distinct: "k1 \<noteq> k2" "k1 \<noteq> k3" "k2 \<noteq> k3"
    using key_inject [OF k1, of "''sourceUse''"] key_inject [OF k1, of "''nonceUse''"]
      key_inject [OF k2, of "''nonceUse''"] k2 k3 by auto
  have none: "map_of p k1 = None" "map_of p k2 = None" "map_of p k3 = None"
    using free(2) k1 k2 k3 by (simp_all add: unplanned_def use_records_def)
  have absent: "absent L s k1 code = Inr ()" "absent L s k2 code = Inr ()" "absent L s k3 code = Inr ()" for code
    using free(1) k1 k2 k3 by (auto simp: unused_def use_records_def at_key intro!: absent_missing [OF s])
  show ?thesis
    using distinct none absent
    by (simp add: mark_document_def Let_def key_def k1 k2 k3 mark_used_def put_def canonical_def
        del: put_entry.simps)
qed

end

subsection \<open>From passed checks to the commit\<close>

text \<open>
  A proposal whose caller, context and parameters pass the checks before the engine, for a
  command whose operation identifier is new: the public ledger is \<open>f\<close>.
\<close>

definition proposes :: "'s stub \<Rightarrow> 's \<Rightarrow> public \<Rightarrow> invocation \<Rightarrow> execution \<Rightarrow> transient \<Rightarrow> Command \<Rightarrow> bool" where
  "proposes stub s f i x t c \<longleftrightarrow> isMutation (inv_Function i) \<and> caller i = Inr (expected_caller (inv_Function i))
     \<and> executionFromStub i (fst (expected_caller (inv_Function i))) (snd (expected_caller (inv_Function i))) = Inr x
     \<and> (\<forall>seconds nanos. inv_TxTimestamp i = Some (seconds, nanos) \<longrightarrow> seconds < 2 ^ 63)
     \<and> inv_Transient i = Some t \<and> (\<exists>raw. inv_Parameters i = [raw] \<and> parseCommand (inv_Function i) raw = Inr c)
     \<and> (\<exists>cfg. getConfig (fabricLedger stub) s = Inr cfg) \<and> f ''operation'' [x_Actor x, c_OperationID c] = []"

text \<open>The batch a command finds: none and the zero values, or the version it expects.\<close>

definition starts_from :: "public \<Rightarrow> Command \<Rightarrow> Batch \<Rightarrow> EvidenceRefs \<Rightarrow> bool" where
  "starts_from f c b refs \<longleftrightarrow>
     (if c_Command c = ''CreateBatch''
      then no_batch f (c_BatchID c) \<and> c_ExpectedVersion c = 0 \<and> b = Batch_zero
         \<and> refs = EvidenceRefs_zero \<lparr> e_SchemaVersion := ''agrochain.batch-evidence.v1'', e_BatchID := c_BatchID c \<rparr>
      else batch_here f (c_BatchID c) b refs \<and> b_Version b = c_ExpectedVersion c \<and> b_Version b < 2147483647)"

lemma expected_permitted:
  assumes "isMutation fn"
  shows "permitted (fst (expected_caller fn)) (snd (expected_caller fn)) fn"
  using assms by (auto simp: isMutation_def permitted_def expected_caller_def member_def)

context reliable_stub begin

lemma command_checks:
  assumes s: "fresh s" and proposed: "proposes stub s (at stub (view s)) i x t c"
    and begins: "starts_from (at stub (view s)) c b refs"
  shows "\<exists>exists. apply_checks (fabricLedger stub) s c x = Inr (exists, b, refs)"
proof -
  let ?msp = "fst (expected_caller (inv_Function i))" and ?role = "snd (expected_caller (inv_Function i))"
  obtain raw where i: "isMutation (inv_Function i)" "executionFromStub i ?msp ?role = Inr x"
    "parseCommand (inv_Function i) raw = Inr c"
    and time: "\<And>seconds nanos. inv_TxTimestamp i = Some (seconds, nanos) \<Longrightarrow> seconds < 2 ^ 63"
    and new: "at stub (view s) ''operation'' [x_Actor x, c_OperationID c] = []"
    using proposed by (auto simp: proposes_def)
  have cmd: "c_Command c = inv_Function i" and payload: "validatePayload c = Inr ()"
    and ids: "validID (c_BatchID c) ''BAT''" "validID (c_OperationID c) ''OP''"
    using parseCommand_ids [OF i(3)] by simp_all
  have actor: "x_Actor x = ?msp" "x_Role x = ?role" "match_hexID (x_TxID x)" "valid_context x"
    using executionFromStub_facts [OF i(2)] time by blast+
  have permitted: "permitted ?msp ?role (inv_Function i)" by (rule expected_permitted [OF i(1)])
  have names: "list_all printable (c_BatchID c)" "list_all printable (x_Actor x)" "list_all printable (c_OperationID c)"
    using ids actor(1) permitted by (auto simp: validID_def identifier_printable permitted_def member_printable)
  show ?thesis
  proof (cases "c_Command c = ''CreateBatch''")
    case True
    then have "apply_checks (fabricLedger stub) s c x = Inr (False, b, refs)"
      using reliable.apply_checks_new [OF s, of c x] begins permitted payload actor new cmd names
      by (simp add: starts_from_def)
    then show ?thesis by blast
  next
    case False
    then have "apply_checks (fabricLedger stub) s c x = Inr (True, b, refs)"
      by (intro reliable.apply_checks_existing [OF s])
        (use begins permitted payload actor new cmd names in \<open>auto simp: starts_from_def\<close>)
    then show ?thesis by blast
  qed
qed

lemma command_commits:
  assumes s: "fresh s" and world: "world_ok (at stub (view s))"
    and proposed: "proposes stub s (at stub (view s)) i x t c"
    and begins: "starts_from (at stub (view s)) c b refs"
    and ev: "\<And>P. l_private (fabricLedger stub) = Some P \<Longrightarrow> prepare (fabricLedger stub) P s t x c b refs = Inr v"
    and draft: "apply_command (fabricLedger stub) s c x b refs v = Inr d"
  obtains bs s' P receipt where "Invoke stub i s = (Success bs, s')" "world_ok (at stub (view s'))"
    "batch_here (at stub (view s')) (c_BatchID c) (advance x b (d_batch d)) (d_refs d)"
    "prepare (fabricLedger stub) P s t x c b refs = Inr v"
    "engine_apply (fabricLedger stub) (prepare (fabricLedger stub) P s t x) c x s = (Inr receipt, s')"
proof -
  let ?L = "fabricLedger stub" and ?msp = "fst (expected_caller (inv_Function i))"
    and ?role = "snd (expected_caller (inv_Function i))"
  obtain raw cfg where i: "isMutation (inv_Function i)" "caller i = Inr (?msp, ?role)"
    "executionFromStub i ?msp ?role = Inr x" "inv_Transient i = Some t" "inv_Parameters i = [raw]"
    "parseCommand (inv_Function i) raw = Inr c" "getConfig ?L s = Inr cfg"
    using proposed by (auto simp: proposes_def)
  have ids: "validID (c_BatchID c) ''BAT''" "validID (c_OperationID c) ''OP''"
    using parseCommand_ids [OF i(6)] by simp_all
  have permitted: "permitted ?msp ?role (inv_Function i)" by (rule expected_permitted [OF i(1)])
  obtain P where P: "l_private ?L = Some P" using reliable.private_total by blast
  obtain exists where checks: "apply_checks ?L s c x = Inr (exists, b, refs)"
    using command_checks [OF s proposed begins] by blast
  have world': "world_ok (at ?L (view s))" using world by simp
  obtain receipt s' where run: "engine_apply ?L (prepare ?L P s t x) c x s = (Inr receipt, s')"
    using reliable.engine_apply_commits [OF s world' ids checks ev [OF P] draft] by blast
  have success: "Invoke stub i s = (Success (encoded (marshal Receipt_fields receipt)), s')"
    by (rule Invoke_commits [OF i(2,1) permitted i(3-7) P run])
  show thesis
  proof (rule fabric.apply_effect [OF real_evidence.evidence_provider_axioms s world' run ids])
    fix exists1 b1 refs1 v1 d1
    assume "apply_checks ?L s c x = Inr (exists1, b1, refs1)" "prepare ?L P s t x c b1 refs1 = Inr v1"
      "apply_command ?L s c x b1 refs1 v1 = Inr d1" "world_ok (at ?L (view s'))"
      and after: "batch_here (at ?L (view s')) (c_BatchID c) (advance x b1 (d_batch d1)) (d_refs d1)"
    moreover from this have "b1 = b" "refs1 = refs" "v1 = v" "d1 = d" using checks ev [OF P] draft by simp_all
    ultimately show thesis using that success ev [OF P] run by simp
  qed
qed

end

subsection \<open>Creating a batch\<close>

text \<open>A document that a command may take: verified, bound to the command and not used before.\<close>

definition ready_document :: "'s ledger \<Rightarrow> 's \<Rightarrow> public \<Rightarrow> Command \<Rightarrow> bundle_t \<Rightarrow> bool" where
  "ready_document L s f c d \<longleftrightarrow> verifyBundle L s d = Inr () \<and> unused f (document_header d)
     \<and> h_BatchID (document_header d) = c_BatchID c \<and> h_OperationID (document_header d) = c_OperationID c
     \<and> f ''documentReference'' [h_DocumentID (document_header d)] = []"

text \<open>A certificate of eligibility for the batch that a command creates.\<close>

definition certifies :: "Command \<Rightarrow> bundle_t \<Rightarrow> bool" where
  "certifies c d \<longleftrightarrow>
     h_DocumentType (document_header d) = ''PRODUCER_ELIGIBILITY'' \<and> h_SourceSystem (document_header d) = ''CKS''
   \<and> (case exact eligibilityBody_fields (bu_Body d) eligibilityBody_zero of
        Inl e \<Rightarrow> False
      | Inr body \<Rightarrow> let p = payload_of createInput_fields createInput_zero c in
          eb_Eligible body \<and> eb_Producer body = Producer \<and> eb_Product body = ci_ProductCode p
        \<and> eb_Grade body = ci_GradeCode p \<and> eb_Quantity body = ci_QuantityGrams p
        \<and> eb_Region body = ci_OriginRegionCode p \<and> eb_Harvest body = ci_HarvestDate p)"

context reliable_ledger begin

lemma consume_total:
  assumes s: "fresh s" and doc: "validID doc ''DOC''" "at L (view s) ''documentReference'' [doc] = []"
    and free: "\<And>k. CreateCompositeKey L ''documentReference'' [doc] = Some k \<Longrightarrow> map_of p k = None"
  shows "\<exists>q. consumeDocument L s doc c p = Inr q"
proof -
  have "list_all printable ''documentReference''" by (simp add: printable_code)
  then obtain k where k: "CreateCompositeKey L ''documentReference'' [doc] = Some k"
    using key_exists [of "''documentReference''" "[doc]"] doc(1) by (auto simp: validID_def identifier_printable)
  have "absent L s k code = Inr ()" for code
    using doc(2) k by (intro absent_missing [OF s]) (simp add: at_key)
  then show ?thesis
    using doc(1) k free [OF k] by (simp add: consumeDocument_def key_def put_def canonical_def)
qed

lemma prepare_creation:
  assumes s: "fresh s" and cmd: "c_Command c = ''CreateBatch''" and actor: "x_Actor x = Producer"
    and config: "getConfig L s = Inr cfg" and bundles: "decodeBundles raw = Inr [d]"
    and d: "ready_document L s (at L (view s)) c d" "certifies c d"
  obtains v where "prepare L P s [(''evidence'', raw)] x c b refs = Inr v"
    "v_CKS v = h_DocumentID (document_header d)"
    "v_Quantity v = ci_QuantityGrams (payload_of createInput_fields createInput_zero c)"
proof -
  let ?h = "document_header d" and ?t = "[(''evidence'', raw)]" and ?r = "[(''PRODUCER_ELIGIBILITY'', ''CKS'')]"
  note verified = d(1) [unfolded ready_document_def]
  have well: "header_well_formed ?h" by (rule verified_well_formed) (use verified in auto)
  obtain q where q: "mark_document L s c x d (v_Public verified_zero) = Inr q"
    using mark_document_total [OF s well, of "[]"] verified by (auto simp: verified_zero_def)
  obtain body where body: "exact eligibilityBody_fields (bu_Body d) eligibilityBody_zero = Inr body"
    using d(2) by (auto simp: certifies_def split: sum.splits)
  let ?v = "verified_zero \<lparr> v_Public := q, v_CKS := h_DocumentID ?h, v_Quantity := eb_Quantity body \<rparr>"
  have claim: "document_claim L ?t x c b d (verified_zero \<lparr> v_Public := q \<rparr>) = Inr (?v, [])"
    using d(2) body actor by (simp add: document_claim_def Let_def claim_eligibility_def certifies_def)
  have "prepare_document L s ?t x c b d (?r, verified_zero) = Inr ([], ?v)"
    using verified d(2) q claim by (simp add: prepare_document_def Let_def certifies_def entry_of_def)
  then have "prepare L P s ?t x c b refs = Inr ?v"
    using cmd config bundles by (simp add: prepare_def required_evidence_def check_transient_def entry_of_def)
  then show thesis
    by (rule that) (use d(2) body in \<open>simp_all add: certifies_def Let_def\<close>)
qed

end

context reliable_stub begin

lemma create_commits:
  assumes s: "fresh s" and world: "world_ok (at stub (view s))"
    and proposed: "proposes stub s (at stub (view s)) i x [(''evidence'', raw)] c"
    and fn: "inv_Function i = ''CreateBatch''" and new: "no_batch (at stub (view s)) (c_BatchID c)"
    and version: "c_ExpectedVersion c = 0" and bundles: "decodeBundles raw = Inr [d]"
    and d: "ready_document (fabricLedger stub) s (at stub (view s)) c d" "certifies c d"
  obtains bs s' b refs where "Invoke stub i s = (Success bs, s')" "world_ok (at stub (view s'))"
    "batch_here (at stub (view s')) (c_BatchID c) b refs" "b_State b = Created" "b_Version b = 1"
    "b_OwnerMSP b = Producer" "e_CKSDocumentID refs = h_DocumentID (document_header d)"
proof -
  let ?L = "fabricLedger stub"
  let ?refs = "EvidenceRefs_zero \<lparr> e_SchemaVersion := ''agrochain.batch-evidence.v1'', e_BatchID := c_BatchID c \<rparr>"
  obtain cfg where config: "getConfig ?L s = Inr cfg" using proposed by (auto simp: proposes_def)
  have cmd: "c_Command c = ''CreateBatch''"
    using proposed fn parseCommand_ids(1) by (fastforce simp: proposes_def)
  have actor: "x_Actor x = Producer"
    using proposed fn by (auto simp: proposes_def expected_caller_def executionFromStub_def split: option.splits if_splits)
  have ready: "ready_document ?L s (at ?L (view s)) c d" using d(1) by simp
  obtain P0 where P0: "l_private ?L = Some P0" using reliable.private_total by blast
  obtain v where v: "prepare ?L P0 s [(''evidence'', raw)] x c Batch_zero ?refs = Inr v"
    "v_CKS v = h_DocumentID (document_header d)"
    "v_Quantity v = ci_QuantityGrams (payload_of createInput_fields createInput_zero c)"
    by (rule reliable.prepare_creation [OF s cmd actor config bundles ready d(2)])
  have doc: "validID (h_DocumentID (document_header d)) ''DOC''"
    using verified_well_formed d(1) by (fastforce simp: ready_document_def header_well_formed_def)
  obtain plan where "consumeDocument ?L s (v_CKS v) c [] = Inr plan"
    using reliable.consume_total [OF s doc, of "[]" c] d(1) v(2) by (auto simp: ready_document_def)
  then have draft: "apply_command ?L s c x Batch_zero ?refs v = Inr
      \<lparr> d_batch = new_batch c x (payload_of createInput_fields createInput_zero c),
        d_refs = ?refs \<lparr> e_CKSDocumentID := v_CKS v \<rparr>, d_plan = plan, d_ids = [c_BatchID c, v_CKS v],
        d_event = ''BatchCreated'' \<rparr>"
    using cmd v(3) by (simp add: apply_command_def apply_create_def Let_def new_batch_def)
  have begins: "starts_from (at stub (view s)) c Batch_zero ?refs"
    using cmd new version by (simp add: starts_from_def)
  show thesis
  proof (rule command_commits [OF s world proposed begins _ draft])
    show "prepare ?L P s [(''evidence'', raw)] x c Batch_zero ?refs = Inr v" if "l_private ?L = Some P" for P
      using that P0 v(1) by simp
    fix bs s'
    assume "Invoke stub i s = (Success bs, s')" "world_ok (at stub (view s'))"
      and here: "batch_here (at stub (view s')) (c_BatchID c) (advance x Batch_zero (d_batch
        \<lparr> d_batch = new_batch c x (payload_of createInput_fields createInput_zero c),
        d_refs = ?refs \<lparr> e_CKSDocumentID := v_CKS v \<rparr>, d_plan = plan, d_ids = [c_BatchID c, v_CKS v],
        d_event = ''BatchCreated'' \<rparr>)) (d_refs
        \<lparr> d_batch = new_batch c x (payload_of createInput_fields createInput_zero c),
        d_refs = ?refs \<lparr> e_CKSDocumentID := v_CKS v \<rparr>, d_plan = plan, d_ids = [c_BatchID c, v_CKS v],
        d_event = ''BatchCreated'' \<rparr>)"
    then show thesis
      by (rule that) (use actor v(2) in \<open>simp_all add: advance_def new_batch_def Batch_zero_def wrap64_def\<close>)
  qed
qed

end

end
