(* ===== verification/Genesis.thy ===== *)
theory Genesis
  imports Creation
begin

text \<open>
  The start of a channel: on a peer that does not fail an admissible configuration is committed by
  the first \<open>Bootstrap\<close>, and every source key it names can be looked up afterwards.
\<close>

subsection \<open>Admissible configurations\<close>

definition admissible_source :: "sourceKey \<Rightarrow> bool" where
  "admissible_source k \<longleftrightarrow> sourceKey_ok k \<and> fits sourceKey_fields k \<and> sk_SchemaVersion k = ''agrochain.source-key.v1''
     \<and> match_reference (sk_IssuerID k) \<and> match_reference (sk_KeyID k) \<and> sk_Enabled k
     \<and> source_types (sk_SourceSystem k) = Some (sk_DocumentTypes k)
     \<and> (case rawURL (sk_PublicKey k) 32 of Inl e \<Rightarrow> False | Inr b \<Rightarrow> True)"

definition registry_name :: "sourceKey \<Rightarrow> bytes list" where
  "registry_name k = [sk_IssuerID k, sk_KeyID k]"

definition admissible :: "configuration \<Rightarrow> bool" where
  "admissible c \<longleftrightarrow> configuration_ok c \<and> fits configuration_fields c \<and> cf_SchemaVersion c = ''agrochain.bootstrap.v1''
     \<and> validID (cf_PolicyID c) ''CFG'' \<and> 0 \<le> cf_ThresholdBps c \<and> cf_ThresholdBps c \<le> 100000
     \<and> list_all admissible_source (cf_Sources c) \<and> distinct (map registry_name (cf_Sources c))
     \<and> map sk_SourceSystem (cf_Sources c) = [''CKS'', ''EFATURA'', ''HKS'', ''UETDS'']"

lemma no_omission_sources:
  "f \<in> set sourceKey_fields \<Longrightarrow> \<not> omitempty f" "g \<in> set configuration_fields \<Longrightarrow> \<not> omitempty g"
  by (auto simp: sourceKey_fields_def configuration_fields_def)

lemma reference_printable: "match_reference s \<Longrightarrow> list_all printable s"
  by (auto simp: match_reference_def list_all_iff upnum_printable printable_code)

subsection \<open>A stored key is read back\<close>

text \<open>The member that the registry adds to a key is no field of a key, so loading skips it.\<close>

lemma unmarshal_members_skip:
  "lookup_field fs k = None \<Longrightarrow>
     unmarshal_members fs ms r = unmarshal_members fs (filter (\<lambda>m. fst m \<noteq> k) ms) r"
proof (induction ms arbitrary: r)
  case (Cons m ms)
  then show ?case by (cases m) (auto split: option.split simp: bind_eq_Some_conv intro: Option.bind_cong)
qed simp

lemma filter_sorted_members:
  assumes "distinct (map fst ms)" "k \<notin> fst ` set ms"
  shows "filter (\<lambda>m. fst m \<noteq> k) (sort_key fst (ms @ [(k, v)])) = sort_key fst ms"
proof -
  have "filter (\<lambda>m. fst m \<noteq> k) (ms @ [(k, v)]) = ms"
    using assms(2) by (auto simp: filter_id_conv)
  then show ?thesis using filter_sort [of "\<lambda>m. fst m \<noteq> k" fst "ms @ [(k, v)]"] by simp
qed

lemma source_read_back:
  assumes "sourceKey_ok k" "text_ok tx"
  shows "Unmarshal sourceKey_fields (encoded (stored_source k tx)) sourceKey_zero = Some k"
proof -
  let ?f = "map (map_prod id json_sort)"
  obtain ms where ms: "marshal sourceKey_fields k = JObj ms" by (simp add: marshal_def)
  have tags: "map fst ms = map tag sourceKey_fields"
    using ms by (auto simp: marshal_def omitted_def filter_True no_omission_sources)
  then have new: "distinct (map fst (?f ms))" "''createdTxId'' \<notin> fst ` set (?f ms)"
  proof -
    have k: "map fst (?f ms) = map tag sourceKey_fields" using tags by (simp add: comp_def)
    show "distinct (map fst (?f ms))" unfolding k by (rule source_key.tags)
    have "''createdTxId'' \<notin> set (map tag sourceKey_fields)" by (simp add: sourceKey_fields_def)
    then show "''createdTxId'' \<notin> fst ` set (?f ms)" using k by (metis list.set_map)
  qed
  have unknown: "lookup_field sourceKey_fields ''createdTxId'' = None" by code_simp
  have "unmarshal sourceKey_fields (json_sort (stored_source k tx)) sourceKey_zero
      = unmarshal_members sourceKey_fields (sort_key fst (?f ms @ [(''createdTxId'', JStr tx)])) sourceKey_zero"
    by (simp add: stored_source_def ms unmarshal_def)
  also have "\<dots> = unmarshal_members sourceKey_fields (sort_key fst (?f ms)) sourceKey_zero"
    by (subst unmarshal_members_skip [OF unknown]) (simp only: filter_sorted_members [OF new])
  also have "\<dots> = unmarshal sourceKey_fields (json_sort (marshal sourceKey_fields k)) sourceKey_zero"
    by (simp add: ms unmarshal_def)
  also have "\<dots> = Some k" by (rule source_key.unmarshal_marshal [OF assms(1)]) (simp add: no_omission_sources)
  finally have "unmarshal sourceKey_fields (json_sort (stored_source k tx)) sourceKey_zero = Some k" .
  moreover have "json_ok (stored_source k tx)"
    using source_key.marshal_ok [OF assms(1)] assms(2) by (auto simp: stored_source_def ms)
  ultimately show ?thesis
    by (simp add: Unmarshal_def json_parse_print json_ok_sort del: json_sort.simps json_print.simps)
qed

subsection \<open>Registering the sources\<close>

context reliable_ledger begin

lemma register_total:
  assumes k: "admissible_source k"
    and fresh: "\<And>r. CreateCompositeKey L ''sourceKey'' (registry_name k) = Some r \<Longrightarrow> r \<notin> set (bl_seenKeys st)"
    and order: "sk_SourceSystem k \<notin> set (bl_seen st)" "bl_last st < sk_SourceSystem k"
  obtains r where "CreateCompositeKey L ''sourceKey'' (registry_name k) = Some r"
    "register_source L x k st = Inr \<lparr> bl_plan = put_entry r (Some (encoded (stored_source k (x_TxID x)))) (bl_plan st),
       bl_seenKeys = r # bl_seenKeys st, bl_seen = sk_SourceSystem k # bl_seen st, bl_last = sk_SourceSystem k \<rparr>"
proof -
  note a = k [unfolded admissible_source_def]
  have "list_all printable ''sourceKey''" by (simp add: printable_code)
  then obtain r where r: "CreateCompositeKey L ''sourceKey'' (registry_name k) = Some r"
    using key_exists [of "''sourceKey''" "registry_name k"] a by (auto simp: registry_name_def reference_printable)
  have "encodedExact sourceKey_fields (Some (marshal sourceKey_fields k)) sourceKey_zero = Inr k"
    using source_key.encodedExact_encoded [OF _ _ no_omission_sources(1)] a by (simp add: encodedExact_sorted)
  moreover obtain b where "rawURL (sk_PublicKey k) 32 = Inr b" using a by (auto split: sum.splits)
  ultimately show thesis
    using that [OF r] a fresh [OF r] order r
    by (simp add: register_source_def key_def put_def canonical_def registry_name_def not_le del: put_entry.simps)
qed

lemma register_all_total:
  assumes "list_all admissible_source ks" "distinct (map registry_name ks)"
    and "sorted_wrt (<) (bl_last st # map sk_SourceSystem ks)"
    and "\<forall>k \<in> set ks. \<forall>r. CreateCompositeKey L ''sourceKey'' (registry_name k) = Some r \<longrightarrow> r \<notin> set (bl_seenKeys st)"
    and "\<forall>y \<in> set (bl_seen st). y \<le> bl_last st"
  shows "\<exists>st'. fold_result (register_source L x) ks st = Inr st'
    \<and> (\<forall>k \<in> set ks. \<exists>r. CreateCompositeKey L ''sourceKey'' (registry_name k) = Some r
        \<and> map_of (bl_plan st') r = Some (Some (encoded (stored_source k (x_TxID x)))))
    \<and> (\<forall>r. (\<forall>k \<in> set ks. CreateCompositeKey L ''sourceKey'' (registry_name k) \<noteq> Some r)
        \<longrightarrow> map_of (bl_plan st') r = map_of (bl_plan st) r)"
  using assms
proof (induction ks arbitrary: st)
  case (Cons k ks)
  have unseen: "sk_SourceSystem k \<notin> set (bl_seen st)" using Cons.prems(3,5) by (auto simp: leD)
  obtain r where r: "CreateCompositeKey L ''sourceKey'' (registry_name k) = Some r"
    and one: "register_source L x k st = Inr \<lparr> bl_plan = put_entry r (Some (encoded (stored_source k (x_TxID x)))) (bl_plan st),
       bl_seenKeys = r # bl_seenKeys st, bl_seen = sk_SourceSystem k # bl_seen st, bl_last = sk_SourceSystem k \<rparr>"
    by (rule register_total [of k st x]) (use Cons.prems unseen in auto)
  let ?st = "\<lparr> bl_plan = put_entry r (Some (encoded (stored_source k (x_TxID x)))) (bl_plan st),
       bl_seenKeys = r # bl_seenKeys st, bl_seen = sk_SourceSystem k # bl_seen st, bl_last = sk_SourceSystem k \<rparr>"
  have other: "CreateCompositeKey L ''sourceKey'' (registry_name k') \<noteq> Some r" if "k' \<in> set ks" for k'
    using key_inject [OF r, of "''sourceKey''" "registry_name k'"] Cons.prems(2) that by auto
  obtain st' where st': "fold_result (register_source L x) ks ?st = Inr st'"
    "\<forall>k \<in> set ks. \<exists>r. CreateCompositeKey L ''sourceKey'' (registry_name k) = Some r
        \<and> map_of (bl_plan st') r = Some (Some (encoded (stored_source k (x_TxID x))))"
    "\<forall>r. (\<forall>k \<in> set ks. CreateCompositeKey L ''sourceKey'' (registry_name k) \<noteq> Some r)
        \<longrightarrow> map_of (bl_plan st') r = map_of (bl_plan ?st) r"
    using Cons.IH [of ?st] Cons.prems other by (force simp: less_imp_le)
  have "map_of (bl_plan st') r = Some (Some (encoded (stored_source k (x_TxID x))))"
    using st'(3) other by simp
  then show ?case using one st' r by (intro exI [of _ st']) (auto simp del: put_entry.simps)
qed simp

end

subsection \<open>The bootstrap\<close>

lemma check_items_total:
  "list_all admissible_source ks \<Longrightarrow>
     fold_result check_source_item (map (\<lambda>k. json_sort (marshal sourceKey_fields k)) ks) () = Inr ()"
proof (induction ks)
  case (Cons k ks)
  have "encodedExact sourceKey_fields (Some (json_sort (marshal sourceKey_fields k))) sourceKey_zero = Inr k"
    by (rule source_key.encodedExact_encoded) (use Cons.prems no_omission_sources in \<open>auto simp: admissible_source_def\<close>)
  then show ?case using Cons by (simp add: check_source_item_def)
qed simp

lemma admissible_items:
  assumes "admissible c"
  shows "source_items (strictJSON (encoded (marshal configuration_fields c)))
    = Inr (map (\<lambda>k. json_sort (marshal sourceKey_fields k)) (cf_Sources c))"
proof -
  have ok: "json_ok (marshal configuration_fields c)" "width (marshal configuration_fields c) \<le> 65536"
    "tokenValue 0 (json_sort (marshal configuration_fields c))"
    using assms configuration.marshal_ok by (auto simp: admissible_def fits_def)
  have "strictJSON (encoded (marshal configuration_fields c)) = Inr (json_sort (marshal configuration_fields c))"
    using strictJSON_encoded [OF ok(1) encoded_len [OF ok(1,2)]] ok(3) by simp
  moreover obtain ms where "json_sort (marshal configuration_fields c) = JObj ms"
    "map_of ms ''sources'' = Some (JArr (map (\<lambda>k. json_sort (marshal sourceKey_fields k)) (cf_Sources c)))"
    by (simp add: marshal_def configuration_fields_def omitted_def map_of_sorted_members list_codec_def
        struct_codec_def comp_def)
  ultimately show ?thesis by (simp add: source_items_def)
qed

context reliable_ledger begin

lemma bootstrap_total:
  assumes s: "fresh s" and c: "admissible c" and x: "x_Actor x = Regulator" "x_Role x = ''admin''"
    and none: "at L (view s) ''configuration'' [''v1''] = []"
  obtains s' where "bootstrap L x (encoded (marshal configuration_fields c)) s = (Inr c, s')"
    "\<And>k. k \<in> set (cf_Sources c) \<Longrightarrow>
       at L (view s') ''sourceKey'' (registry_name k) = encoded (stored_source k (x_TxID x))"
proof -
  let ?raw = "encoded (marshal configuration_fields c)"
  let ?st = "\<lparr> bl_plan = [], bl_seenKeys = [], bl_seen = [], bl_last = [] \<rparr> :: bootstrap_loop"
  note a = c [unfolded admissible_def]
  have kinds: "list_all printable ''configuration''" "list_all printable ''policy''" "list_all printable ''v1''"
    by (simp_all add: printable_code)
  obtain k1 where k1: "CreateCompositeKey L ''configuration'' [''v1''] = Some k1"
    using key_exists [of "''configuration''" "[''v1'']"] kinds by auto
  obtain k2 where k2: "CreateCompositeKey L ''policy'' [cf_PolicyID c] = Some k2"
    using key_exists [of "''policy''" "[cf_PolicyID c]"] kinds a by (auto simp: validID_def identifier_printable)
  have auth: "authorize (x_Actor x) (x_Role x) ''Bootstrap'' = Inr ()"
    using x by (simp add: authorize_permitted permitted_def member_def expected_caller_def)
  have ab: "absent L s k1 code = Inr ()" for code
    using none k1 by (intro absent_missing [OF s]) (simp add: at_key)
  have exact: "exact configuration_fields ?raw configuration_zero = Inr c"
    by (rule configuration.exact_fits) (use a no_omission_sources in auto)
  have four: "len (cf_Sources c) = 4"
  proof -
    have "length (map sk_SourceSystem (cf_Sources c)) = 4" using a by simp
    then show ?thesis by (simp add: len_def)
  qed
  obtain st where st: "fold_result (register_source L x) (cf_Sources c) ?st = Inr st"
    "\<forall>k \<in> set (cf_Sources c). \<exists>r. CreateCompositeKey L ''sourceKey'' (registry_name k) = Some r
        \<and> map_of (bl_plan st) r = Some (Some (encoded (stored_source k (x_TxID x))))"
    using register_all_total [of "cf_Sources c" ?st x] a by auto
  let ?plan = "put_entry k2 (Some (encoded (policy_value c (x_TxID x)))) (put_entry k1 (Some ?raw) (bl_plan st))"
  have plan: "bootstrap_plan L s x ?raw = Inr (c, ?plan)"
    using a auth ab exact four st(1) admissible_items [OF c] check_items_total [of "cf_Sources c"] k1 k2
    by (simp add: bootstrap_plan_def key_def put_def canonical_def del: put_entry.simps)
  have "composite L ?plan" by (rule composite_within [OF bootstrap_plan_within [OF plan]])
  then obtain s' where w: "write_keys L ?plan (sort (map fst ?plan)) s = (Inr (), s')"
    using write_keys_total [of ?plan "sort (map fst ?plan)" s] by auto
  then have run: "bootstrap L x ?raw s = (Inr c, s')" using plan by (simp add: bootstrap_def)
  show thesis
  proof (rule that [OF run])
    fix k
    assume "k \<in> set (cf_Sources c)"
    then obtain r where r: "CreateCompositeKey L ''sourceKey'' (registry_name k) = Some r"
      "map_of (bl_plan st) r = Some (Some (encoded (stored_source k (x_TxID x))))"
      using st(2) by blast
    have "r \<noteq> k1" "r \<noteq> k2" using key_inject [OF r(1)] k1 k2 by fastforce+
    moreover obtain plan' where "bootstrap_plan L s x ?raw = Inr (c, plan')" "view s' = outcome (map_of plan') (view s)"
      using bootstrap_view [OF run] by blast
    moreover from this plan have "plan' = ?plan" by simp
    ultimately have "view s' r = outcome (map_of ?plan) (view s) r" by simp
    then show "at L (view s') ''sourceKey'' (registry_name k) = encoded (stored_source k (x_TxID x))"
      using r \<open>r \<noteq> k1\<close> \<open>r \<noteq> k2\<close> by (simp add: at_key outcome_def del: put_entry.simps)
  qed
qed

end

context reliable_stub begin

lemma bootstrap_commits:
  assumes s: "fresh s" and c: "admissible c" and trust: "trust_world (at stub (view s))" and none: "at stub (view s) ''configuration'' [''v1''] = []"
    and i: "inv_Function i = ''Bootstrap''" "caller i = Inr (Regulator, ''admin'')"
      "executionFromStub i Regulator ''admin'' = Inr x" "inv_Transient i = Some []"
      "inv_Parameters i = [encoded (marshal configuration_fields c)]"
  obtains s' where "Invoke stub i s = (Success (encoded (marshal configuration_fields c)), s')"
    "\<And>k. k \<in> set (cf_Sources c) \<Longrightarrow>
       at stub (view s') ''sourceKey'' (registry_name k) = encoded (stored_source k (x_TxID x))"
    "at stub (view s') ''configuration'' [''v1''] = encoded (marshal configuration_fields c)"
    "\<And>kind attrs. kind \<notin> set trust_kinds \<Longrightarrow> at stub (view s') kind attrs = at stub (view s) kind attrs"
proof -
  let ?L = "fabricLedger stub"
  have x: "x_Actor x = Regulator" "x_Role x = ''admin''"
    using i(3) by (auto simp: executionFromStub_def split: option.splits if_splits)
  have none': "at ?L (view s) ''configuration'' [''v1''] = []" using none by simp
  obtain s' where boot: "bootstrap ?L x (encoded (marshal configuration_fields c)) s = (Inr c, s')"
    "\<And>k. k \<in> set (cf_Sources c) \<Longrightarrow>
       at ?L (view s') ''sourceKey'' (registry_name k) = encoded (stored_source k (x_TxID x))"
    using reliable.bootstrap_total [OF s c x none'] by metis
  have auth: "authorize Regulator ''admin'' ''Bootstrap'' = Inr ()"
    by (simp add: authorize_permitted permitted_def member_def expected_caller_def)
  have config: "at ?L (view s') ''configuration'' [''v1''] = encoded (marshal configuration_fields c)"
  proof -
    have "trust_world (at ?L (view s))" using trust by simp
    from fabric.bootstrap_effect(3) [OF boot(1) s this] show ?thesis .
  qed
  have "dispatch ?L Regulator ''admin'' ''Bootstrap'' [encoded (marshal configuration_fields c)]
      [\<lparr> pr_x = x, pr_transient = [] \<rparr>] s = (Inr (Some (marshal configuration_fields c)), s')"
    using boot(1) auth by (simp add: dispatch_unfold)
  moreover have "invoke_context i Regulator ''admin'' = Inr x" using i(1,3) by (simp add: invoke_context_def)
  ultimately have "Invoke stub i s = (Success (encoded (marshal configuration_fields c)), s')"
    using i by (simp add: Invoke_def reply_def canonical_def)
  then show thesis using that [of s'] boot(2) config fabric.bootstrap_frame [OF boot(1)] by simp
qed

end

end
