(* ===== verification/Demo.thy ===== *)
theory Demo
  imports Commit Records
begin

text \<open>
  A channel in the middle of a handover, on the peer in memory: a tomato batch waits for its
  carrier, who accepts it.  The state satisfies the invariant of the ledger and the acceptance
  is committed; the witnesses of the properties run on it.
\<close>

subsection \<open>A committed world from a table of records\<close>

definition memory_of :: "(bytes \<times> bytes list \<times> bytes) list \<Rightarrow> memory" where
  "memory_of es = memory_empty
     \<lparr> m_committed := map (\<lambda>(kind, attrs, v). (CHR 0x00 # segments (kind # attrs), v)) es \<rparr>"

definition table :: "(bytes \<times> bytes list \<times> bytes) list \<Rightarrow> public" where
  "table es kind attrs = lookup (map (\<lambda>(k, as, v). ((k, as), v)) es) (kind, attrs)"

definition table_ok :: "(bytes \<times> bytes list \<times> bytes) list \<Rightarrow> bool" where
  "table_ok es \<longleftrightarrow> list_all (\<lambda>(kind, attrs, v). list_all segment_ok (kind # attrs)) es"

lemma table_simps:
  "table [] kind attrs = []"
  "table ((k, as, v) # es) kind attrs = (if kind = k \<and> attrs = as then v else table es kind attrs)"
  by (auto simp: table_def lookup_def)

lemma memory_of_fresh [simp]: "memory_fresh (memory_of es)"
  by (simp add: memory_fresh_def memory_of_def memory_empty_def)

lemma memory_of_at:
  assumes "table_ok es"
  shows "at memory_stub (memory_view (memory_of es)) kind attrs = table es kind attrs"
proof (cases "list_all segment_ok (kind # attrs)")
  case True
  then have k: "CreateCompositeKey memory_stub kind attrs = Some (CHR 0x00 # segments (kind # attrs))"
    by (simp add: memory_stub_def memory_key_def)
  have "lookup (map (\<lambda>(kind, attrs, v). (CHR 0x00 # segments (kind # attrs), v)) es)
      (CHR 0x00 # segments (kind # attrs)) = table es kind attrs"
    using assms
  proof (induction es)
    case (Cons e es)
    obtain k as v where e: "e = (k, as, v)" by (metis surj_pair)
    have ok: "list_all segment_ok (k # as)" using Cons.prems e by (simp add: table_ok_def)
    have "segments (k # as) = segments (kind # attrs) \<longleftrightarrow> k = kind \<and> as = attrs"
      using segments_inject [OF ok True] by auto
    then show ?case
      using Cons e by (auto simp: lookup_def table_def table_ok_def simp del: segments.simps split: if_splits)
  qed (simp add: lookup_def table_def)
  then show ?thesis
    using k by (simp add: at_def memory_view_def memory_of_def memory_empty_def del: segments.simps)
next
  case False
  then have "CreateCompositeKey memory_stub kind attrs = None" by (auto simp: memory_stub_def memory_key_def)
  moreover have "table es kind attrs = []"
    using assms False
    by (induction es) (auto simp: table_simps table_ok_def)
  ultimately show ?thesis by (simp add: at_def)
qed

subsection \<open>The records\<close>

definition demo_id :: bytes where "demo_id = ''BAT-00000001''"
definition demo_transfer_id :: bytes where "demo_transfer_id = ''TRF-00000001''"
definition demo_time :: TxTime where "demo_time = \<lparr> tm_Seconds = ''1750000000'', tm_Nanos = 0 \<rparr>"
definition demo_tx :: bytes where "demo_tx = replicate 64 (CHR ''7'')"

definition demo_batch :: Batch where
  "demo_batch = \<lparr> b_SchemaVersion = ''agrochain.batch.v1'', b_BatchID = demo_id,
     b_ProductCode = ''TOMATO'', b_GradeCode = ''STANDARD'', b_QuantityGrams = 1000000,
     b_OriginRegionCode = ''07'', b_HarvestDate = ''2026-06-01'', b_ProducerMSP = Producer,
     b_LogisticsMSP = Logistics, b_IntendedRetailerMSP = Retailer, b_OwnerMSP = Producer,
     b_CustodianMSP = Producer, b_State = PickupPending, b_Version = 2, b_RetailLotID = [],
     b_CreatedTxID = demo_tx, b_UpdatedTxID = demo_tx, b_TxTime = demo_time \<rparr>"

definition demo_refs :: EvidenceRefs where
  "demo_refs = \<lparr> e_SchemaVersion = ''agrochain.batch-evidence.v1'', e_BatchID = demo_id,
     e_CKSDocumentID = ''DOC-00000001'', e_PurchaseDocumentID = ''DOC-00000002'',
     e_HKSDocumentID = ''DOC-00000003'', e_TransportDocumentID = ''DOC-00000004'',
     e_FreightCostID = [], e_RetailReportID = [] \<rparr>"

definition demo_transfer :: Transfer where
  "demo_transfer = Transfer_zero \<lparr> t_SchemaVersion := ''agrochain.custody-transfer.v1'',
     t_TransferID := demo_transfer_id, t_BatchID := demo_id, t_Kind := ''PICKUP'',
     t_Status := ''OFFERED'', t_FromMSP := Producer, t_ToMSP := Logistics, t_QuantityGrams := 1000000,
     t_OfferOperationID := ''OP-00000002'', t_OfferedTxID := demo_tx \<rparr>"

definition demo_receipt :: "bytes \<Rightarrow> bytes \<Rightarrow> int \<Rightarrow> Receipt" where
  "demo_receipt op cmd n = \<lparr> r_SchemaVersion = ''agrochain.receipt.v1'', r_OperationID = op,
     r_BatchID = demo_id, r_Command = cmd, r_ActorMSP = Producer, r_TxID = demo_tx,
     r_TxTime = demo_time, r_ResultVersion = n, r_ObjectIDs = [demo_id] \<rparr>"

definition demo_config :: configuration where
  "demo_config = \<lparr> cf_SchemaVersion = ''agrochain.bootstrap.v1'', cf_PolicyID = ''CFG-00000001'',
     cf_ThresholdBps = 5000, cf_Sources = [] \<rparr>"

definition demo_envelope :: envelope where
  "demo_envelope = \<lparr> env_Header = header_zero \<lparr> h_SchemaVersion := ''agrochain.source-document.v1'',
     h_DocumentID := ''DOC-00000001'', h_SourceSystem := ''CKS'', h_DocumentType := ''PRODUCER_ELIGIBILITY'',
     h_BatchID := demo_id, h_OperationID := ''OP-00000001'' \<rparr>, env_Signature = [] \<rparr>"

definition demo_records :: "(bytes \<times> bytes list \<times> bytes) list" where
  "demo_records =
     [(''configuration'', [''v1''], encoded (marshal configuration_fields demo_config)),
      (''batch'', [demo_id], encoded (marshal Batch_fields demo_batch)),
      (''batchEvidence'', [demo_id], encoded (marshal EvidenceRefs_fields demo_refs)),
      (''owner'', [Producer, demo_id], encoded (JStr demo_id)),
      (''state'', [PickupPending, demo_id], encoded (JStr demo_id)),
      (''history'', [demo_id, ''0000000001''],
        encoded (marshal Receipt_fields (demo_receipt ''OP-00000001'' ''CreateBatch'' 1))),
      (''history'', [demo_id, ''0000000002''],
        encoded (marshal Receipt_fields (demo_receipt ''OP-00000002'' ''OfferPickup'' 2))),
      (''operation'', [Producer, ''OP-00000001''],
        encoded (marshal Receipt_fields (demo_receipt ''OP-00000001'' ''CreateBatch'' 1))),
      (''operation'', [Producer, ''OP-00000002''],
        encoded (marshal Receipt_fields (demo_receipt ''OP-00000002'' ''OfferPickup'' 2))),
      (''document'', [''DOC-00000001''], encoded (marshal envelope_fields demo_envelope)),
      (''transfer'', [demo_transfer_id], encoded (marshal Transfer_fields demo_transfer)),
      (''pendingTransfer'', [demo_id], encoded (JStr demo_transfer_id))]"

definition demo :: memory where "demo = memory_of demo_records"

lemma demo_at: "at memory_stub (memory_view demo) = table demo_records"
proof -
  have "table_ok demo_records"
    by (simp add: table_ok_def demo_records_def demo_id_def demo_transfer_id_def segment_ok_def
        msp_defs state_defs)
  then show ?thesis by (simp add: fun_eq_iff demo_def memory_of_at)
qed

lemma demo_fresh: "memory_fresh demo"
  by (simp add: demo_def)

lemmas demo_texts = demo_id_def demo_transfer_id_def demo_tx_def demo_time_def msp_defs state_defs

lemma demo_tx_text: "text_ok demo_tx"
  by code_simp

lemma demo_batch_ok: "Batch_ok demo_batch"
  by (simp add: Batch_ok_def demo_batch_def demo_tx_text TxTime_ok_def int_ok_def) (simp add: demo_texts)

lemma demo_refs_ok: "EvidenceRefs_ok demo_refs"
  by (simp add: EvidenceRefs_ok_def demo_refs_def demo_texts)

lemma demo_transfer_ok: "Transfer_ok demo_transfer"
  by (simp add: Transfer_ok_def demo_transfer_def Transfer_zero_def demo_tx_text int_ok_def) (simp add: demo_texts)

lemma demo_id_valid: "validID demo_id ''BAT''"
  by code_simp

lemma demo_shape: "batch_shape demo_id demo_batch" "refs_shape demo_id (b_State demo_batch) demo_refs"
  by (simp_all add: batch_shape_def refs_shape_def demo_batch_def demo_refs_def demo_id_valid
      validState_def owner_at_def custodian_at_def printable_code)

lemma padded_one_two: "format_padded 1 = ''0000000001''" "format_padded 2 = ''0000000002''"
  by code_simp+

lemma demo_stored_transfer: "stored_transfer (table demo_records) demo_transfer"
proof -
  have "t_TransferID demo_transfer = demo_transfer_id" by (simp add: demo_transfer_def)
  then show ?thesis by (simp add: stored_transfer_def demo_transfer_ok table_simps demo_records_def)
qed

lemma demo_pending:
  "table demo_records ''pendingTransfer'' [demo_id] = encoded (JStr (t_TransferID demo_transfer))"
proof -
  have "t_TransferID demo_transfer = demo_transfer_id" by (simp add: demo_transfer_def)
  then show ?thesis by (simp only: table_simps demo_records_def) simp
qed

lemma demo_here: "batch_here (table demo_records) demo_id demo_batch demo_refs"
proof -
  have history: "(\<exists>n. 1 \<le> n \<and> n \<le> 2 \<and> v = format_padded n) \<longleftrightarrow> v = ''0000000001'' \<or> v = ''0000000002''" for v
  proof -
    have "1 \<le> n \<and> n \<le> 2 \<longleftrightarrow> n = 1 \<or> n = (2::int)" for n by auto
    then show ?thesis using padded_one_two by metis
  qed
  have "awaited demo_batch demo_transfer"
    by (simp add: awaited_def demo_batch_def demo_transfer_def)
  then have pending: "pending_world (table demo_records) demo_batch"
    using demo_stored_transfer
    by (auto simp: pending_world_def pending_state_def demo_batch_def demo_pending)
  have index: "index_world (table demo_records) demo_batch"
    by (auto simp: index_world_def history demo_batch_def table_simps demo_records_def)
  show ?thesis
    using demo_batch_ok demo_refs_ok demo_shape pending index
    by (simp add: batch_here_def table_simps demo_records_def)
qed

lemma demo_consistent: "consistent (at memory_stub (memory_view demo))"
proof -
  have "no_batch (table demo_records) i" if "i \<noteq> demo_id" for i
    unfolding no_batch_def demo_records_def table_simps using that by simp
  then have batches: "no_batch (table demo_records) i \<or> (\<exists>b r. batch_here (table demo_records) i b r)" for i
    using demo_here by (cases "i = demo_id") auto
  have "table demo_records ''transfer'' [j] = []
      \<or> (\<exists>t. stored_transfer (table demo_records) t \<and> t_TransferID t = j)" for j
  proof (cases "j = demo_transfer_id")
    case True
    then show ?thesis using demo_stored_transfer by (auto simp: demo_transfer_def)
  next
    case False
    then show ?thesis by (simp add: table_simps demo_records_def)
  qed
  then have "world_ok (table demo_records)" using batches by (simp add: world_ok_def)
  moreover have "trust_world (table demo_records)"
    by (simp add: trust_world_def table_simps demo_records_def)
  ultimately show ?thesis by (simp add: demo_at consistent_def)
qed

subsection \<open>The carrier accepts\<close>

definition demo_handoff :: handoffInput where
  "demo_handoff = \<lparr> hi_TransferID = demo_transfer_id, hi_QuantityGrams = 1000000 \<rparr>"

definition demo_command :: Command where
  "demo_command = \<lparr> c_SchemaVersion = ''agrochain.command.v1'', c_OperationID = ''OP-00000003'',
     c_BatchID = demo_id, c_ExpectedVersion = 2, c_Command = ''AcceptPickup'',
     c_Payload = encoded (marshal handoffInput_fields demo_handoff) \<rparr>"

definition demo_invocation :: invocation where
  "demo_invocation = \<lparr> inv_Identity = Some \<lparr> MSPID = Some Logistics, AttributeValue = (\<lambda>_. Some ''carrier'') \<rparr>,
     inv_Function = ''AcceptPickup'', inv_Parameters = [encoded (marshal Command_fields demo_command)],
     inv_Transient = Some [], inv_TxTimestamp = Some (1750000000, 0), inv_TxID = demo_tx \<rparr>"

lemma demo_handoff_ok: "handoffInput_ok demo_handoff"
  by code_simp

lemma demo_payload: "Unmarshal handoffInput_fields (c_Payload demo_command) handoffInput_zero = Some demo_handoff"
  unfolding demo_command_def Command.simps
  by (rule handoff_input.Unmarshal_print [OF demo_handoff_ok]) (auto simp: handoffInput_fields_def)

lemma demo_payload_valid: "validatePayload demo_command = Inr ()"
proof -
  have fields: "map tag handoffInput_fields = [''transferId'', ''quantityGrams'']" by (simp add: handoffInput_fields_def)
  have "exact handoffInput_fields (encoded (marshal handoffInput_fields demo_handoff)) handoffInput_zero = Inr demo_handoff"
    by (rule handoff_input.exact_encoded [OF demo_handoff_ok]) (auto simp: handoffInput_fields_def, code_simp+)
  then have "decode handoffInput_fields (c_Payload demo_command) handoffInput_zero
      [''transferId'', ''quantityGrams''] = Inr demo_handoff"
    by (simp add: exact_def fields demo_command_def)
  moreover have "validID (hi_TransferID demo_handoff) ''TRF''" by code_simp
  ultimately show ?thesis
    by (simp add: validatePayload_def demo_command_def demo_handoff_def)
qed

lemma demo_command_ok: "Command_ok demo_command"
proof -
  have "json_ok (marshal handoffInput_fields demo_handoff)"
    by (rule handoff_input.marshal_ok [OF demo_handoff_ok])
  then have "raw_ok (c_Payload demo_command)"
    by (auto simp: raw_ok_def demo_command_def json_sort_idem intro!: json_ok_sort
      exI [of _ "json_sort (marshal handoffInput_fields demo_handoff)"])
  then show ?thesis by (simp add: Command_ok_def int_ok_def) (simp add: demo_command_def demo_texts)
qed

lemma demo_raw:
  "marshal Command_fields demo_command = JObj
     [(''schemaVersion'', JStr ''agrochain.command.v1''), (''operationId'', JStr ''OP-00000003''),
      (''batchId'', JStr demo_id), (''expectedVersion'', JNum (FormatInt 2)), (''command'', JStr ''AcceptPickup''),
      (''payload'', json_sort (marshal handoffInput_fields demo_handoff))]"
proof -
  have "json_ok (json_sort (marshal handoffInput_fields demo_handoff))"
    by (rule json_ok_sort, rule handoff_input.marshal_ok [OF demo_handoff_ok])
  then have "raw_value (encoded (marshal handoffInput_fields demo_handoff))
      = Some (json_sort (marshal handoffInput_fields demo_handoff))"
    using encoded_nonempty [OF handoff_input.marshal_ok [OF demo_handoff_ok]]
    by (simp add: raw_value_def json_parse_print)
  then show ?thesis
    by (simp add: marshal_def Command_fields_def omitted_def demo_command_def raw_codec_def
        string_codec_def int_codec_def)
qed

text \<open>The command a client encodes is the command the chaincode reads.\<close>

lemma parse_encoded:
  assumes "Command_ok c" "width (marshal Command_fields c) \<le> 65536"
    and "tokenValue 0 (json_sort (marshal Command_fields c))" "c_SchemaVersion c = ''agrochain.command.v1''"
    and "validID (c_OperationID c) ''OP''" "validID (c_BatchID c) ''BAT''"
    and "0 \<le> c_ExpectedVersion c" "c_ExpectedVersion c \<le> 2147483647" "validatePayload c = Inr ()"
  shows "parseCommand (c_Command c) (encoded (marshal Command_fields c)) = Inr c"
proof -
  have fields: "map tag Command_fields =
      [''schemaVersion'', ''operationId'', ''batchId'', ''expectedVersion'', ''command'', ''payload'']"
    by (simp add: Command_fields_def)
  have "exact Command_fields (encoded (marshal Command_fields c)) Command_zero = Inr c"
    by (rule command.exact_encoded [OF assms(1)]) (use assms(2,3) in \<open>auto simp: Command_fields_def\<close>)
  then show ?thesis
    using assms(4-9) by (simp add: parseCommand_def exact_def fields)
qed

lemma demo_command_width: "width (marshal Command_fields demo_command) \<le> 65536"
  unfolding demo_raw by code_simp

lemma demo_command_tokens: "tokenValue 0 (json_sort (marshal Command_fields demo_command))"
  unfolding demo_raw by code_simp

lemma demo_command_ids: "validID (c_OperationID demo_command) ''OP''" "validID (c_BatchID demo_command) ''BAT''"
  by code_simp+

lemmas demo_command_reads = demo_command_ok demo_command_width demo_command_tokens demo_command_ids demo_payload_valid

lemma demo_parsed: "parseCommand ''AcceptPickup'' (encoded (marshal Command_fields demo_command)) = Inr demo_command"
  using parse_encoded [of demo_command] demo_command_reads by (simp add: demo_command_def)

lemma demo_config_read: "getConfig (fabricLedger memory_stub) demo = Inr demo_config"
proof -
  have ok: "configuration_ok demo_config" by code_simp
  have "at (fabricLedger memory_stub) (memory_view demo) ''configuration'' [''v1'']
      = encoded (marshal configuration_fields demo_config)"
    by (simp add: demo_at table_simps demo_records_def)
  moreover obtain k where k: "CreateCompositeKey (fabricLedger memory_stub) ''configuration'' [''v1''] = Some k"
    by (simp add: fabricLedger_def memory_stub_def memory_key_def segment_ok_def)
  ultimately have v: "memory_view demo k = encoded (marshal configuration_fields demo_config)"
    using memory.fabric.at_key by metis
  have config: "Unmarshal configuration_fields (encoded (marshal configuration_fields demo_config)) configuration_zero
      = Some demo_config"
    by (rule configuration.Unmarshal_print [OF ok]) (auto simp: configuration_fields_def)
  have "load (fabricLedger memory_stub) demo k (struct_codec configuration_fields) configuration_zero
      = Inr (True, demo_config)"
    by (rule reliable_memory.reliable.load_present [OF demo_fresh])
      (use v config in simp_all)
  then show ?thesis using k by (simp add: getConfig_def key_def)
qed

text \<open>What the acceptance leaves, and its reply.\<close>

definition demo_next :: memory where
  "demo_next = snd (Invoke memory_stub demo_invocation demo)"

definition demo_reply :: bytes where
  "demo_reply = (case fst (Invoke memory_stub demo_invocation demo) of Success bs \<Rightarrow> bs | _ \<Rightarrow> [])"

definition demo_execution :: execution where
  "demo_execution = \<lparr> x_Actor = Logistics, x_Role = ''carrier'', x_TxID = demo_tx,
     x_Time = \<lparr> tm_Seconds = FormatInt 1750000000, tm_Nanos = 0 \<rparr> \<rparr>"

text \<open>Everything an acceptance asks for.\<close>

lemma demo_accept_facts:
  "world_ok (at memory_stub (memory_view demo))"
  "batch_here (at memory_stub (memory_view demo)) (c_BatchID demo_command) demo_batch demo_refs"
  "pending_state (b_State demo_batch)" "b_State demo_batch = PickupPending"
  "b_Version demo_batch < 2147483647" "c_ExpectedVersion demo_command = b_Version demo_batch"
  "getConfig (fabricLedger memory_stub) demo = Inr demo_config"
  "inv_Function demo_invocation = ''AcceptPickup''"
  "caller demo_invocation = Inr (expected_caller ''AcceptPickup'')"
  "executionFromStub demo_invocation (fst (expected_caller ''AcceptPickup'')) (snd (expected_caller ''AcceptPickup''))
     = Inr demo_execution"
  "inv_TxTimestamp demo_invocation = Some (1750000000, 0)"
  "inv_Transient demo_invocation = Some []"
  "inv_Parameters demo_invocation = [encoded (marshal Command_fields demo_command)]"
  "parseCommand ''AcceptPickup'' (encoded (marshal Command_fields demo_command)) = Inr demo_command"
  "demo_handoff = payload_of handoffInput_fields handoffInput_zero demo_command"
  "hi_QuantityGrams demo_handoff = b_QuantityGrams demo_batch"
  "at memory_stub (memory_view demo) ''pendingTransfer'' [c_BatchID demo_command]
     = encoded (JStr (hi_TransferID demo_handoff))"
  "at memory_stub (memory_view demo) ''operation'' [x_Actor demo_execution, c_OperationID demo_command] = []"
proof -
  have hex: "match_hexID demo_tx" by code_simp
  show "world_ok (at memory_stub (memory_view demo))" using demo_consistent by (simp add: consistent_def)
  show "batch_here (at memory_stub (memory_view demo)) (c_BatchID demo_command) demo_batch demo_refs"
    using demo_here by (simp add: demo_at demo_command_def)
  show "demo_handoff = payload_of handoffInput_fields handoffInput_zero demo_command"
    using demo_payload by (simp add: payload_of_def)
  show "at memory_stub (memory_view demo) ''pendingTransfer'' [c_BatchID demo_command]
      = encoded (JStr (hi_TransferID demo_handoff))"
    using demo_pending by (simp add: demo_at demo_command_def demo_handoff_def demo_transfer_def)
  show "at memory_stub (memory_view demo) ''operation'' [x_Actor demo_execution, c_OperationID demo_command] = []"
    by (simp add: demo_at demo_command_def demo_execution_def table_simps demo_records_def)
  show "executionFromStub demo_invocation (fst (expected_caller ''AcceptPickup''))
      (snd (expected_caller ''AcceptPickup'')) = Inr demo_execution"
    using hex by (simp add: executionFromStub_def demo_invocation_def expected_caller_def demo_execution_def)
qed (use demo_config_read demo_parsed in \<open>simp_all add: pending_state_def demo_invocation_def caller_def
    expected_caller_def demo_batch_def demo_command_def demo_handoff_def\<close>)

lemma demo_accepts:
  "Invoke memory_stub demo_invocation demo = (Success demo_reply, demo_next)"
  "\<exists>b. batch_here (at memory_stub (memory_view demo_next)) demo_id b demo_refs \<and> b_State b = InTransport"
proof -
  have "\<exists>bs s' b'. Invoke memory_stub demo_invocation demo = (Success bs, s')
    \<and> batch_here (at memory_stub (memory_view s')) (c_BatchID demo_command) b' demo_refs
    \<and> b_State b' = (if b_State demo_batch = PickupPending then InTransport else Received)"
    by (rule reliable_memory.accept_commits [where p = demo_handoff and x = demo_execution
          and raw = "encoded (marshal Command_fields demo_command)" and cfg = demo_config, OF demo_fresh])
      (use demo_accept_facts in simp_all)
  then show "Invoke memory_stub demo_invocation demo = (Success demo_reply, demo_next)"
    "\<exists>b. batch_here (at memory_stub (memory_view demo_next)) demo_id b demo_refs \<and> b_State b = InTransport"
    using demo_accept_facts(4) by (auto simp: demo_command_def demo_next_def demo_reply_def)
qed

text \<open>Lookups by the carrier.\<close>

definition demo_lookup :: "bytes \<Rightarrow> bytes \<Rightarrow> invocation" where
  "demo_lookup fn arg = demo_invocation \<lparr> inv_Function := fn, inv_Parameters := [arg] \<rparr>"

lemma demo_lookup_simps [simp]:
  "inv_Function (demo_lookup fn arg) = fn" "inv_Parameters (demo_lookup fn arg) = [arg]"
  "inv_Transient (demo_lookup fn arg) = Some []" "caller (demo_lookup fn arg) = Inr (Logistics, ''carrier'')"
  by (simp_all add: demo_lookup_def demo_invocation_def caller_def)

lemma demo_lookup_permitted:
  "permitted Logistics ''carrier'' ''GetBatch''" "permitted Logistics ''carrier'' ''GetOperation''"
  by (simp_all add: permitted_def member_def expected_caller_def allowed_roles_def)

lemma demo_mutation: "isMutation (inv_Function demo_invocation)"
  by (simp add: isMutation_def demo_invocation_def)

lemma demo_caller: "caller demo_invocation = Inr (Logistics, ''carrier'')"
  by (simp add: demo_invocation_def caller_def)

lemma demo_parameters: "inv_Parameters demo_invocation = [encoded (marshal Command_fields demo_command)]"
  by (simp add: demo_invocation_def)

lemma demo_parsed_invocation:
  "parseCommand (inv_Function demo_invocation) (encoded (marshal Command_fields demo_command)) = Inr demo_command"
  using demo_parsed by (simp add: demo_invocation_def)

lemma demo_later: "reachable memory_stub memory_commit demo (memory_commit demo_next)"
  using reachable.transaction [OF reachable.start demo_accepts(1)] .

subsection \<open>A region code with a sign\<close>

definition signed_region :: createInput where
  "signed_region = \<lparr> ci_ProductCode = ''TOMATO'', ci_GradeCode = ''STANDARD'', ci_QuantityGrams = 1000,
     ci_OriginRegionCode = ''+7'', ci_HarvestDate = ''2026-06-01'', ci_LogisticsMSP = Logistics,
     ci_IntendedRetailerMSP = Retailer \<rparr>"

definition signed_command :: Command where
  "signed_command = demo_command \<lparr> c_Command := ''CreateBatch'',
     c_Payload := encoded (marshal createInput_fields signed_region) \<rparr>"

end
