(* ===== verification/Samples.thy ===== *)
theory Samples
  imports Genesis Demo
begin

text \<open>
  Documents of sample sources, on the peer in memory: each source signs with the zero key, whose
  signatures the stand-in check accepts, and commits to a body and a zero salt.
\<close>

subsection \<open>Sources and callers\<close>

text \<open>Thirty-two and sixty-four zero bytes, in base64url.\<close>

definition zero_key :: bytes where "zero_key = replicate 43 (CHR ''A'')"
definition zero_signature :: bytes where "zero_signature = replicate 86 (CHR ''A'')"

lemma zero_decoded:
  "rawURL zero_key 32 = Inr (replicate 32 (CHR 0x00))"
  "rawURL zero_signature 64 = Inr (replicate 64 (CHR 0x00))"
  by code_simp+

definition first_source :: "bytes \<Rightarrow> bytes list \<Rightarrow> sourceKey" where
  "first_source system types = \<lparr> sk_SchemaVersion = ''agrochain.source-key.v1'', sk_IssuerID = system,
     sk_SourceSystem = system, sk_DocumentTypes = types, sk_KeyID = ''KEY_1'', sk_PublicKey = zero_key,
     sk_Enabled = True \<rparr>"

definition first_context :: "bytes \<Rightarrow> bytes \<Rightarrow> bytes \<Rightarrow> bytes \<Rightarrow> transient \<Rightarrow> invocation" where
  "first_context msp role fn arg t = \<lparr> inv_Identity = Some \<lparr> MSPID = Some msp, AttributeValue = (\<lambda>_. Some role) \<rparr>,
     inv_Function = fn, inv_Parameters = [arg], inv_Transient = Some t, inv_TxTimestamp = Some (1750000000, 0),
     inv_TxID = demo_tx \<rparr>"

lemma demo_tx_hex: "match_hexID demo_tx"
  by code_simp

lemma first_execution:
  "executionFromStub (first_context msp role fn arg t) msp role = Inr \<lparr> x_Actor = msp, x_Role = role,
     x_TxID = demo_tx, x_Time = \<lparr> tm_Seconds = FormatInt 1750000000, tm_Nanos = 0 \<rparr> \<rparr>"
  using demo_tx_hex by (simp add: executionFromStub_def first_context_def)

subsection \<open>Documents\<close>

definition first_salt :: bytes where "first_salt = replicate 64 (CHR ''0'')"

text \<open>The first thirty-two bytes of the salted body, which are what the stand-in hash returns.\<close>

definition first_commitment :: bytes where
  "first_commitment = ''4167726f436861696e2f646f63756d656e742f76310000000000000000000000''"

lemma first_commitment_prefix:
  "first_commitment = hex_encode (take 32 (''AgroChain/document/v1'' @ [CHR 0x00] @ hex_decode first_salt))"
  by code_simp

lemma first_salt_hex: "match_hexID first_salt" "length (hex_decode first_salt) = 32"
  by code_simp+

lemma raw_encoded:
  assumes "json_ok v"
  shows "raw_ok (encoded v)" "raw_value (encoded v) = Some (json_sort v)"
proof -
  show "raw_ok (encoded v)"
    unfolding raw_ok_def
    by (intro exI [of _ "json_sort v"] conjI refl json_ok_sort [OF assms] json_sort_idem)
  show "raw_value (encoded v) = Some (json_sort v)"
    using encoded_nonempty [OF assms] json_parse_print [OF json_ok_sort [OF assms]] by (simp add: raw_value_def)
qed

text \<open>The document of a header and a body.\<close>

definition sample :: "header \<Rightarrow> jv \<Rightarrow> bundle_t" where
  "sample h v = \<lparr> bu_Envelope = \<lparr> env_Header = h, env_Signature = zero_signature \<rparr>, bu_Body = encoded v, bu_Salt = first_salt \<rparr>"

definition sample_value :: "header \<Rightarrow> jv \<Rightarrow> jv" where
  "sample_value h v = JObj [(''envelope'', marshal envelope_fields \<lparr> env_Header = h, env_Signature = zero_signature \<rparr>),
     (''body'', json_sort v), (''saltHex'', JStr first_salt)]"

lemma sample_simps [simp]:
  "bu_Envelope (sample h v) = \<lparr> env_Header = h, env_Signature = zero_signature \<rparr>" "bu_Body (sample h v) = encoded v"
  "bu_Salt (sample h v) = first_salt"
  by (simp_all add: sample_def)

lemma sample_marshal: "json_ok v \<Longrightarrow> marshal bundle_fields (sample h v) = sample_value h v"
  unfolding marshal_def [of bundle_fields]
  by (simp add: bundle_fields_def omitted_def raw_codec_def struct_codec_def string_codec_def
      raw_encoded(2) sample_value_def del: json_sort.simps json_print.simps)

text \<open>A header and a body whose document is within the limits of strict decoding.\<close>

definition sample_ok :: "header \<Rightarrow> jv \<Rightarrow> bool" where
  "sample_ok h v \<longleftrightarrow> json_ok v \<and> header_well_formed h \<and> header_ok h \<and> fits header_fields h
     \<and> envelope_ok \<lparr> env_Header = h, env_Signature = zero_signature \<rparr>
     \<and> fits envelope_fields \<lparr> env_Header = h, env_Signature = zero_signature \<rparr>
     \<and> width (JArr [sample_value h v]) \<le> 65536 \<and> tokenValue 0 (json_sort (JArr [sample_value h v]))
     \<and> width (sample_value h v) \<le> 65536 \<and> tokenValue 0 (json_sort (sample_value h v))
     \<and> width v \<le> 65536 \<and> tokenValue 0 (json_sort v) \<and> h_Commitment h = first_commitment"

lemma sample_fits: "sample_ok h v \<Longrightarrow> bundle_fits (sample h v)"
  using raw_encoded(1) [of v] hexID_text [OF first_salt_hex(1)]
  by (simp add: sample_ok_def bundle_fits_def bundle_ok_def fits_def sample_marshal
      del: json_sort.simps json_print.simps tokenValue.simps width.simps)

lemma sample_read:
  assumes "sample_ok h v"
  shows "decodeBundles (encoded (bundles_value [sample h v])) = Inr [sample h v]"
proof (rule decodeBundles_encoded)
  have v: "json_ok v" "validID (h_DocumentID h) ''DOC''" using assms by (simp_all add: sample_ok_def header_well_formed_def)
  show "width (bundles_value [sample h v]) \<le> 65536" "tokenValue 0 (json_sort (bundles_value [sample h v]))"
    using assms by (simp_all add: bundles_value_def sample_ok_def sample_marshal [OF v(1)]
        del: json_sort.simps tokenValue.simps width.simps)
  show "list_all (\<lambda>d. h_DocumentID (document_header d) \<noteq> []) [sample h v]"
  proof -
    have "\<not> validID [] ''DOC''" by code_simp
    then show ?thesis using v(2) by auto
  qed
qed (use sample_fits [OF assms] in simp_all)

lemma sample_committed:
  assumes "sample_ok h v"
  shows "commitment (fabricLedger memory_stub) (encoded v) first_salt = Inr first_commitment"
proof -
  have v: "json_ok v" "width v \<le> 65536" "tokenValue 0 (json_sort v)" using assms by (simp_all add: sample_ok_def)
  have "strictJSON (encoded v) = Inr (json_sort v)" using strictJSON_encoded [OF v(1) encoded_len [OF v(1,2)]] v(3) by simp
  then show ?thesis
    unfolding first_commitment_prefix
    using first_salt_hex by (simp add: commitment_def fabricLedger_def memory_stub_def canonical_def)
qed

lemma sample_verified:
  assumes s: "memory_fresh s" and doc: "sample_ok h v"
    and key: "at memory_stub (memory_view s) ''sourceKey'' [system, ''KEY_1''] = encoded (stored_source (first_source system types) demo_tx)"
    and source: "sourceKey_ok (first_source system types)" "list_all printable system"
    and h: "h_IssuerID h = system" "h_KeyID h = ''KEY_1''" "h_SourceSystem h = system" "h_DocumentType h \<in> set types"
  shows "verifyBundle (fabricLedger memory_stub) s (sample h v) = Inr ()"
proof -
  let ?L = "fabricLedger memory_stub" and ?k = "first_source system types"
  have "list_all (list_all printable) [''sourceKey'', system, ''KEY_1'']" using source(2) by (simp add: printable_code)
  then obtain r where r: "CreateCompositeKey ?L ''sourceKey'' [system, ''KEY_1''] = Some r"
    using reliable_memory.reliable.key_exists [of "''sourceKey''" "[system, ''KEY_1'']"] by blast
  have "at ?L (memory_view s) ''sourceKey'' [system, ''KEY_1''] = encoded (stored_source ?k demo_tx)"
    using key by simp
  then have v: "memory_view s r = encoded (stored_source ?k demo_tx)" by (simp only: memory.fabric.at_key [OF r])
  have "load ?L s r (struct_codec sourceKey_fields) sourceKey_zero = Inr (True, ?k)"
    by (rule reliable_memory.reliable.load_present [OF s])
      (use v source_read_back [OF source(1) demo_tx_text] in \<open>simp_all add: stored_source_def marshal_def\<close>)
  moreover have "key ?L ''sourceKey'' [h_IssuerID h, h_KeyID h] = Inr r" using r h by (simp add: key_def)
  moreover obtain msg where "canonical (Some (marshal header_fields h)) = Inr msg" by (simp add: canonical_def)
  moreover have "Ed25519Verify ?L (replicate 32 (CHR 0x00)) m (replicate 64 (CHR 0x00))" for m
    by (simp add: fabricLedger_def memory_stub_def replicate_add [symmetric])
  moreover have "commitment ?L (encoded v) first_salt = Inr (h_Commitment h)"
    using sample_committed [OF doc] doc by (simp add: sample_ok_def)
  ultimately show ?thesis
    using doc zero_decoded h(3,4) by (simp add: verifyBundle_def Let_def sample_ok_def first_source_def)
qed

end
