(* ===== verification/Scenario.thy ===== *)
theory Scenario
  imports Samples
begin

text \<open>
  A channel from its first transaction on, on the peer in memory: the administrator bootstraps an
  empty ledger with four source keys, then the producer creates a batch with a signed certificate
  of eligibility.  Both are committed, so the properties of the channel speak of reachable states
  that hold batches and documents.
\<close>

subsection \<open>The bootstrap\<close>

definition first_config :: configuration where
  "first_config = \<lparr> cf_SchemaVersion = ''agrochain.bootstrap.v1'', cf_PolicyID = ''CFG-00000001'',
     cf_ThresholdBps = 5000, cf_Sources =
       [first_source ''CKS'' [''PRODUCER_ELIGIBILITY''],
        first_source ''EFATURA'' [''FREIGHT_INVOICE'', ''PURCHASE_INVOICE''],
        first_source ''HKS'' [''TRADE_NOTIFICATION''], first_source ''UETDS'' [''TRANSPORT_MANIFEST'']] \<rparr>"

lemma first_sources_plain:
  "list_all (\<lambda>k. sourceKey_ok k \<and> fits sourceKey_fields k \<and> sk_SchemaVersion k = ''agrochain.source-key.v1''
     \<and> match_reference (sk_IssuerID k) \<and> match_reference (sk_KeyID k) \<and> sk_Enabled k
     \<and> source_types (sk_SourceSystem k) = Some (sk_DocumentTypes k)) (cf_Sources first_config)"
  by code_simp

lemma first_config_plain:
  "configuration_ok first_config \<and> fits configuration_fields first_config
     \<and> distinct (map registry_name (cf_Sources first_config)) \<and> validID (cf_PolicyID first_config) ''CFG''"
  by code_simp

lemma first_config_admissible: "admissible first_config"
proof -
  have "list_all admissible_source (cf_Sources first_config)"
    using first_sources_plain zero_decoded(1)
    by (auto simp: admissible_source_def list_all_iff first_config_def first_source_def)
  then show ?thesis
    using first_config_plain by (simp add: admissible_def) (simp add: first_config_def first_source_def)
qed

definition genesis_invocation :: invocation where
  "genesis_invocation = first_context Regulator ''admin'' ''Bootstrap''
     (encoded (marshal configuration_fields first_config)) []"

definition genesis :: memory where
  "genesis = memory_commit (snd (Invoke memory_stub genesis_invocation memory_empty))"

lemma empty_at: "at memory_stub (memory_view memory_empty) kind attrs = []"
  by (simp add: at_def memory_view_def memory_empty_def lookup_def split: option.split)

lemma empty_fresh: "memory_fresh memory_empty"
  by (simp add: memory_fresh_def memory_empty_def)

lemma empty_world: "consistent (at memory_stub (memory_view memory_empty))"
  by (rule memory.empty_consistent) (simp add: memory_view_def memory_empty_def lookup_def)

lemma committed: "memory_fresh (memory_commit s)" "memory_view (memory_commit s) = memory_view s"
  using memory.commit by simp_all

lemma genesis_called:
  "inv_Function genesis_invocation = ''Bootstrap''" "caller genesis_invocation = Inr (Regulator, ''admin'')"
  "executionFromStub genesis_invocation Regulator ''admin'' = Inr \<lparr> x_Actor = Regulator, x_Role = ''admin'',
     x_TxID = demo_tx, x_Time = \<lparr> tm_Seconds = FormatInt 1750000000, tm_Nanos = 0 \<rparr> \<rparr>"
  "inv_Transient genesis_invocation = Some []"
  "inv_Parameters genesis_invocation = [encoded (marshal configuration_fields first_config)]"
  unfolding genesis_invocation_def by (simp_all add: first_execution) (simp_all add: first_context_def caller_def)

lemma genesis_committed:
  "\<exists>s'. Invoke memory_stub genesis_invocation memory_empty = (Success (encoded (marshal configuration_fields first_config)), s')
     \<and> genesis = memory_commit s'"
  "at memory_stub (memory_view genesis) ''configuration'' [''v1''] = encoded (marshal configuration_fields first_config)"
  "k \<in> set (cf_Sources first_config) \<Longrightarrow>
     at memory_stub (memory_view genesis) ''sourceKey'' (registry_name k) = encoded (stored_source k demo_tx)"
  "kind \<notin> set trust_kinds \<Longrightarrow> at memory_stub (memory_view genesis) kind attrs = []"
proof -
  have trust: "trust_world (at memory_stub (memory_view memory_empty))" using empty_world by (simp add: consistent_def)
  obtain s' where run: "Invoke memory_stub genesis_invocation memory_empty
      = (Success (encoded (marshal configuration_fields first_config)), s')"
    and keys: "\<And>k. k \<in> set (cf_Sources first_config) \<Longrightarrow>
       at memory_stub (memory_view s') ''sourceKey'' (registry_name k) = encoded (stored_source k demo_tx)"
    and config: "at memory_stub (memory_view s') ''configuration'' [''v1''] = encoded (marshal configuration_fields first_config)"
    and frame: "\<And>kind attrs. kind \<notin> set trust_kinds \<Longrightarrow>
       at memory_stub (memory_view s') kind attrs = at memory_stub (memory_view memory_empty) kind attrs"
    by (rule reliable_memory.bootstrap_commits [OF empty_fresh first_config_admissible trust empty_at genesis_called]) auto
  have g: "genesis = memory_commit s'" using run by (simp add: genesis_def)
  show "\<exists>s'. Invoke memory_stub genesis_invocation memory_empty
      = (Success (encoded (marshal configuration_fields first_config)), s') \<and> genesis = memory_commit s'"
    using run g by blast
  show "at memory_stub (memory_view genesis) ''configuration'' [''v1''] = encoded (marshal configuration_fields first_config)"
    unfolding g committed(2) by (rule config)
  show "k \<in> set (cf_Sources first_config) \<Longrightarrow>
     at memory_stub (memory_view genesis) ''sourceKey'' (registry_name k) = encoded (stored_source k demo_tx)"
    unfolding g committed(2) by (rule keys)
  show "kind \<notin> set trust_kinds \<Longrightarrow> at memory_stub (memory_view genesis) kind attrs = []"
    using frame [of kind attrs] unfolding g committed(2) empty_at .
qed

lemma genesis_reachable: "reachable memory_stub memory_commit memory_empty genesis"
  using genesis_committed(1) reachable.transaction [OF reachable.start] by metis

lemma genesis_fresh: "memory_fresh genesis"
  by (simp add: genesis_def committed)

lemma genesis_consistent: "consistent (at memory_stub (memory_view genesis))"
  using memory.later_consistent [OF empty_fresh empty_world genesis_reachable] by simp

lemma genesis_config: "getConfig (fabricLedger memory_stub) genesis = Inr first_config"
proof -
  have ok: "configuration_ok first_config" using first_config_admissible by (simp add: admissible_def)
  obtain k where k: "CreateCompositeKey (fabricLedger memory_stub) ''configuration'' [''v1''] = Some k"
    by (simp add: fabricLedger_def memory_stub_def memory_key_def segment_ok_def)
  have "at (fabricLedger memory_stub) (memory_view genesis) ''configuration'' [''v1'']
      = encoded (marshal configuration_fields first_config)" using genesis_committed(2) by simp
  then have v: "memory_view genesis k = encoded (marshal configuration_fields first_config)"
    using k memory.fabric.at_key by metis
  have config: "Unmarshal configuration_fields (encoded (marshal configuration_fields first_config)) configuration_zero
      = Some first_config"
    by (rule configuration.Unmarshal_print [OF ok]) (auto simp: configuration_fields_def)
  have "load (fabricLedger memory_stub) genesis k (struct_codec configuration_fields) configuration_zero
      = Inr (True, first_config)"
    by (rule reliable_memory.reliable.load_present [OF genesis_fresh]) (use v config in simp_all)
  then show ?thesis using k by (simp add: getConfig_def key_def)
qed

subsection \<open>The certificate\<close>

definition first_body :: eligibilityBody where
  "first_body = \<lparr> eb_Producer = Producer, eb_Product = ''TOMATO'', eb_Grade = ''STANDARD'', eb_Quantity = 1000,
     eb_Region = ''07'', eb_Harvest = ''2026-06-01'', eb_Eligible = True \<rparr>"

definition first_header :: header where
  "first_header = \<lparr> h_SchemaVersion = ''agrochain.source-document.v1'', h_DocumentID = ''DOC-00000001'',
     h_SourceSystem = ''CKS'', h_SourceMode = ''SIMULATED'', h_IssuerID = ''CKS'', h_KeyID = ''KEY_1'',
     h_SourceDocumentID = ''DOC-10000001'', h_DocumentType = ''PRODUCER_ELIGIBILITY'', h_BatchID = demo_id,
     h_OperationID = ''OP-00000001'', h_IssuedAt = ''2026-06-01T08:00:00.000Z'', h_Nonce = demo_tx,
     h_CommitmentAlgorithm = ''SHA256_SALTED_JCS_V1'', h_Commitment = first_commitment,
     h_SignatureAlgorithm = ''Ed25519'' \<rparr>"

definition first_value :: jv where "first_value = marshal eligibilityBody_fields first_body"

definition first_bundle :: bundle_t where "first_bundle = sample first_header first_value"

lemma first_body_facts: "eligibilityBody_ok first_body" "fits eligibilityBody_fields first_body"
  by code_simp+

lemma first_sample: "sample_ok first_header first_value"
proof -
  have "json_ok first_value" unfolding first_value_def by (rule eligibility_body.marshal_ok [OF first_body_facts(1)])
  moreover have "width first_value \<le> 65536" "tokenValue 0 (json_sort first_value)"
    using first_body_facts(2) by (simp_all add: fits_def first_value_def)
  moreover have "header_well_formed first_header" "header_ok first_header" "fits header_fields first_header"
    "envelope_ok \<lparr> env_Header = first_header, env_Signature = zero_signature \<rparr>"
    "fits envelope_fields \<lparr> env_Header = first_header, env_Signature = zero_signature \<rparr>"
    "width (JArr [sample_value first_header first_value]) \<le> 65536" "width (sample_value first_header first_value) \<le> 65536"
    "tokenValue 0 (json_sort (JArr [sample_value first_header first_value]))"
    "tokenValue 0 (json_sort (sample_value first_header first_value))" "h_Commitment first_header = first_commitment"
    by code_simp+
  ultimately show ?thesis unfolding sample_ok_def by blast
qed

lemma first_body_read:
  "exact eligibilityBody_fields (bu_Body first_bundle) eligibilityBody_zero = Inr first_body"
  unfolding first_bundle_def sample_simps first_value_def
  by (rule eligibility_body.exact_fits) (use first_body_facts in \<open>auto simp: eligibilityBody_fields_def\<close>)

lemma first_bundle_verified: "verifyBundle (fabricLedger memory_stub) genesis first_bundle = Inr ()"
  unfolding first_bundle_def
proof (rule sample_verified [OF genesis_fresh first_sample, where system = "''CKS''" and types = "[''PRODUCER_ELIGIBILITY'']"])
  let ?k = "first_source ''CKS'' [''PRODUCER_ELIGIBILITY'']"
  have source: "?k \<in> set (cf_Sources first_config)" by (simp add: first_config_def)
  have name: "registry_name ?k = [''CKS'', ''KEY_1'']" by (simp add: registry_name_def first_source_def)
  show "at memory_stub (memory_view genesis) ''sourceKey'' [''CKS'', ''KEY_1''] = encoded (stored_source ?k demo_tx)"
    using genesis_committed(3) [OF source] unfolding name .
  show "sourceKey_ok ?k"
    using first_config_admissible source by (auto simp: admissible_def admissible_source_def list_all_iff)
qed (simp_all add: first_header_def printable_code)

lemma first_bundle_fits: "bundle_fits first_bundle"
  unfolding first_bundle_def by (rule sample_fits [OF first_sample])

lemma first_bundle_document: "h_DocumentID (document_header first_bundle) = ''DOC-00000001''"
  by (simp add: first_bundle_def first_header_def)

lemma first_bundle_value: "marshal bundle_fields first_bundle = sample_value first_header first_value"
  unfolding first_bundle_def using first_sample by (intro sample_marshal) (simp add: sample_ok_def)

lemma first_value_facts: "width (JArr [sample_value first_header first_value]) \<le> 65536"
  "tokenValue 0 (json_sort (JArr [sample_value first_header first_value]))"
  using first_sample by (simp_all add: sample_ok_def del: json_sort.simps tokenValue.simps width.simps)

definition first_evidence :: bytes where
  "first_evidence = encoded (bundles_value [first_bundle])"

lemma first_evidence_read: "decodeBundles first_evidence = Inr [first_bundle]"
  unfolding first_evidence_def first_bundle_def by (rule sample_read [OF first_sample])

subsection \<open>The creation\<close>

definition first_input :: createInput where
  "first_input = \<lparr> ci_ProductCode = ''TOMATO'', ci_GradeCode = ''STANDARD'', ci_QuantityGrams = 1000,
     ci_OriginRegionCode = ''07'', ci_HarvestDate = ''2026-06-01'', ci_LogisticsMSP = Logistics,
     ci_IntendedRetailerMSP = Retailer \<rparr>"

definition first_command :: Command where
  "first_command = \<lparr> c_SchemaVersion = ''agrochain.command.v1'', c_OperationID = ''OP-00000001'',
     c_BatchID = demo_id, c_ExpectedVersion = 0, c_Command = ''CreateBatch'',
     c_Payload = encoded (marshal createInput_fields first_input) \<rparr>"

definition first_invocation :: invocation where
  "first_invocation = first_context Producer ''producer'' ''CreateBatch''
     (encoded (marshal Command_fields first_command)) [(''evidence'', first_evidence)]"

lemma first_input_facts: "createInput_ok first_input" "fits createInput_fields first_input"
  by code_simp+

lemma no_omission_create: "f \<in> set createInput_fields \<Longrightarrow> \<not> omitempty f"
  by (auto simp: createInput_fields_def)

lemma first_input_read: "exact createInput_fields (c_Payload first_command) createInput_zero = Inr first_input"
  unfolding first_command_def Command.simps
  by (rule create_input.exact_fits) (use first_input_facts no_omission_create in auto)

lemma first_payload: "payload_of createInput_fields createInput_zero first_command = first_input"
  using decode_Unmarshal [OF first_input_read [unfolded exact_def]] by (simp add: payload_of_def)

lemma first_payload_valid: "validatePayload first_command = Inr ()"
proof -
  have "decode createInput_fields (c_Payload first_command) createInput_zero
      [''productCode'', ''gradeCode'', ''quantityGrams'', ''originRegionCode'', ''harvestDate'',
       ''logisticsMsp'', ''intendedRetailerMsp''] = Inr first_input"
    using first_input_read by (simp add: exact_def createInput_fields_def)
  moreover have "validHarvestDate ''2026-06-01''" "Atoi ''07'' = Some 7" by code_simp+
  ultimately show ?thesis by (simp add: validatePayload_def first_command_def first_input_def)
qed

lemma first_command_ok: "Command_ok first_command"
  using raw_encoded(1) [OF create_input.marshal_ok [OF first_input_facts(1)]]
  by (simp add: Command_ok_def int_ok_def first_command_def demo_id_def)

definition first_command_value :: jv where
  "first_command_value = JObj
     [(''schemaVersion'', JStr ''agrochain.command.v1''), (''operationId'', JStr ''OP-00000001''),
      (''batchId'', JStr demo_id), (''expectedVersion'', JNum (FormatInt 0)), (''command'', JStr ''CreateBatch''),
      (''payload'', json_sort (marshal createInput_fields first_input))]"

lemma first_command_raw: "marshal Command_fields first_command = first_command_value"
  using raw_encoded(2) [OF create_input.marshal_ok [OF first_input_facts(1)]]
  unfolding marshal_def [of Command_fields]
  by (simp add: Command_fields_def omitted_def first_command_def raw_codec_def string_codec_def int_codec_def
      first_command_value_def del: json_sort.simps json_print.simps)

lemma first_command_value_facts: "width first_command_value \<le> 65536" "tokenValue 0 (json_sort first_command_value)"
  by code_simp+

lemma first_command_parsed:
  "parseCommand ''CreateBatch'' (encoded (marshal Command_fields first_command)) = Inr first_command"
proof -
  have "validID ''OP-00000001'' ''OP''" by code_simp
  then show ?thesis
    using parse_encoded [of first_command] first_command_ok first_command_value_facts first_payload_valid demo_id_valid
    by (simp add: first_command_raw) (simp add: first_command_def)
qed

definition first_execution_context :: execution where
  "first_execution_context = \<lparr> x_Actor = Producer, x_Role = ''producer'', x_TxID = demo_tx,
     x_Time = \<lparr> tm_Seconds = FormatInt 1750000000, tm_Nanos = 0 \<rparr> \<rparr>"

lemma first_proposed:
  "proposes memory_stub genesis (at memory_stub (memory_view genesis)) first_invocation first_execution_context
     [(''evidence'', first_evidence)] first_command"
proof -
  have "at memory_stub (memory_view genesis) ''operation'' attrs = []" for attrs
    by (rule genesis_committed(4)) (simp add: trust_kinds_def)
  then show ?thesis
    using genesis_config first_command_parsed first_execution [of Producer "''producer''"]
    by (auto simp: proposes_def first_invocation_def first_execution_context_def first_context_def isMutation_def
        expected_caller_def caller_def)
qed

lemma first_ready:
  "ready_document (fabricLedger memory_stub) genesis (at memory_stub (memory_view genesis)) first_command first_bundle"
  using first_bundle_verified genesis_committed(4)
  by (simp add: ready_document_def unused_def use_records_def trust_kinds_def)
    (simp add: first_bundle_def first_header_def first_command_def)

lemma first_certifies: "certifies first_command first_bundle"
  unfolding certifies_def first_body_read first_payload
  by (simp add: first_bundle_def first_header_def first_body_def first_input_def)

lemma first_unknown: "no_batch (at memory_stub (memory_view genesis)) demo_id"
  using genesis_committed(4) by (simp add: no_batch_def trust_kinds_def)

definition first_reply :: bytes where
  "first_reply = (case fst (Invoke memory_stub first_invocation genesis) of Success bs \<Rightarrow> bs | _ \<Rightarrow> [])"

definition first_state :: memory where
  "first_state = snd (Invoke memory_stub first_invocation genesis)"

lemma first_created:
  "Invoke memory_stub first_invocation genesis = (Success first_reply, first_state)"
  "\<exists>b refs. batch_here (at memory_stub (memory_view first_state)) demo_id b refs \<and> b_State b = Created
     \<and> b_OwnerMSP b = Producer \<and> e_CKSDocumentID refs = ''DOC-00000001''"
proof -
  have world: "world_ok (at memory_stub (memory_view genesis))" using genesis_consistent by (simp add: consistent_def)
  have id: "c_BatchID first_command = demo_id" "c_ExpectedVersion first_command = 0"
    "h_DocumentID (document_header first_bundle) = ''DOC-00000001''" "inv_Function first_invocation = ''CreateBatch''"
    by (simp_all add: first_command_def first_bundle_def first_header_def first_invocation_def first_context_def)
  obtain bs s' b refs where run: "Invoke memory_stub first_invocation genesis = (Success bs, s')"
    "batch_here (at memory_stub (memory_view s')) demo_id b refs" "b_State b = Created" "b_OwnerMSP b = Producer"
    "e_CKSDocumentID refs = ''DOC-00000001''"
    by (rule reliable_memory.create_commits [OF genesis_fresh world first_proposed id(4) _ id(2) first_evidence_read
          first_ready first_certifies]) (use first_unknown id in auto)
  show "Invoke memory_stub first_invocation genesis = (Success first_reply, first_state)"
    using run(1) by (simp add: first_reply_def first_state_def)
  show "\<exists>b refs. batch_here (at memory_stub (memory_view first_state)) demo_id b refs \<and> b_State b = Created
     \<and> b_OwnerMSP b = Producer \<and> e_CKSDocumentID refs = ''DOC-00000001''"
    using run by (auto simp: first_state_def)
qed

lemma first_reachable: "reachable memory_stub memory_commit memory_empty (memory_commit first_state)"
  using reachable.transaction [OF genesis_reachable first_created(1)] .

end
