(* ===== verification/Strict.thy ===== *)
theory Strict
  imports Creation
begin

text \<open>
  What strict decoding lets through: every text of an accepted value is printable, apart from an
  explanation, which is valid UTF-8; so the canonical form of an accepted value can be read back,
  and every item of a list of bundles is an object with an envelope and a header.
\<close>

subsection \<open>Accepted values are well formed\<close>

lemma runes_chunk_printable:
  assumes "chunk bs"
  shows "\<exists>r. (\<forall>t. runes (bs @ t) = (r, bs) # runes t)
    \<and> (32 \<le> r \<and> r \<le> 126 \<longrightarrow> (\<exists>a. bs = [a] \<and> printable a))"
  using assms
proof cases
  case (one a)
  then show ?thesis by (intro exI [of _ "int (byte a)"]) (simp add: printable_def)
next
  case (two a b)
  then show ?thesis
    by (intro exI [of _ "(int (byte a) - 192) * 64 + (int (byte b) - 128)"])
      (auto simp: rune2_def cont_def)
next
  case (three a b c)
  have "\<not> (int (byte a) - 224) * 4096 + (int (byte b) - 128) * 64 + (int (byte c) - 128) \<le> 126"
    using three(4) by (cases "byte a = 224") (auto simp: rune3_def cont_def)
  then show ?thesis using three
    by (intro exI [of _ "(int (byte a) - 224) * 4096 + (int (byte b) - 128) * 64 + (int (byte c) - 128)"]) simp
next
  case (four a b c d)
  have "\<not> (int (byte a) - 240) * 262144 + (int (byte b) - 128) * 4096 + (int (byte c) - 128) * 64
      + (int (byte d) - 128) \<le> 126"
    using four(5) by (cases "byte a = 240") (auto simp: rune4_def cont_def)
  then show ?thesis using four
    by (intro exI [of _ "(int (byte a) - 240) * 262144 + (int (byte b) - 128) * 4096
      + (int (byte c) - 128) * 64 + (int (byte d) - 128)"]) simp
qed

lemma printable_runes: "list_all (\<lambda>(r, bs). \<not> (r < 32 \<or> r > 126)) (runes s) \<Longrightarrow> list_all printable s"
proof (induction "length s" arbitrary: s rule: less_induct)
  case less
  show ?case
  proof (cases s rule: runes_split)
    case empty
    then show ?thesis by simp
  next
    case (chunk bs t)
    obtain r where r: "runes s = (r, bs) # runes t" "32 \<le> r \<and> r \<le> 126 \<longrightarrow> (\<exists>a. bs = [a] \<and> printable a)"
      using runes_chunk_printable [OF chunk(2)] chunk(1) by blast
    then obtain a where "bs = [a]" "printable a" using less.prems by auto
    moreover have "list_all printable t" using less.hyps [of t] less.prems r(1) chunk \<open>bs = [a]\<close> by simp
    ultimately show ?thesis using chunk(1) by simp
  next
    case (invalid a t)
    then show ?thesis using less.prems by (simp add: rune_error_def)
  qed
qed

lemma safeString_printable: "safeString s \<Longrightarrow> list_all printable s"
  by (simp add: safeString_def printable_runes)

lemma safeString_text: "safeString s \<Longrightarrow> text_ok s"
  by (simp add: safeString_printable printable_text_ok)

lemma validExplanation_text: "validExplanation s \<Longrightarrow> text_ok s"
  by (auto simp: validExplanation_def text_ok_def utf8_valid_def list_all_iff)

lemma tokenValue_json_ok: "tokenValue d v \<Longrightarrow> json_ok v"
proof (induction d v rule: tokenValue.induct)
  case (2 depth ms)
  have "text_ok k \<and> json_ok v" if "(k, v) \<in> set ms" for k v
  proof -
    have m: "if k = ''explanation'' then (case v of JStr s \<Rightarrow> validExplanation s | _ \<Rightarrow> False)
        else tokenValue (Suc depth) v" and k: "safeString k"
      using 2(2) that by (simp_all only: tokenValue.simps list_all_iff) fast+
    have "json_ok v"
    proof (cases "k = ''explanation''")
      case True
      then show ?thesis using m by (cases v) (simp_all add: validExplanation_text)
    next
      case False
      then show ?thesis using 2(1) [OF that refl False] m by simp
    qed
    then show ?thesis using k by (simp add: safeString_text)
  qed
  then show ?case by (auto simp: list_all_iff)
qed (auto simp: list_all_iff safeString_text)

lemma strictJSON_facts:
  assumes "strictJSON raw = Inr v"
  shows "json_parse raw = Some v" "tokenValue 0 v" "json_ok v"
  using assms tokenValue_json_ok [of 0 v]
  by (auto simp: strictJSON_def split: if_splits option.splits)

text \<open>The canonical form of an accepted value reads back as that value, its members in order.\<close>

lemma strictJSON_reread: "strictJSON raw = Inr v \<Longrightarrow> json_parse (encoded v) = Some (json_sort v)"
  using strictJSON_facts(3) by (simp add: json_parse_print json_ok_sort)

subsection \<open>Accepted objects have exactly the members asked for\<close>

lemma decode_members:
  assumes "decode fs raw dst names = Inr r"
  obtains ms where "strictJSON raw = Inr (JObj ms)" "set names \<subseteq> fst ` set ms"
    "unmarshal_members fs ms dst = Some r"
proof -
  obtain ms where ms: "strictJSON raw = Inr (JObj ms)" "list_all (\<lambda>k. k \<in> set (map fst ms)) names"
    "Unmarshal fs raw dst = Some r"
    using assms by (auto simp: decode_eq_Inr)
  have "json_parse raw = Some (JObj ms)" using strictJSON_facts(1) [OF ms(1)] .
  then show ?thesis using ms that by (auto simp: Unmarshal_def unmarshal_def list_all_iff)
qed

lemma encodedExact_object:
  assumes "json_ok v" "encodedExact fs (Some v) dst = Inr r" "f \<in> set fs"
  obtains ms w where "v = JObj ms" "map_of ms (tag f) = Some w" "json_ok w"
proof -
  have e: "decode fs (encoded v) dst (map tag fs) = Inr r"
    using assms(2) by (simp add: encodedExact_def canonical_def exact_def)
  obtain ms where ms: "strictJSON (encoded v) = Inr (JObj ms)" "set (map tag fs) \<subseteq> fst ` set ms"
    by (rule decode_members [OF e])
  have "json_parse (encoded v) = Some (json_sort v)" using assms(1) by (simp add: json_parse_print json_ok_sort)
  then have "json_sort v = JObj ms" using strictJSON_facts(1) [OF ms(1)] by simp
  then obtain ns where v: "v = JObj ns" "ms = sort_key fst (map (map_prod id json_sort) ns)"
    by (cases v) auto
  have "tag f \<in> fst ` set ns" using ms(2) assms(3) by (force simp: v(2))
  then obtain w where w: "map_of ns (tag f) = Some w" by (meson not_None_eq map_of_eq_None_iff)
  then have "json_ok w" using map_of_SomeD [OF w] assms(1) by (auto simp: v(1) list_all_iff)
  then show ?thesis using that v(1) w by blast
qed

subsection \<open>What decoding an accepted value yields\<close>

lemma lookup_field_member: "lookup_field fs k = Some f \<Longrightarrow> f \<in> set fs"
  by (auto simp: lookup_field_def find_Some_iff split: option.splits)

lemma token_member:
  "tokenValue d (JObj ms) \<Longrightarrow> (k, w) \<in> set ms \<Longrightarrow> k \<noteq> ''explanation'' \<Longrightarrow> tokenValue (Suc d) w"
  by (auto simp: list_all_iff)

text \<open>A property that storing an accepted member keeps holds of what is decoded.\<close>

lemma unmarshal_keeps:
  assumes "unmarshal fs v r0 = Some r" "tokenValue d v" "lookup_field fs ''explanation'' = None" "P r0"
    and store: "\<And>f d w r r1. f \<in> set fs \<Longrightarrow> tokenValue d w \<Longrightarrow> P r \<Longrightarrow> store_field f w r = Some r1 \<Longrightarrow> P r1"
  shows "P r"
proof -
  have members: "P r1" if "unmarshal_members fs ms r2 = Some r1" "P r2"
    "\<forall>(k, w) \<in> set ms. k = ''explanation'' \<or> tokenValue (Suc d) w" for ms r1 r2
    using that
  proof (induction ms arbitrary: r2)
    case (Cons m ms)
    obtain k w where m: "m = (k, w)" by force
    show ?case
    proof (cases "lookup_field fs k")
      case None
      then show ?thesis using Cons m by auto
    next
      case (Some f)
      then have w: "tokenValue (Suc d) w" using Cons.prems(3) assms(3) m by auto
      obtain r3 where r3: "store_field f w r2 = Some r3" "unmarshal_members fs ms r3 = Some r1"
        using Cons.prems(1) Some m by (auto simp: bind_eq_Some_conv)
      have "P r3" by (rule store [OF lookup_field_member [OF Some] w Cons.prems(2) r3(1)])
      then show ?thesis using Cons.IH [OF r3(2)] Cons.prems(3) by simp
    qed
  qed simp
  show ?thesis
  proof (cases v)
    case (JObj ms)
    have "\<forall>(k, w) \<in> set ms. k = ''explanation'' \<or> tokenValue (Suc d) w"
      using token_member [OF assms(2) [unfolded JObj]] by blast
    then show ?thesis using members assms(1,4) JObj by (simp add: unmarshal_def)
  qed (use assms(1,4) in \<open>simp_all add: unmarshal_def\<close>)
qed

lemma unmarshal_stores:
  "unmarshal_members fs ms r0 = Some r \<Longrightarrow> (k, v) \<in> set ms \<Longrightarrow> lookup_field fs k = Some f \<Longrightarrow>
     \<exists>r1 r2. store_field f v r1 = Some r2"
proof (induction ms arbitrary: r0)
  case (Cons m ms)
  obtain j w where m: "m = (j, w)" by force
  show ?case
  proof (cases "lookup_field fs j")
    case None
    then show ?thesis using Cons m by auto
  next
    case (Some g)
    then obtain r1 where r1: "store_field g w r0 = Some r1" "unmarshal_members fs ms r1 = Some r"
      using Cons.prems(1) m by (auto simp: bind_eq_Some_conv)
    show ?thesis
    proof (cases "(k, v) \<in> set ms")
      case True
      then show ?thesis by (rule Cons.IH [OF r1(2) _ Cons.prems(3)])
    next
      case False
      then have "f = g" "v = w" using Cons.prems(2,3) Some m by auto
      then show ?thesis using r1(1) by blast
    qed
  qed
qed simp

lemma those_members: "those (map f xs) = Some ys \<Longrightarrow> y \<in> set ys \<Longrightarrow> \<exists>x \<in> set xs. f x = Some y"
  by (induction xs arbitrary: ys) (auto split: option.splits)

subsection \<open>Accepted configurations\<close>

definition named_source :: "sourceKey \<Rightarrow> bool" where
  "named_source k \<longleftrightarrow> list_all printable (sk_IssuerID k) \<and> list_all printable (sk_KeyID k)"

lemma source_named:
  assumes "unmarshal sourceKey_fields v k0 = Some k" "tokenValue d v" "named_source k0"
  shows "named_source k"
proof (rule unmarshal_keeps [where P = named_source, OF assms(1,2) _ assms(3)])
  show "lookup_field sourceKey_fields ''explanation'' = None"
    by (simp add: sourceKey_fields_def lookup_field_def fold_char_def is_upper_code)
qed (auto simp: sourceKey_fields_def named_source_def field_def string_codec_def
    safeString_printable split: jv.splits)

lemma sources_named:
  assumes "unmarshal configuration_fields v c0 = Some c" "tokenValue d v" "list_all named_source (cf_Sources c0)"
  shows "list_all named_source (cf_Sources c)"
proof (rule unmarshal_keeps [where P = "\<lambda>c. list_all named_source (cf_Sources c)", OF assms(1,2) _ assms(3)])
  show "lookup_field configuration_fields ''explanation'' = None"
    by (simp add: configuration_fields_def lookup_field_def fold_char_def is_upper_code)
next
  fix f d w and r r1 :: configuration
  assume f: "f \<in> set configuration_fields" and w: "tokenValue d w" and r: "list_all named_source (cf_Sources r)"
    and st: "store_field f w r = Some r1"
  have "list_all named_source ks"
    if ks: "dec (list_codec (struct_codec sourceKey_fields) sourceKey_zero) w old = Some ks" for ks old
  proof (cases w)
    case (JArr vs)
    have "named_source k" if k: "k \<in> set ks" for k
    proof -
      obtain u where u: "u \<in> set vs" "unmarshal sourceKey_fields u sourceKey_zero = Some k"
        using those_members [OF _ k] ks JArr by (auto simp: list_codec_def struct_codec_def)
      have "tokenValue (Suc d) u" using w u(1) JArr by (simp add: list_all_iff)
      then show ?thesis
        using source_named [OF u(2)] by (simp add: named_source_def sourceKey_zero_def)
    qed
    then show ?thesis by (simp add: list_all_iff)
  qed (use ks w in \<open>auto simp: list_codec_def\<close>)
  then show "list_all named_source (cf_Sources r1)"
    using f st r by (auto simp: configuration_fields_def field_def)
qed

lemma configuration_accepted:
  assumes "exact configuration_fields raw configuration_zero = Inr c"
  obtains ms items where "strictJSON raw = Inr (JObj ms)" "map_of ms ''sources'' = Some (JArr items)"
    "list_all named_source (cf_Sources c)"
proof -
  obtain ms where ms: "strictJSON raw = Inr (JObj ms)" "set (map tag configuration_fields) \<subseteq> fst ` set ms"
    "unmarshal_members configuration_fields ms configuration_zero = Some c"
    using decode_members [OF assms [unfolded exact_def]] .
  note ok = strictJSON_facts(2) [OF ms(1)]
  have "''sources'' \<in> fst ` set ms" using ms(2) by (auto simp: configuration_fields_def)
  then obtain w where w: "map_of ms ''sources'' = Some w" by (meson not_None_eq map_of_eq_None_iff)
  have f: "lookup_field configuration_fields ''sources'' = Some (field ''sources'' False
      (list_codec (struct_codec sourceKey_fields) sourceKey_zero) cf_Sources cf_Sources_update)"
    by (simp add: configuration_fields_def lookup_field_def)
  have "\<exists>items. w = JArr items"
    using unmarshal_stores [OF ms(3) map_of_SomeD [OF w] f] token_member [OF ok map_of_SomeD [OF w]]
    by (cases w) (auto simp: field_def list_codec_def)
  moreover have "list_all named_source (cf_Sources configuration_zero)" by (simp add: configuration_zero_def)
  then have "list_all named_source (cf_Sources c)"
    by (rule sources_named [rotated 2]) (use ms(3) ok in \<open>simp_all add: unmarshal_def del: tokenValue.simps\<close>)
  ultimately show ?thesis using that ms(1) w by blast
qed

end
