(* ===== verification/Vault.thy ===== *)
theory Vault
  imports Consumption Strict
begin

text \<open>
  The private side of the evidence: whatever opening a collection keeps is that of a document that
  was verified when it was taken, it opens the commitment of the public record of the document, and
  a reader of the purchase is answered with that very document.
\<close>

subsection \<open>What is decoded from a canonical value\<close>

definition tidy_value :: "jv \<Rightarrow> bool" where
  "tidy_value v \<longleftrightarrow> json_ok v \<and> json_sort v = v"

lemma tidy_member:
  assumes "tidy_value (JObj ms)" "(k, w) \<in> set ms"
  shows "tidy_value w"
proof -
  have "set (sort_key fst (map (map_prod id json_sort) ms)) = set ms" using assms(1) by (simp add: tidy_value_def)
  then have "(k, w) \<in> map_prod id json_sort ` set ms" using assms(2) by simp
  then obtain u where "(k, u) \<in> set ms" "w = json_sort u" by auto
  then show ?thesis using assms by (auto simp: tidy_value_def json_sort_idem list_all_iff)
qed

text \<open>What storing a canonical member keeps, decoding a canonical object keeps.\<close>

lemma tidy_keeps:
  assumes "unmarshal fs v r0 = Some r" "tidy_value v" "P r0"
    and store: "\<And>f w r r1. f \<in> set fs \<Longrightarrow> tidy_value w \<Longrightarrow> P r \<Longrightarrow> store_field f w r = Some r1 \<Longrightarrow> P r1"
  shows "P r"
proof -
  have members: "unmarshal_members fs ms r2 = Some r1 \<Longrightarrow> P r2 \<Longrightarrow> \<forall>(k, w) \<in> set ms. tidy_value w \<Longrightarrow> P r1"
    for ms r1 r2
  proof (induction ms arbitrary: r2)
    case (Cons m ms)
    obtain k w where m: "m = (k, w)" by force
    show ?case
    proof (cases "lookup_field fs k")
      case None
      then show ?thesis using Cons m by auto
    next
      case (Some f)
      then obtain r3 where r3: "store_field f w r2 = Some r3" "unmarshal_members fs ms r3 = Some r1"
        using Cons.prems(1) m by (auto simp: bind_eq_Some_conv)
      have w: "tidy_value w" using Cons.prems(3) m by simp
      have "P r3" by (rule store [OF lookup_field_member [OF Some] w Cons.prems(2) r3(1)])
      then show ?thesis using Cons.IH [OF r3(2)] Cons.prems(3) by simp
    qed
  qed simp
  show ?thesis
  proof (cases v)
    case (JObj ms)
    then have "\<forall>(k, w) \<in> set ms. tidy_value w" using tidy_member assms(2) by blast
    then show ?thesis using members assms(1,3) JObj by (simp add: unmarshal_def)
  qed (use assms(1,3) in \<open>simp_all add: unmarshal_def\<close>)
qed

lemma tidy_string: "dec string_codec w x = Some y \<Longrightarrow> tidy_value w \<Longrightarrow> text_ok x \<Longrightarrow> text_ok y"
  by (cases w) (auto simp: string_codec_def tidy_value_def)

lemma tidy_field:
  assumes "store_field (str t get upd) w r = Some r1" "tidy_value w" "text_ok (get r)"
  shows "\<exists>y. text_ok y \<and> r1 = upd (\<lambda>_. y) r"
  using assms tidy_string [of w "get r"] by (auto simp: field_def)

lemma tidy_raw: "dec raw_codec w x = Some y \<Longrightarrow> tidy_value w \<Longrightarrow> raw_ok y"
  by (auto simp: raw_codec_def tidy_value_def raw_ok_def)

lemma header_decoded: "unmarshal header_fields v h0 = Some h \<Longrightarrow> tidy_value v \<Longrightarrow> header_ok h0 \<Longrightarrow> header_ok h"
proof (erule tidy_keeps [where P = header_ok])
  fix f w and r r1 :: header
  assume "f \<in> set header_fields" and w: "tidy_value w" and "header_ok r" "store_field f w r = Some r1"
  then show "header_ok r1"
    unfolding header_fields_def by (auto simp: header_ok_def dest!: tidy_field [OF _ w])
qed

lemma envelope_decoded:
  "unmarshal envelope_fields v e0 = Some e \<Longrightarrow> tidy_value v \<Longrightarrow> envelope_ok e0 \<Longrightarrow> envelope_ok e"
proof (erule tidy_keeps [where P = envelope_ok])
  fix f w and r r1 :: envelope
  assume "f \<in> set envelope_fields" and w: "tidy_value w" and "envelope_ok r" "store_field f w r = Some r1"
  then show "envelope_ok r1"
    using tidy_string [OF _ w] header_decoded [OF _ w]
    by (auto simp: envelope_fields_def envelope_ok_def field_def struct_codec_def)
qed

definition tidy_bundle :: "bundle_t \<Rightarrow> bool" where
  "tidy_bundle d \<longleftrightarrow> text_ok (bu_Salt d) \<and> envelope_ok (bu_Envelope d) \<and> (bu_Body d = [] \<or> raw_ok (bu_Body d))"

lemma bundle_decoded:
  "unmarshal bundle_fields v d0 = Some d \<Longrightarrow> tidy_value v \<Longrightarrow> tidy_bundle d0 \<Longrightarrow> tidy_bundle d"
proof (erule tidy_keeps [where P = tidy_bundle])
  fix f w and r r1 :: bundle_t
  assume "f \<in> set bundle_fields" and w: "tidy_value w" and "tidy_bundle r" "store_field f w r = Some r1"
  then show "tidy_bundle r1"
    using tidy_string [OF _ w] envelope_decoded [OF _ w] tidy_raw [OF _ w]
    by (auto simp: bundle_fields_def tidy_bundle_def field_def struct_codec_def)
qed

lemma tidy_bundle_zero: "tidy_bundle bundle_zero"
  by (simp add: tidy_bundle_def bundle_zero_def envelope_zero_def header_zero_def envelope_ok_def header_ok_def)

lemma item_decoded:
  assumes "decode_item item acc = Inr (ds, i)" "json_ok item"
  shows "\<exists>d. ds = fst acc @ [d] \<and> tidy_bundle d"
proof -
  obtain obj where o: "item = JObj obj" using assms(1) by (cases item) (auto simp: decode_item_def rbind_eq_Inr)
  obtain env where e: "map_of obj ''envelope'' = Some (JObj env)"
    using assms(1) unfolding o
    by (cases "map_of obj ''envelope''"; cases "the (map_of obj ''envelope'')") (auto simp: decode_item_def rbind_eq_Inr)
  obtain d where d: "encodedExact bundle_fields (Some item) bundle_zero = Inr d" "ds = fst acc @ [d]"
    using assms(1) unfolding o by (auto simp: decode_item_def e rbind_eq_Inr Let_def split: if_splits)
  have "Unmarshal bundle_fields (encoded item) bundle_zero = Some d"
    using d(1) decode_Unmarshal by (fastforce simp: encodedExact_def canonical_def exact_def)
  then have "unmarshal bundle_fields (json_sort item) bundle_zero = Some d"
    using assms(2) by (simp add: Unmarshal_def json_parse_print json_ok_sort)
  moreover have "tidy_value (json_sort item)" using assms(2) by (simp add: tidy_value_def json_ok_sort json_sort_idem)
  ultimately show ?thesis using bundle_decoded tidy_bundle_zero d(2) by blast
qed

lemma bundles_decoded:
  assumes "decodeBundles raw = Inr ds" "d \<in> set ds"
  shows "tidy_bundle d"
proof -
  obtain arr acc where arr: "strictJSON raw = Inr (JArr arr)" "fold_result decode_item arr ([], []) = Inr acc" "fst acc = ds"
  proof -
    obtain v where v: "strictJSON raw = Inr v"
      "(case v of JArr arr \<Rightarrow> rbind (fold_result decode_item arr ([], [])) (\<lambda>acc. Inr (fst acc))
        | _ \<Rightarrow> Inl (fail ''INVALID_SCHEMA'')) = Inr ds"
      using assms(1) by (auto simp: decodeBundles_def rbind_eq_Inr)
    then show thesis using that by (cases v) (auto simp: rbind_eq_Inr)
  qed
  have ok: "\<forall>item \<in> set arr. json_ok item" using strictJSON_facts(3) [OF arr(1)] by (simp add: list_all_iff)
  have "\<forall>d \<in> set (fst acc). tidy_bundle d"
  proof (rule fold_result_invariant [OF arr(2), where P = "\<lambda>a. \<forall>d \<in> set (fst a). tidy_bundle d"])
    fix item a a'
    assume item: "item \<in> set arr" and a: "\<forall>d \<in> set (fst a). tidy_bundle d" and run: "decode_item item a = Inr a'"
    obtain es i where a': "a' = (es, i)" by force
    from item_decoded [OF run [unfolded a']] ok item obtain d where "es = fst a @ [d]" "tidy_bundle d" by blast
    then show "\<forall>d \<in> set (fst a'). tidy_bundle d" using a a' by auto
  qed simp
  then show ?thesis using assms(2) arr(3) by blast
qed

lemma verified_opens:
  assumes "verifyBundle L s d = Inr ()"
  shows "commitment L (bu_Body d) (bu_Salt d) = Inr (h_Commitment (document_header d))"
  using assms
  by (auto simp: verifyBundle_def Let_def rbind_eq_Inr split: if_splits sum.splits)

lemma verified_bundle:
  assumes "verifyBundle L s d = Inr ()" "tidy_bundle d"
  shows "bundle_ok d"
proof -
  have "bu_Body d \<noteq> []"
  proof
    assume "bu_Body d = []"
    moreover have "strictJSON [] = Inl (fail ''INVALID_SCHEMA'')" by code_simp
    ultimately show False using verified_opens [OF assms(1)] by (auto simp: commitment_def split: if_splits)
  qed
  then show ?thesis using assms(2) by (simp add: bundle_ok_def tidy_bundle_def)
qed

subsection \<open>The private writes of a command\<close>

text \<open>The collection for the openings of a type of document, and the write of one.\<close>

definition kept_in :: "bundle_t \<Rightarrow> bytes \<Rightarrow> bool" where
  "kept_in d col \<longleftrightarrow> h_DocumentType (document_header d) = ''PURCHASE_INVOICE'' \<and> col = trade
     \<or> h_DocumentType (document_header d) = ''FREIGHT_INVOICE'' \<and> col = freight"

definition opening_of :: "bundle_t \<Rightarrow> bytes" where
  "opening_of d = encoded (marshal opening_fields \<lparr> op_Body = bu_Body d, op_Salt = bu_Salt d \<rparr>)"

definition opening_write :: "('e) externals_scheme \<Rightarrow> bundle_t \<Rightarrow> privateWrite \<Rightarrow> bool" where
  "opening_write L d w \<longleftrightarrow> CreateCompositeKey L ''documentOpening'' [h_DocumentID (document_header d)] = Some (pw_Key w)
     \<and> kept_in d (pw_Collection w) \<and> pw_Value w = opening_of d"

definition other_write :: "('e) externals_scheme \<Rightarrow> privateWrite \<Rightarrow> bool" where
  "other_write L w \<longleftrightarrow> (\<exists>kind attrs. CreateCompositeKey L kind attrs = Some (pw_Key w) \<and> kind \<noteq> ''documentOpening'')"

definition recorded :: "('e) externals_scheme \<Rightarrow> writePlan \<Rightarrow> bundle_t \<Rightarrow> bool" where
  "recorded L p d \<longleftrightarrow> (\<exists>k. CreateCompositeKey L ''document'' [h_DocumentID (document_header d)] = Some k
     \<and> map_of p k = Some (Some (encoded (marshal envelope_fields (bu_Envelope d)))))"

lemma mark_document_record:
  assumes "mark_document L s c x d p = Inr q"
  shows "recorded L q d" and "recorded L p d' \<Longrightarrow> recorded L q d'"
proof -
  let ?h = "document_header d" and ?mark = "Some (encoded (use_mark c x))"
  obtain k1 k2 k3 p1 p2 p3 where k: "CreateCompositeKey L ''document'' [h_DocumentID ?h] = Some k1"
    and m: "mark_used L s c x (k1, ''DOCUMENT_ALREADY_USED'') p = Inr p1"
      "mark_used L s c x (k2, ''DOCUMENT_ALREADY_USED'') p1 = Inr p2"
      "mark_used L s c x (k3, ''SOURCE_NONCE_ALREADY_USED'') p2 = Inr p3"
    and q: "q = put_entry k1 (Some (encoded (marshal envelope_fields (bu_Envelope d)))) p3"
    using assms by (auto simp: mark_document_def Let_def rbind_eq_Inr key_eq_Inr)
  have new: "map_of p k1 = None" "map_of p1 k2 = None" "map_of p2 k3 = None"
    using m by (auto simp: mark_used_def split: if_splits)
  have map: "map_of q = (map_of p)(k1 \<mapsto> ?mark, k2 \<mapsto> ?mark, k3 \<mapsto> ?mark,
      k1 \<mapsto> Some (encoded (marshal envelope_fields (bu_Envelope d))))"
    unfolding q mark_used_facts(2) [OF m(3)] mark_used_facts(2) [OF m(2)] mark_used_facts(2) [OF m(1)] by simp
  show "recorded L q d" using k by (simp add: recorded_def map)
  have "map_of p k2 = None" "map_of p k3 = None"
    using new unfolding mark_used_facts(2) [OF m(2)] mark_used_facts(2) [OF m(1)] by (auto split: if_splits)
  then show "recorded L p d' \<Longrightarrow> recorded L q d'"
    using new(1) unfolding recorded_def map by (metis fun_upd_other option.distinct(1))
qed

lemma add_private_private:
  "add_private v col k w = Inr v' \<Longrightarrow> \<exists>u. w = Some u
     \<and> v_Private v' = v_Private v @ [\<lparr> pw_Collection = col, pw_Key = k, pw_Value = encoded u \<rparr>]"
  by (cases w) (auto simp: add_private_def rbind_eq_Inr canonical_def)

lemma claim_private:
  assumes "document_claim L t x c b d v = Inr (v', col)"
  shows "col \<noteq> [] \<Longrightarrow> kept_in d col"
    and "w \<in> set (v_Private v') \<Longrightarrow> w \<in> set (v_Private v) \<or> other_write L w"
proof -
  have "(col = [] \<or> kept_in d col) \<and> (w \<in> set (v_Private v') \<longrightarrow> w \<in> set (v_Private v) \<or> other_write L w)"
  proof (cases "h_DocumentType (document_header d) = ''FREIGHT_INVOICE''")
    case True
    then have "claim_freight L t x c b d v = Inr (v', col)" using assms by (simp add: document_claim_def Let_def)
    then obtain i k u where k: "CreateCompositeKey L ''cost'' [i] = Some k"
      "v_Private v' = v_Private v @ [\<lparr> pw_Collection = freight, pw_Key = k, pw_Value = u \<rparr>]" "col = freight"
      by (auto simp: claim_freight_def Let_def rbind_eq_Inr key_eq_Inr split: if_splits dest!: add_private_private)
    have "other_write L \<lparr> pw_Collection = freight, pw_Key = k, pw_Value = u \<rparr>"
      unfolding other_write_def using k(1) by (intro exI [of _ "''cost''"] exI [of _ "[i]"]) simp
    then show ?thesis using True k by (auto simp: kept_in_def)
  next
    case False
    then show ?thesis
      using assms
      by (auto simp: document_claim_def Let_def claim_eligibility_def claim_purchase_def claim_notification_def
          claim_manifest_def rbind_eq_Inr kept_in_def split: if_splits)
  qed
  then show "col \<noteq> [] \<Longrightarrow> kept_in d col"
    "w \<in> set (v_Private v') \<Longrightarrow> w \<in> set (v_Private v) \<or> other_write L w" by blast+
qed

lemma prepare_document_private:
  assumes run: "prepare_document L s t x c b d (required, v) = Inr (required', v')" and w: "w \<in> set (v_Private v')"
  shows "w \<in> set (v_Private v) \<or> other_write L w \<or> opening_write L d w"
proof -
  obtain public v1 col where claim: "document_claim L t x c b d (v \<lparr> v_Public := public \<rparr>) = Inr (v1, col)"
    and rest: "if col \<noteq> []
      then \<exists>k. CreateCompositeKey L ''documentOpening'' [h_DocumentID (document_header d)] = Some k
        \<and> add_private v1 col k (marshal_opening \<lparr> op_Body = bu_Body d, op_Salt = bu_Salt d \<rparr>) = Inr v'
      else v' = v1"
    using run by (auto simp: prepare_document_def Let_def rbind_eq_Inr key_eq_Inr split: if_splits)
  show ?thesis
  proof (cases "col = []")
    case True
    then show ?thesis using rest claim_private(2) [OF claim, of w] w by auto
  next
    case False
    then obtain k where k: "CreateCompositeKey L ''documentOpening'' [h_DocumentID (document_header d)] = Some k"
      "add_private v1 col k (marshal_opening \<lparr> op_Body = bu_Body d, op_Salt = bu_Salt d \<rparr>) = Inr v'"
      using rest by auto
    from add_private_private [OF k(2)] obtain u where u: "marshal_opening \<lparr> op_Body = bu_Body d, op_Salt = bu_Salt d \<rparr> = Some u"
      "v_Private v' = v_Private v1 @ [\<lparr> pw_Collection = col, pw_Key = k, pw_Value = encoded u \<rparr>]" by blast
    have "u = marshal opening_fields \<lparr> op_Body = bu_Body d, op_Salt = bu_Salt d \<rparr>"
      using u(1) by (simp add: marshal_opening_def split: option.splits)
    then show ?thesis
      using w k(1) u(2) claim_private(1) [OF claim False] claim_private(2) [OF claim]
      by (auto simp: opening_write_def opening_of_def)
  qed
qed

lemma prepare_documents_private:
  assumes "fold_result (prepare_document L s t x c b) ds (required, v) = Inr (required', v')"
  shows "(\<forall>w \<in> set (v_Private v'). w \<in> set (v_Private v) \<or> other_write L w \<or> (\<exists>d \<in> set ds. opening_write L d w))
    \<and> (\<forall>d \<in> set ds. recorded L (v_Public v') d) \<and> (\<forall>d. recorded L (v_Public v) d \<longrightarrow> recorded L (v_Public v') d)"
  using assms
proof (induction ds arbitrary: required v)
  case (Cons d ds)
  obtain r1 v1 where one: "prepare_document L s t x c b d (required, v) = Inr (r1, v1)"
    and rest: "fold_result (prepare_document L s t x c b) ds (r1, v1) = Inr (required', v')"
    using Cons.prems by (auto simp: rbind_eq_Inr)
  obtain public where m: "mark_document L s c x d (v_Public v) = Inr public" "v_Public v1 = public"
    using prepare_document_facts(7) [OF one] by blast
  show ?case
    using Cons.IH [OF rest] prepare_document_private [OF one] mark_document_record [OF m(1)] m(2) by auto
qed simp

lemma other_writeI: "CreateCompositeKey L kind attrs = Some k \<Longrightarrow> kind \<noteq> ''documentOpening'' \<Longrightarrow>
    other_write L \<lparr> pw_Collection = col, pw_Key = k, pw_Value = u \<rparr>"
  by (auto simp: other_write_def)

lemma analysis_private:
  assumes "analysis L P s t x c b refs = Inr v" "w \<in> set (v_Private v)"
  shows "other_write L w"
proof -
  let ?p = "payload_of analysisInput_fields analysisInput_zero c"
  obtain a v0 k u where v0: "(if c_Command c = ''EvaluatePrice'' then analysis_evaluate L P s t x c b refs ?p
       else analysis_review L P s t x c b ?p) = Inr (a, v0)"
    and k: "CreateCompositeKey L ''anomaly'' [ai_AnomalyID ?p] = Some k"
    and v: "v_Private v = v_Private v0 @ [\<lparr> pw_Collection = audit, pw_Key = k, pw_Value = u \<rparr>]"
    using assms(1)
    by (auto simp: analysis_def Let_def rbind_eq_Inr key_eq_Inr split: if_splits dest!: add_private_private)
  have "other_write L w" if "w \<in> set (v_Private v0)"
  proof (cases "c_Command c = ''EvaluatePrice''")
    case True
    then have "v_Private v0 = []"
      using v0 by (auto simp: analysis_evaluate_def Let_def rbind_eq_Inr verified_zero_def split: if_splits)
    then show ?thesis using that by simp
  next
    case False
    then obtain k1 u1 where "CreateCompositeKey L ''reviewAction'' [ai_AnomalyID ?p, c_OperationID c] = Some k1"
      "v_Private v0 = [\<lparr> pw_Collection = audit, pw_Key = k1, pw_Value = u1 \<rparr>]"
      using v0
      by (auto simp: analysis_review_def Let_def rbind_eq_Inr key_eq_Inr verified_zero_def
          split: if_splits dest!: add_private_private)
    then show ?thesis using that other_writeI by fastforce
  qed
  then show ?thesis using assms(2) v other_writeI [OF k] by auto
qed

lemma report_private:
  assumes "prepare_report L P s t x config c b refs v = Inr v'" "w \<in> set (v_Private v')"
  shows "w \<in> set (v_Private v) \<or> other_write L w"
proof -
  obtain i k u where k: "CreateCompositeKey L ''report'' [i] = Some k"
    "v_Private v' = v_Private v @ [\<lparr> pw_Collection = audit, pw_Key = k, pw_Value = u \<rparr>]"
    using assms(1)
    by (auto simp: prepare_report_def Let_def rbind_eq_Inr key_eq_Inr split: if_splits dest!: add_private_private)
  then show ?thesis using assms(2) other_writeI [OF k(1)] by auto
qed

text \<open>Every private write of an opening is that of a document the command took.\<close>

lemma prepare_private:
  assumes run: "prepare L P s t x c b refs = Inr v" and w: "w \<in> set (v_Private v)"
  shows "other_write L w \<or> (\<exists>d. opening_write L d w \<and> verifyBundle L s d = Inr () \<and> bundle_ok d \<and> recorded L (v_Public v) d)"
proof (cases "c_Command c \<in> {''EvaluatePrice'', ''OpenReview'', ''ResolveReview''}")
  case True
  have "analysis L P s t x c b refs = Inr v" using run unfolding prepare_analysis [OF True] .
  from analysis_private [OF this w] show ?thesis by blast
next
  case False
  show ?thesis
  proof (rule prepare_stages [OF run False])
    fix config required extra ds required' v1
    assume docs: "if len required > 0
       then decodeBundles (entry_of t ''evidence'') = Inr ds \<and> len ds = len required else ds = []"
      and fold: "fold_result (prepare_document L s t x c b) ds (required, verified_zero) = Inr (required', v1)"
      and v: "if c_Command c = ''ReportRetailPrice'' then prepare_report L P s t x config c b refs v1 = Inr v
        else v = v1"
    have public: "v_Public v = v_Public v1" using v by (auto split: if_splits dest: prepare_report_public)
    have "w \<in> set (v_Private v1) \<or> other_write L w"
    proof (cases "c_Command c = ''ReportRetailPrice''")
      case True
      then have "prepare_report L P s t x config c b refs v1 = Inr v" using v by simp
      from report_private [OF this w] show ?thesis .
    qed (use v w in simp)
    moreover have "\<exists>d. opening_write L d w \<and> verifyBundle L s d = Inr () \<and> bundle_ok d \<and> recorded L (v_Public v) d"
      if d: "d \<in> set ds" "opening_write L d w" for d
    proof -
      have "decodeBundles (entry_of t ''evidence'') = Inr ds" using docs d(1) by (auto split: if_splits)
      then have "tidy_bundle d" using bundles_decoded d(1) by blast
      moreover have "verifyBundle L s d = Inr ()"
        using prepare_documents [OF fold] d(1) by (simp add: accepted_document_def)
      ultimately show ?thesis
        using verified_bundle prepare_documents_private [OF fold] d public by metis
    qed
    moreover have "other_write L w \<or> (\<exists>d \<in> set ds. opening_write L d w)" if "w \<in> set (v_Private v1)"
      using prepare_documents_private [OF fold] that by (auto simp: verified_zero_def)
    ultimately show ?thesis by blast
  qed
qed

subsection \<open>What a collection keeps\<close>

text \<open>The opening \<open>v\<close> kept for the identifier \<open>i\<close> is that of \<open>d\<close>, whose public record is in \<open>f\<close>.\<close>

definition opened :: "public \<Rightarrow> bytes \<Rightarrow> bytes \<Rightarrow> bytes \<Rightarrow> bundle_t \<Rightarrow> bool" where
  "opened f col i v d \<longleftrightarrow> bundle_ok d \<and> h_DocumentID (document_header d) = i \<and> kept_in d col
     \<and> f ''document'' [i] = encoded (marshal envelope_fields (bu_Envelope d)) \<and> v = opening_of d"

definition anchored :: "(bundle_t \<Rightarrow> bool) \<Rightarrow> public \<Rightarrow> (bytes \<Rightarrow> public) \<Rightarrow> bool" where
  "anchored W f g \<longleftrightarrow> (\<forall>col i. g col ''documentOpening'' [i] \<noteq> [] \<longrightarrow>
     (\<exists>d. W d \<and> opened f col i (g col ''documentOpening'' [i]) d))"

context ledger_store begin

lemma write_private_all_view:
  "l_private L = Some P \<Longrightarrow> write_private_all P ws s = (Inr u, s') \<Longrightarrow>
     private_view s' col k = private_view s col k \<and> (\<forall>w \<in> set ws. \<not> (pw_Collection w = col \<and> pw_Key w = k))
   \<or> (\<exists>w \<in> set ws. pw_Collection w = col \<and> pw_Key w = k \<and> private_view s' col k = pw_Value w)"
proof (induction ws arbitrary: s)
  case (Cons w ws)
  then obtain s1 where s1: "p_write P (pw_Collection w) (pw_Key w) (pw_Value w) s = Some s1"
    "write_private_all P ws s1 = (Inr u, s')"
    by (auto split: option.splits)
  have "private_view s1 col k = (if pw_Collection w = col \<and> pw_Key w = k then pw_Value w else private_view s col k)"
    using private_private_write [OF Cons.prems(1) s1(1)] by simp
  then show ?case using Cons.IH [OF Cons.prems(1) s1(2)] by (auto split: if_splits)
qed simp

lemma engine_apply_private:
  assumes run: "engine_apply L evidence c x s = (Inr receipt, s')"
  obtains exists old refs v p where "apply_checks L s c x = Inr (exists, old, refs)" "evidence c old refs = Inr v" "view s' = outcome (map_of (merge_plan (v_Public v) p)) (view s)"
    "\<And>col k. private_view s' col k = private_view s col k \<and> (\<forall>w \<in> set (v_Private v). \<not> (pw_Collection w = col \<and> pw_Key w = k))
      \<or> (\<exists>w \<in> set (v_Private v). pw_Collection w = col \<and> pw_Key w = k \<and> private_view s' col k = pw_Value w)"
proof -
  obtain plan event ws s1 where plan: "apply_plan L evidence c x s = Inr (receipt, plan, event, ws)"
    and ws: "write_private L ws s = (Inr (), s1)" and fl: "flush L plan event s1 = (Inr (), s')"
    using run by (auto simp: engine_apply_def split: sum.splits prod.splits)
  from plan obtain exists old refs v d where checks: "apply_checks L s c x = Inr (exists, old, refs)"
    and v: "evidence c old refs = Inr v"
    "finish L c x exists old d (v_Public v) = Inr (receipt, plan, event)" "ws = v_Private v"
    by (auto simp: apply_plan_def rbind_eq_Inr)
  obtain p where "plan = merge_plan (v_Public v) p" using finish_public [OF v(2)] by blast
  then have view: "view s' = outcome (map_of (merge_plan (v_Public v) p)) (view s)"
    using flush_view(1) [OF fl] write_private_view [OF ws] by simp
  have "private_view s' col k = private_view s col k \<and> (\<forall>w \<in> set (v_Private v). \<not> (pw_Collection w = col \<and> pw_Key w = k))
      \<or> (\<exists>w \<in> set (v_Private v). pw_Collection w = col \<and> pw_Key w = k \<and> private_view s' col k = pw_Value w)" for col k
  proof (cases "ws = []")
    case True
    then have "s1 = s" using ws by (simp add: write_private_def)
    then show ?thesis using True v(3) flush_view(2) [OF fl] by simp
  next
    case False
    then obtain P where P: "l_private L = Some P" "write_private_all P ws s = (Inr (), s1)"
      using ws by (auto simp: write_private_def len_def split: option.splits)
    from write_private_all_view [OF P, of col k] show ?thesis unfolding flush_view(2) [OF fl] v(3) .
  qed
  then show thesis by (rule that [OF checks v(1) view])
qed

text \<open>A bootstrap writes nothing private.\<close>

lemma write_keys_private: "write_keys L p ks s = (Inr u, s') \<Longrightarrow> private_view s' = private_view s"
  by (induction ks arbitrary: s) (auto dest: private_write split: option.splits)

lemma bootstrap_private: "bootstrap L x raw s = (Inr c, s') \<Longrightarrow> private_view s' = private_view s"
  by (auto simp: bootstrap_def dest: write_keys_private split: sum.splits prod.splits)

text \<open>After a command an opening is as it was before, or is that of a document the command verified.\<close>

lemma apply_openings:
  assumes run: "engine_apply L (prepare L P s t x) c x s = (Inr receipt, s')"
  shows "at L (private_view s' col) ''documentOpening'' [i] = at L (private_view s col) ''documentOpening'' [i]
    \<or> (\<exists>d. verifyBundle L s d = Inr () \<and> opened (at L (view s')) col i (at L (private_view s' col) ''documentOpening'' [i]) d)"
proof (rule engine_apply_private [OF run])
  fix old refs v p
  assume ev: "prepare L P s t x c old refs = Inr v"
    and view: "view s' = outcome (map_of (merge_plan (v_Public v) p)) (view s)"
    and writes: "\<And>col k. private_view s' col k = private_view s col k \<and> (\<forall>w \<in> set (v_Private v). \<not> (pw_Collection w = col \<and> pw_Key w = k))
      \<or> (\<exists>w \<in> set (v_Private v). pw_Collection w = col \<and> pw_Key w = k \<and> private_view s' col k = pw_Value w)"
  show ?thesis
  proof (cases "CreateCompositeKey L ''documentOpening'' [i]")
    case None
    then show ?thesis by (simp add: at_def)
  next
    case (Some k)
    have at: "at L w ''documentOpening'' [i] = w k" for w by (rule at_key [OF Some])
    show ?thesis
    proof (cases "private_view s' col k = private_view s col k")
      case True
      then show ?thesis by (simp add: at)
    next
      case False
      then obtain w where w: "w \<in> set (v_Private v)" "pw_Collection w = col" "pw_Key w = k" "private_view s' col k = pw_Value w"
        using writes by blast
      have "\<not> other_write L w"
        using key_inject [OF Some] w(3) by (auto simp: other_write_def)
      then obtain d where d: "opening_write L d w" "verifyBundle L s d = Inr ()" "bundle_ok d" "recorded L (v_Public v) d"
        using prepare_private [OF ev w(1)] by blast
      have id: "h_DocumentID (document_header d) = i"
        using key_inject [OF Some, of "''documentOpening''" "[h_DocumentID (document_header d)]"] d(1) w(3)
        by (simp add: opening_write_def)
      have dist: "distinct (map fst (v_Public v))"
        using evidence_provider.public_marks [OF real_evidence.evidence_provider_axioms ev] by (simp add: evidence_plan_def)
      obtain k1 where k1: "CreateCompositeKey L ''document'' [i] = Some k1"
        "map_of (v_Public v) k1 = Some (Some (encoded (marshal envelope_fields (bu_Envelope d))))"
        using d(4) id by (auto simp: recorded_def)
      have "view s' k1 = encoded (marshal envelope_fields (bu_Envelope d))"
        unfolding view using k1(2) map_of_merge_plan [OF dist, of p] by (simp add: outcome_def map_add_def)
      then have "at L (view s') ''document'' [i] = encoded (marshal envelope_fields (bu_Envelope d))"
        using at_key [OF k1(1)] by simp
      then have "opened (at L (view s')) col i (at L (private_view s' col) ''documentOpening'' [i]) d"
        using d(1,3) id w(2,4) by (simp add: opened_def opening_write_def at)
      then show ?thesis using d(2) by blast
    qed
  qed
qed

end

text \<open>A document that was verified in some state of the channel.\<close>

definition witnessed :: "'s stub \<Rightarrow> ('s \<Rightarrow> 's) \<Rightarrow> 's \<Rightarrow> bundle_t \<Rightarrow> bool" where
  "witnessed stub commit s0 d \<longleftrightarrow> (\<exists>t. reachable stub commit s0 t \<and> verifyBundle (fabricLedger stub) t d = Inr ())"

context shim_stub begin

lemma transaction_openings:
  assumes s: "fresh s" and run: "Invoke stub j s = (Success bs, s')"
  shows "at stub (private_view s' col) ''documentOpening'' [i] = at stub (private_view s col) ''documentOpening'' [i]
    \<or> (\<exists>d. verifyBundle (fabricLedger stub) s d = Inr ()
        \<and> opened (at stub (view s')) col i (at stub (private_view s' col) ''documentOpening'' [i]) d)"
proof (rule Invoke_Success [OF run])
  fix msp role x t r
  assume "dispatch (fabricLedger stub) msp role (inv_Function j) (inv_Parameters j)
     [\<lparr> pr_x = x, pr_transient = t \<rparr>] s = (Inr r, s')"
  then show ?thesis
  proof (cases rule: dispatch_cases)
    case (boot x raw c)
    then show ?thesis using fabric.bootstrap_private by simp
  next
    case command
    from command(2) show ?thesis
    proof (rule dispatch_command_success)
      fix c P pr receipt
      assume "engine_apply (fabricLedger stub) (prepare (fabricLedger stub) P s (pr_transient pr) (pr_x pr))
          c (pr_x pr) s = (Inr receipt, s')"
      from fabric.apply_openings [OF this, of col i] show ?thesis by simp
    qed
  qed simp
qed

lemma openings_later:
  assumes s0: "fresh s0" "consistent (at stub (view s0))" and later: "reachable stub commit s0 s"
    and start: "anchored (witnessed stub commit s0) (at stub (view s0)) (\<lambda>col. at stub (private_view s0 col))"
  shows "anchored (witnessed stub commit s0) (at stub (view s)) (\<lambda>col. at stub (private_view s col))"
  using later
proof (induction rule: reachable.induct)
  case start
  then show ?case by (fact assms(4))
next
  case (transaction s j b s')
  have s: "fresh s" "consistent (at stub (view s))" using later_consistent [OF s0 transaction(1)] by simp_all
  show ?case
    unfolding anchored_def commit
  proof (intro allI impI)
    fix col i
    assume some: "at stub (private_view s' col) ''documentOpening'' [i] \<noteq> []"
    from transaction_openings [OF s(1) transaction(2), of col i]
    show "\<exists>d. witnessed stub commit s0 d \<and> opened (at stub (view s')) col i (at stub (private_view s' col) ''documentOpening'' [i]) d"
    proof
      assume same: "at stub (private_view s' col) ''documentOpening'' [i] = at stub (private_view s col) ''documentOpening'' [i]"
      then obtain d where d: "witnessed stub commit s0 d" "opened (at stub (view s)) col i (at stub (private_view s col) ''documentOpening'' [i]) d"
        using transaction.IH some by (auto simp: anchored_def)
      have doc: "at stub (view s) ''document'' [i] = encoded (marshal envelope_fields (bu_Envelope d))" "bundle_ok d"
        using d(2) by (simp_all add: opened_def)
      have "at stub (view s) ''document'' [i] \<noteq> []"
        unfolding doc(1) by (rule encoded_nonempty [OF envelope.marshal_ok]) (use doc(2) in \<open>simp add: bundle_ok_def\<close>)
      then have "at stub (view s') ''document'' [i] = at stub (view s) ''document'' [i]"
        using transaction_additive [OF s transaction(2), of "''document''" "[i]"] by (auto simp: rewritten_kinds_def)
      then show ?thesis using d same by (auto simp: opened_def)
    next
      assume "\<exists>d. verifyBundle (fabricLedger stub) s d = Inr ()
        \<and> opened (at stub (view s')) col i (at stub (private_view s' col) ''documentOpening'' [i]) d"
      then show ?thesis using transaction(1) unfolding witnessed_def by blast
    qed
  qed
qed

end

subsection \<open>Reading an opening back\<close>

lemma opening_decoded:
  assumes "bundle_ok d"
  shows "Unmarshal opening_fields (opening_of d) opening_zero = Some \<lparr> op_Body = bu_Body d, op_Salt = bu_Salt d \<rparr>"
  unfolding opening_of_def
  by (rule opening_q.Unmarshal_print) (use assms in \<open>auto simp: opening_ok_def bundle_ok_def opening_fields_def\<close>)

lemma envelope_read:
  "envelope_ok e \<Longrightarrow> Unmarshal envelope_fields (encoded (marshal envelope_fields e)) envelope_zero = Some e"
  by (rule envelope.Unmarshal_print) (auto simp: envelope_fields_def)

context ledger_store begin

lemma load_opening:
  assumes s: "fresh s" and P: "l_private L = Some P"
    and vault: "anchored W (at L (view s)) (\<lambda>col. at L (private_view s col))"
    and k: "CreateCompositeKey L ''documentOpening'' [i] = Some k"
    and run: "privateLoad P s col k (struct_codec opening_fields) opening_zero = Inr o'"
  obtains d where "W d" "opened (at L (view s)) col i (opening_of d) d" "o' = \<lparr> op_Body = bu_Body d, op_Salt = bu_Salt d \<rparr>"
proof -
  obtain b where b: "p_read P s col k = Some b" "b \<noteq> []" "Unmarshal opening_fields b opening_zero = Some o'"
    using run
    by (auto simp: privateLoad_def of_option_eq_Inr len_def struct_codec_def Unmarshal_def split: option.splits if_splits)
  have v: "at L (private_view s col) ''documentOpening'' [i] = b"
    using private_read [OF s P b(1,2)] at_key [OF k] by simp
  then obtain d where d: "W d" "opened (at L (view s)) col i b d" using vault b(2) by (auto simp: anchored_def)
  then have "bundle_ok d" "b = opening_of d" by (simp_all add: opened_def)
  then show thesis using that [OF d(1)] d(2) opening_decoded b(3) by simp
qed

lemma load_document:
  assumes s: "fresh s" and here: "opened (at L (view s)) col i v d"
    and k: "CreateCompositeKey L ''document'' [i] = Some k"
    and run: "load L s k (struct_codec envelope_fields) envelope_zero = Inr (found, env)"
  shows "env = bu_Envelope d"
proof -
  have d: "envelope_ok (bu_Envelope d)" "view s k = encoded (marshal envelope_fields (bu_Envelope d))"
    using here at_key [OF k] by (simp_all add: opened_def bundle_ok_def)
  then have "view s k \<noteq> []" using encoded_nonempty [OF envelope.marshal_ok [OF d(1)]] by simp
  then have found using load_view(1) [OF run s] by simp
  then show ?thesis using load_view(2) [OF run s] envelope_read [OF d(1)] d(2) by simp
qed

lemma purchase_read:
  assumes s: "fresh s" and world: "world_ok (at L (view s))" and P: "l_private L = Some P"
    and vault: "anchored W (at L (view s)) (\<lambda>col. at L (private_view s col))"
    and run: "privateQuery L P s actor role ''GetPurchase'' i = Inr v"
  obtains b refs d where "batch_here (at L (view s)) i b refs" "W d"
    "opened (at L (view s)) trade (e_PurchaseDocumentID refs) (opening_of d) d" "v = marshal_bundle d"
    "mayRead actor role trade"
proof -
  obtain bk b rk refs k o' dk found found' env where read: "mayRead actor role trade"
    and bk: "CreateCompositeKey L ''batch'' [i] = Some bk" "load L s bk (struct_codec Batch_fields) Batch_zero = Inr (True, b)"
    and rk: "CreateCompositeKey L ''batchEvidence'' [i] = Some rk"
      "load L s rk (struct_codec EvidenceRefs_fields) EvidenceRefs_zero = Inr (found, refs)"
    and k: "CreateCompositeKey L ''documentOpening'' [e_PurchaseDocumentID refs] = Some k"
      "privateLoad P s trade k (struct_codec opening_fields) opening_zero = Inr o'"
    and dk: "CreateCompositeKey L ''document'' [e_PurchaseDocumentID refs] = Some dk"
      "load L s dk (struct_codec envelope_fields) envelope_zero = Inr (found', env)"
    and v: "v = marshal_bundle \<lparr> bu_Envelope = env, bu_Body = op_Body o', bu_Salt = op_Salt o' \<rparr>"
    using run by (auto simp: privateQuery_def Let_def rbind_eq_Inr key_eq_Inr split: if_splits)
  have "at L (view s) ''batch'' [i] \<noteq> []" using load_view(1) [OF bk(2) s] at_key [OF bk(1)] by simp
  then have "\<not> no_batch (at L (view s)) i" by (auto simp: no_batch_def)
  then obtain b0 r0 where here: "batch_here (at L (view s)) i b0 r0" using world by (auto simp: world_ok_def)
  have r0: "view s rk = encoded (marshal EvidenceRefs_fields r0)" "EvidenceRefs_ok r0"
    using here at_key [OF rk(1)] by (simp_all add: batch_here_def)
  then have "view s rk \<noteq> []" using encoded_nonempty [OF evidence_refs.marshal_ok [OF r0(2)]] by simp
  then have found using load_view(1) [OF rk(2) s] by simp
  moreover have "EvidenceRefs_zero = EvidenceRefs_zero \<lparr> e_SchemaVersion := [], e_BatchID := [] \<rparr>"
    by (simp add: EvidenceRefs_zero_def)
  ultimately have refs: "refs = r0"
    using load_view(2) [OF rk(2) s] r0(1) refs_decoded [OF r0(2), of "[]" "[]"] by simp
  show thesis
  proof (rule load_opening [OF s P vault k])
    fix d
    assume d: "W d" "opened (at L (view s)) trade (e_PurchaseDocumentID refs) (opening_of d) d"
      "o' = \<lparr> op_Body = bu_Body d, op_Salt = bu_Salt d \<rparr>"
    have "env = bu_Envelope d" by (rule load_document [OF s d(2) dk])
    moreover have "marshal_bundle \<lparr> bu_Envelope = bu_Envelope d, bu_Body = bu_Body d, bu_Salt = bu_Salt d \<rparr> = marshal_bundle d"
      by (rule arg_cong [where f = marshal_bundle]) (cases d, simp)
    ultimately have "v = marshal_bundle d" using v d(3) by simp
    then show thesis using that here d(1,2) read unfolding refs by blast
  qed
qed

end

context shim_stub begin

lemma purchase_answered:
  assumes s: "fresh s" and world: "world_ok (at stub (view s))"
    and vault: "anchored W (at stub (view s)) (\<lambda>col. at stub (private_view s col))"
    and run: "Invoke stub j s = (Success bs, s')" and fn: "inv_Function j = ''GetPurchase''"
  shows "\<exists>msp role i b refs d. caller j = Inr (msp, role) \<and> mayRead msp role trade \<and> inv_Parameters j = [i]
    \<and> batch_here (at stub (view s)) i b refs \<and> W d
    \<and> opened (at stub (view s)) trade (e_PurchaseDocumentID refs) (opening_of d) d
    \<and> bs = encoded (marshal bundle_fields d)"
proof -
  obtain msp role x t r where c: "caller j = Inr (msp, role)" "inv_Transient j = Some t" "invoke_context j msp role = Inr x"
    and d: "dispatch (fabricLedger stub) msp role ''GetPurchase'' (inv_Parameters j) [\<lparr> pr_x = x, pr_transient = t \<rparr>] s
      = (Inr r, s')"
    using Invoke_Success [OF run] fn by metis
  have reply: "reply (Inr r) = Success bs"
    using run c d fn by (simp add: Invoke_def)
  have "dispatch_private (fabricLedger stub) s msp role ''GetPurchase'' (inv_Parameters j) [\<lparr> pr_x = x, pr_transient = t \<rparr>] = Inr r"
    using d by (auto simp: dispatch_unfold split: sum.splits)
  then obtain P i where P: "l_private (fabricLedger stub) = Some P" "inv_Parameters j = [i]"
    "privateQuery (fabricLedger stub) P s msp role ''GetPurchase'' i = Inr r"
    by (cases "inv_Parameters j") (auto simp: dispatch_private_def len_def Let_def split: option.splits if_splits)
  show ?thesis
  proof (rule fabric.purchase_read [OF s _ P(1) _ P(3), where W = W])
    show "world_ok (at (fabricLedger stub) (view s))" using world by simp
    show "anchored W (at (fabricLedger stub) (view s)) (\<lambda>col. at (fabricLedger stub) (private_view s col))"
      using vault by simp
    fix b refs d
    assume d: "batch_here (at (fabricLedger stub) (view s)) i b refs" "W d"
      "opened (at (fabricLedger stub) (view s)) trade (e_PurchaseDocumentID refs) (opening_of d) d"
      "r = marshal_bundle d" "mayRead msp role trade"
    then have "bs = encoded (marshal bundle_fields d)"
      using reply by (auto simp: reply_def canonical_def marshal_bundle_def split: option.splits)
    then show ?thesis using c(1) P(2) d by auto
  qed
qed

end

end
