(* ===== verification/Freight.thy ===== *)
theory Freight
  imports Creation Vault
begin

text \<open>
  The freight of a batch can be recorded: on a peer that does not fail, the carrier's well-formed
  command with one verified, unused invoice that matches the batch is committed, the invoice's
  opening is kept in the collection of the carrier and the payer, and its record is public.
\<close>

subsection \<open>The invoice\<close>

definition invoices :: "Batch \<Rightarrow> bundle_t \<Rightarrow> bool" where
  "invoices b d \<longleftrightarrow>
     h_DocumentType (document_header d) = ''FREIGHT_INVOICE'' \<and> h_SourceSystem (document_header d) = ''EFATURA''
   \<and> (case exact freightBody_fields (bu_Body d) freightBody_zero of
        Inl e \<Rightarrow> False
      | Inr body \<Rightarrow> fb_Carrier body = b_LogisticsMSP b \<and> fb_Payer body = b_IntendedRetailerMSP b
        \<and> media (fb_Digest body) (fb_MediaType body) \<and> fb_Quantity body = b_QuantityGrams b
        \<and> 0 \<le> fb_Total body \<and> fb_Total body \<le> 1000000000000 \<and> fb_Currency body = ''TRY''
        \<and> fb_Tax body = ''EXCLUDING_TAX'')"

text \<open>A document that a command may mark as used: verified, bound to the command and not used before.\<close>

definition usable :: "'s ledger \<Rightarrow> 's \<Rightarrow> public \<Rightarrow> Command \<Rightarrow> bundle_t \<Rightarrow> bool" where
  "usable L s f c d \<longleftrightarrow> verifyBundle L s d = Inr () \<and> unused f (document_header d)
     \<and> h_BatchID (document_header d) = c_BatchID c \<and> h_OperationID (document_header d) = c_OperationID c"

definition freight_data :: "bytes \<Rightarrow> bytes \<Rightarrow> transient" where
  "freight_data raw salt = [(''evidence'', raw), (''recordSaltHex'', salt)]"

lemma freight_entries:
  "entry_of (freight_data raw salt) ''evidence'' = raw"
  "check_transient (freight_data raw salt) [(''FREIGHT_INVOICE'', ''EFATURA'')] ''recordSaltHex'' = Inr ()"
  "strictJSON raw' = Inr (JStr salt) \<Longrightarrow> match_hexID salt \<Longrightarrow> readSalt (freight_data raw raw') ''recordSaltHex'' = Inr salt"
  by (simp_all add: freight_data_def entry_of_def check_transient_def len_def readSalt_def)

lemma raw_read: "raw_ok t \<Longrightarrow> raw_value t \<noteq> None"
  using json_print_start by (auto simp: raw_ok_def raw_value_def json_parse_print)

context reliable_ledger begin

lemma prepare_freight:
  assumes s: "fresh s" and cmd: "c_Command c = ''RecordFreightCost''"
    and config: "getConfig L s = Inr cfg" and bundles: "decodeBundles raw = Inr [d]"
    and d: "usable L s (at L (view s)) c d" "invoices b d"
    and salt: "strictJSON raw' = Inr (JStr salt)" "match_hexID salt"
    and cost: "list_all printable (fi_CostID (payload_of freightInput_fields freightInput_zero c))"
  obtains v kc ko u where "prepare L P s (freight_data raw raw') x c b refs = Inr v"
    "v_Quantity v = b_QuantityGrams b" "0 \<le> v_FreightTotal v" "v_FreightTotal v \<le> 1000000000000"
    "v_Currency v = ''TRY''" "v_TaxBasis v = ''EXCLUDING_TAX''"
    "CreateCompositeKey L ''cost'' [fi_CostID (payload_of freightInput_fields freightInput_zero c)] = Some kc"
    "CreateCompositeKey L ''documentOpening'' [h_DocumentID (document_header d)] = Some ko"
    "v_Private v = [\<lparr> pw_Collection = freight, pw_Key = kc, pw_Value = u \<rparr>,
       \<lparr> pw_Collection = freight, pw_Key = ko, pw_Value = opening_of d \<rparr>]"
proof -
  let ?h = "document_header d" and ?t = "freight_data raw raw'" and ?r = "[(''FREIGHT_INVOICE'', ''EFATURA'')]"
  let ?i = "payload_of freightInput_fields freightInput_zero c"
  note verified = d(1) [unfolded usable_def]
  have well: "header_well_formed ?h" by (rule verified_well_formed) (use verified in auto)
  have ok: "bundle_ok d" using verified_bundle bundles_decoded [OF bundles] verified by auto
  then obtain bv where bv: "raw_value (bu_Body d) = Some bv" using raw_read by (auto simp: bundle_ok_def)
  obtain q where q: "mark_document L s c x d (v_Public verified_zero) = Inr q"
    using mark_document_total [OF s well, of "[]"] verified by (auto simp: verified_zero_def)
  obtain body where body: "exact freightBody_fields (bu_Body d) freightBody_zero = Inr body"
    using d(2) by (auto simp: invoices_def split: sum.splits)
  obtain kc where kc: "CreateCompositeKey L ''cost'' [fi_CostID ?i] = Some kc"
    using key_exists [of "''cost''" "[fi_CostID ?i]"] cost by (auto simp: printable_code)
  obtain ko where ko: "CreateCompositeKey L ''documentOpening'' [h_DocumentID ?h] = Some ko"
    using key_exists [of "''documentOpening''" "[h_DocumentID ?h]"] header_printable [OF well] by (auto simp: printable_code)
  let ?cost = "marshal costRecord_fields
     \<lparr> cr_SchemaVersion = ''agrochain.cost.v1'', cr_CostID = fi_CostID ?i, cr_BatchID = c_BatchID c,
       cr_Kind = ''FREIGHT'', cr_Payer = fb_Payer body, cr_Payee = fb_Carrier body, cr_Quantity = fb_Quantity body,
       cr_Total = fb_Total body, cr_Currency = fb_Currency body, cr_Tax = fb_Tax body,
       cr_SourceDocumentID = h_DocumentID ?h, cr_Salt = salt, cr_OperationID = c_OperationID c, cr_TxID = x_TxID x \<rparr>"
  let ?v1 = "verified_zero \<lparr> v_Public := q, v_Quantity := fb_Quantity body, v_FreightTotal := fb_Total body,
     v_Currency := fb_Currency body, v_TaxBasis := fb_Tax body,
     v_Private := [\<lparr> pw_Collection = freight, pw_Key = kc, pw_Value = encoded ?cost \<rparr>] \<rparr>"
  let ?v = "?v1 \<lparr> v_Private := [\<lparr> pw_Collection = freight, pw_Key = kc, pw_Value = encoded ?cost \<rparr>,
     \<lparr> pw_Collection = freight, pw_Key = ko, pw_Value = opening_of d \<rparr>] \<rparr>"
  have claim: "document_claim L ?t x c b d (verified_zero \<lparr> v_Public := q \<rparr>) = Inr (?v1, freight)"
    using d(2) body kc freight_entries(3) [OF salt, of raw]
    by (simp add: document_claim_def Let_def claim_freight_def invoices_def key_def add_private_def canonical_def verified_zero_def)
  have opens: "marshal_opening \<lparr> op_Body = bu_Body d, op_Salt = bu_Salt d \<rparr>
      = Some (marshal opening_fields \<lparr> op_Body = bu_Body d, op_Salt = bu_Salt d \<rparr>)"
    using bv by (simp add: marshal_opening_def)
  have "prepare_document L s ?t x c b d (?r, verified_zero) = Inr ([], ?v)"
    using verified d(2) q claim ko opens
    by (simp add: prepare_document_def Let_def invoices_def entry_of_def key_def add_private_def canonical_def opening_of_def)
  then have "prepare L P s ?t x c b refs = Inr ?v"
    using cmd config bundles by (simp add: prepare_def required_evidence_def freight_entries)
  then show thesis
    by (rule that) (use d(2) body kc ko in \<open>simp_all add: invoices_def verified_zero_def\<close>)
qed

end

context reliable_stub begin

lemma freight_commits:
  assumes s: "fresh s" and world: "world_ok (at stub (view s))"
    and proposed: "proposes stub s (at stub (view s)) i x (freight_data raw raw') c"
    and fn: "inv_Function i = ''RecordFreightCost''"
    and here: "batch_here (at stub (view s)) (c_BatchID c) b refs"
    and state: "b_State b = InTransport \<or> b_State b = DeliveryPending" "e_FreightCostID refs = []"
    and version: "c_ExpectedVersion c = b_Version b" "b_Version b < 2147483647"
    and bundles: "decodeBundles raw = Inr [d]"
    and d: "usable (fabricLedger stub) s (at stub (view s)) c d" "invoices b d"
    and salt: "strictJSON raw' = Inr (JStr salt)" "match_hexID salt"
    and p: "p = payload_of freightInput_fields freightInput_zero c"
    and new: "at stub (view s) ''costReference'' [fi_CostID p] = []"
  shows "\<exists>bs s' b'. Invoke stub i s = (Success bs, s')
    \<and> batch_here (at stub (view s')) (c_BatchID c) b' (refs \<lparr> e_FreightCostID := fi_CostID p \<rparr>)
    \<and> b_State b' = b_State b \<and> b_Version b' = b_Version b + 1
    \<and> at stub (private_view s' freight) ''documentOpening'' [h_DocumentID (document_header d)] = opening_of d"
proof -
  let ?L = "fabricLedger stub"
  obtain cfg rc where config: "getConfig ?L s = Inr cfg" and rc: "parseCommand (inv_Function i) rc = Inr c"
    using proposed by (auto simp: proposes_def)
  have cmd: "c_Command c = ''RecordFreightCost''" and payload: "validatePayload c = Inr ()"
    using parseCommand_ids [OF rc] fn by simp_all
  have actor: "x_Actor x = Logistics"
    using proposed fn by (auto simp: proposes_def expected_caller_def executionFromStub_def split: option.splits if_splits)
  have cost: "list_all printable (fi_CostID p)"
    using validate_freight [OF payload cmd] validID_printable payload_of_eq p by metis
  have usable: "usable ?L s (at ?L (view s)) c d" using d(1) by simp
  have custody: "b_CustodianMSP b = Logistics"
    using here state(1) by (auto simp: batch_here_def batch_shape_def custodian_at_def state_defs)
  obtain P0 where P0: "l_private ?L = Some P0" using reliable.private_total by blast
  obtain v kc ko u where v: "prepare ?L P0 s (freight_data raw raw') x c b refs = Inr v"
    "v_Quantity v = b_QuantityGrams b" "0 \<le> v_FreightTotal v" "v_FreightTotal v \<le> 1000000000000"
    "v_Currency v = ''TRY''" "v_TaxBasis v = ''EXCLUDING_TAX''"
    and keys: "CreateCompositeKey ?L ''cost'' [fi_CostID p] = Some kc"
    "CreateCompositeKey ?L ''documentOpening'' [h_DocumentID (document_header d)] = Some ko"
    and writes: "v_Private v = [\<lparr> pw_Collection = freight, pw_Key = kc, pw_Value = u \<rparr>,
       \<lparr> pw_Collection = freight, pw_Key = ko, pw_Value = opening_of d \<rparr>]"
    unfolding p
    by (rule reliable.prepare_freight [OF s cmd config bundles usable d(2) salt cost [unfolded p]])
  obtain k where k: "CreateCompositeKey ?L ''costReference'' [fi_CostID p] = Some k"
    using reliable.key_exists [of "''costReference''" "[fi_CostID p]"] cost by (auto simp: printable_code)
  have absent: "absent ?L s k code = Inr ()" for code
    using new k by (intro reliable.absent_missing [OF s]) (simp add: at_def fabricLedger_def)
  let ?d = "\<lparr> d_batch = b, d_refs = refs \<lparr> e_FreightCostID := fi_CostID p \<rparr>,
      d_plan = put_entry k (Some (encoded (JStr (c_BatchID c)))) [], d_ids = [c_BatchID c, fi_CostID p],
      d_event = ''FreightCostRecorded'' \<rparr>"
  have draft: "apply_command ?L s c x b refs v = Inr ?d"
    using cmd state custody actor v(2-6) k absent
    by (simp add: apply_command_def apply_freight_def Let_def p [symmetric] key_def put_def canonical_def
        del: put_entry.simps)
  have begins: "starts_from (at stub (view s)) c b refs"
    using cmd here version by (simp add: starts_from_def)
  show ?thesis
  proof (rule command_commits [OF s world proposed begins _ draft])
    show "prepare ?L P s (freight_data raw raw') x c b refs = Inr v" if "l_private ?L = Some P" for P
      using that P0 v(1) by simp
    fix bs s' P receipt
    assume run: "Invoke stub i s = (Success bs, s')"
      and after: "batch_here (at stub (view s')) (c_BatchID c) (advance x b (d_batch ?d)) (d_refs ?d)"
      and ev: "prepare ?L P s (freight_data raw raw') x c b refs = Inr v"
      and go: "engine_apply ?L (prepare ?L P s (freight_data raw raw') x) c x s = (Inr receipt, s')"
    have "private_view s' freight ko = opening_of d"
    proof (rule fabric.engine_apply_private [OF go])
      fix exists b1 refs1 v1 p1
      assume "apply_checks ?L s c x = Inr (exists, b1, refs1)" "prepare ?L P s (freight_data raw raw') x c b1 refs1 = Inr v1"
        and eff: "\<And>col k. private_view s' col k = private_view s col k \<and> (\<forall>w \<in> set (v_Private v1). \<not> (pw_Collection w = col \<and> pw_Key w = k))
          \<or> (\<exists>w \<in> set (v_Private v1). pw_Collection w = col \<and> pw_Key w = k \<and> private_view s' col k = pw_Value w)"
      moreover from this have "v1 = v" using command_checks [OF s proposed begins] ev by auto
      moreover have "kc \<noteq> ko" using fabric.key_inject [OF keys(1), of "''documentOpening''"] keys(2) by auto
      ultimately show ?thesis using eff [of freight ko] writes by auto
    qed
    then have "at stub (private_view s' freight) ''documentOpening'' [h_DocumentID (document_header d)] = opening_of d"
      using keys(2) by (simp add: at_def fabricLedger_def)
    moreover have "wrap64 (b_Version b + 1) = b_Version b + 1"
      using here version by (simp add: wrap64_def batch_here_def batch_shape_def)
    ultimately show ?thesis
      using run after by (intro exI [of _ bs] exI [of _ s'] exI [of _ "advance x b b"]) (simp add: advance_def)
  qed
qed

end

end
