(* ===== verification/Reads.thy ===== *)
theory Reads
  imports Commit Records
begin

text \<open>
  What the lookups answer on a peer that does not fail: the batch as it is, and the receipt as
  it was first returned.
\<close>

subsection \<open>From an invocation to its query\<close>

definition lookup_functions :: "bytes list" where
  "lookup_functions = [''GetBatch'', ''GetTransfer'', ''GetOperation'', ''BatchExists'', ''GetBatchHistory'',
     ''QueryBatchesByOwner'', ''QueryBatchesByState'']"

lemma dispatch_query:
  assumes "authorize msp role fn = Inr ()"
    and "fn \<in> set lookup_functions"
  shows "dispatch L msp role fn args request s = (query L s msp fn args, s)"
proof -
  have "\<not> isMutation fn" "fn \<noteq> ''Bootstrap''" "fn \<noteq> ''GetConfiguration''" "fn \<noteq> ''GetDocument''"
    "fn \<notin> set [''GetPurchase'', ''GetFreightCost'', ''GetRetailReport'', ''GetAnomaly'', ''GetReviewHistory'',
      ''VerifyDocument'']"
    using assms(2) by (auto simp: isMutation_def lookup_functions_def)
  then show ?thesis using assms(1) unfolding dispatch_unfold by simp
qed

text \<open>A function that only reads, on a peer whose identity and proposal are in order.\<close>

lemma Invoke_query:
  assumes "caller i = Inr (msp, role)" "permitted msp role (inv_Function i)" "inv_Transient i = Some t"
    and fn: "inv_Function i \<in> set lookup_functions"
  shows "Invoke stub i s = (reply (query (fabricLedger stub) s msp (inv_Function i) (inv_Parameters i)), s)"
proof -
  let ?x = "\<lparr> x_Actor = msp, x_Role = role, x_TxID = [], x_Time = TxTime_zero \<rparr>"
  have auth: "authorize msp role (inv_Function i) = Inr ()" using assms(2) by (simp add: authorize_permitted)
  have "\<not> isMutation (inv_Function i)" "inv_Function i \<noteq> ''Bootstrap''" using fn by (auto simp: isMutation_def lookup_functions_def)
  then have x: "invoke_context i msp role = Inr ?x" by (simp add: invoke_context_def)
  have "dispatch (fabricLedger stub) msp role (inv_Function i) (inv_Parameters i) [\<lparr> pr_x = ?x, pr_transient = t \<rparr>] s
      = (query (fabricLedger stub) s msp (inv_Function i) (inv_Parameters i), s)"
    by (rule dispatch_query [OF auth fn])
  then show ?thesis using assms(1,3) x by (simp add: Invoke_def)
qed

context reliable_ledger begin

text \<open>A lookup of a record at a key that has one, or has none.\<close>

lemma lookup_record:
  assumes s: "fresh s" and names: "list_all printable kind" "list_all (list_all printable) attrs"
  obtains k where "key L kind attrs = Inr k" "at L (view s) kind attrs = view s k"
    "at L (view s) kind attrs = [] \<Longrightarrow> load L s k c dst = Inr (False, dst)"
    "at L (view s) kind attrs \<noteq> [] \<Longrightarrow> decoded c dst (at L (view s) kind attrs) = Some r \<Longrightarrow>
       load L s k c dst = Inr (True, r)"
proof -
  obtain k where k: "CreateCompositeKey L kind attrs = Some k"
    using key_exists [of kind attrs] names by auto
  then have v: "at L (view s) kind attrs = view s k" by (simp add: at_key)
  show thesis
    by (rule that [of k]) (use k v load_missing [OF s] load_present [OF s] in \<open>auto simp: key_def\<close>)
qed

lemma query_batch:
  assumes s: "fresh s" and id: "validID i ''BAT''"
  shows "no_batch (at L (view s)) i \<Longrightarrow> query L s actor ''GetBatch'' [i] = Inl (fail ''BATCH_NOT_FOUND'')"
    and "batch_here (at L (view s)) i b r \<Longrightarrow>
      query L s actor ''GetBatch'' [i] = Inr (Some (marshal Batch_fields b))"
proof -
  have p: "list_all printable ''batch''" "list_all (list_all printable) [i]"
    using id by (auto simp: printable_code validID_def identifier_printable)
  obtain k where k: "key L ''batch'' [i] = Inr k"
    "at L (view s) ''batch'' [i] = [] \<Longrightarrow> load L s k (struct_codec Batch_fields) Batch_zero = Inr (False, Batch_zero)"
    "at L (view s) ''batch'' [i] \<noteq> [] \<Longrightarrow> decoded (struct_codec Batch_fields) Batch_zero (at L (view s) ''batch'' [i]) = Some b \<Longrightarrow>
       load L s k (struct_codec Batch_fields) Batch_zero = Inr (True, b)"
    using lookup_record [OF s p] by metis
  show "no_batch (at L (view s)) i \<Longrightarrow> query L s actor ''GetBatch'' [i] = Inl (fail ''BATCH_NOT_FOUND'')"
    using k id by (simp add: query_def no_batch_def)
  show "batch_here (at L (view s)) i b r \<Longrightarrow>
      query L s actor ''GetBatch'' [i] = Inr (Some (marshal Batch_fields b))"
    using k id by (simp add: query_def batch_here_def batch_decoded)
qed

lemma query_operation:
  assumes s: "fresh s" and id: "validID op ''OP''" and actor: "member actor"
    and here: "at L (view s) ''operation'' [actor, op] = encoded (marshal Receipt_fields receipt)"
    and ok: "Receipt_ok receipt"
  shows "query L s actor ''GetOperation'' [op] = Inr (Some (marshal Receipt_fields receipt))"
proof -
  have p: "list_all printable ''operation''" "list_all (list_all printable) [actor, op]"
    using id actor by (auto simp: printable_code validID_def identifier_printable member_printable)
  obtain k where k: "key L ''operation'' [actor, op] = Inr k"
    "at L (view s) ''operation'' [actor, op] \<noteq> [] \<Longrightarrow>
       decoded (struct_codec Receipt_fields) Receipt_zero (at L (view s) ''operation'' [actor, op]) = Some receipt \<Longrightarrow>
       load L s k (struct_codec Receipt_fields) Receipt_zero = Inr (True, receipt)"
    using lookup_record [OF s p] by metis
  then show ?thesis
    using id here receipt_decoded [OF ok] by (simp add: query_def)
qed

end

subsection \<open>The answers\<close>

context reliable_stub begin

lemma get_batch:
  assumes s: "fresh s" and world: "world_ok (at stub (view s))"
    and who: "caller j = Inr (msp, role)" "permitted msp role ''GetBatch''"
    and j: "inv_Function j = ''GetBatch''" "inv_Parameters j = [i]" "inv_Transient j = Some t" "validID i ''BAT''"
  shows "Invoke stub j s = (if at stub (view s) ''batch'' [i] = [] then respond (fail ''BATCH_NOT_FOUND'')
      else Success (at stub (view s) ''batch'' [i]), s)"
proof -
  have run: "Invoke stub j s = (reply (query (fabricLedger stub) s msp ''GetBatch'' [i]), s)"
    using Invoke_query [OF who(1) _ j(3)] who(2) j by (simp add: lookup_functions_def)
  show ?thesis
  proof (cases "no_batch (at stub (view s)) i")
    case True
    then have "query (fabricLedger stub) s msp ''GetBatch'' [i] = Inl (fail ''BATCH_NOT_FOUND'')"
      using reliable.query_batch(1) [OF s j(4)] by simp
    moreover have "at stub (view s) ''batch'' [i] = []" using True by (simp add: no_batch_def)
    ultimately show ?thesis using run by (simp add: reply_def)
  next
    case False
    then obtain b r where here: "batch_here (at stub (view s)) i b r" using world by (auto simp: world_ok_def)
    then have "query (fabricLedger stub) s msp ''GetBatch'' [i] = Inr (Some (marshal Batch_fields b))"
      using reliable.query_batch(2) [OF s j(4)] by simp
    moreover have "at stub (view s) ''batch'' [i] = encoded (marshal Batch_fields b)"
      using here by (simp add: batch_here_def)
    ultimately show ?thesis using run by (simp add: reply_def canonical_def)
  qed
qed

lemma get_operation:
  assumes s: "fresh s" "consistent (at stub (view s))" and run: "Invoke stub i s = (Success bs, s1)"
    and fn: "isMutation (inv_Function i)" and i: "caller i = Inr (msp, role)" "inv_Parameters i = [raw]"
      "parseCommand (inv_Function i) raw = Inr c"
    and later: "reachable stub commit (commit s1) s2"
    and who: "caller j = Inr (msp, role')" "permitted msp role' ''GetOperation''"
    and j: "inv_Function j = ''GetOperation''" "inv_Parameters j = [c_OperationID c]" "inv_Transient j = Some t"
  shows "Invoke stub j s2 = (Success bs, s2)"
proof -
  have world: "world_ok (at stub (view s))" using s(2) by (simp add: consistent_def)
  obtain receipt where r: "bs = encoded (marshal Receipt_fields receipt)" "Receipt_ok receipt"
    "at stub (view s1) ''operation'' [msp, c_OperationID c] = bs"
    by (rule mutation_records [OF s(1) world run fn]) (use i in auto)
  have c1: "fresh (commit s1)" "consistent (at stub (view (commit s1)))"
    using transaction_consistent [OF s run] by (simp_all add: commit)
  have s2: "fresh s2" using later_consistent [OF c1 later] by simp
  have "at stub (view s2) ''operation'' [msp, c_OperationID c] = bs"
    using later_additive [OF c1 later, of "''operation''" "[msp, c_OperationID c]"] r
    by (auto simp: rewritten_kinds_def commit)
  moreover have "member msp" using who(2) by (simp add: permitted_def)
  ultimately have "query (fabricLedger stub) s2 msp ''GetOperation'' [c_OperationID c]
      = Inr (Some (marshal Receipt_fields receipt))"
    using reliable.query_operation [OF s2 parseCommand_ids(3) [OF i(3)] _ _ r(2)] r(1) by simp
  moreover have "Invoke stub j s2 = (reply (query (fabricLedger stub) s2 msp ''GetOperation'' [c_OperationID c]), s2)"
    using Invoke_query [OF who(1) _ j(3)] who(2) j by (simp add: lookup_functions_def)
  ultimately show ?thesis using r(1) by (simp add: reply_def canonical_def)
qed

end

end
