(* ===== verification/Deal.thy ===== *)
theory Deal
  imports Samples Freight Reads
begin

text \<open>
  A batch under way, on the peer in memory: its sale is invoiced, the opening of the invoice is in
  the trade collection, and the carrier records the freight with a second invoice.
\<close>

subsection \<open>The two invoices\<close>

definition invoice_header :: "bytes \<Rightarrow> bytes \<Rightarrow> bytes \<Rightarrow> header" where
  "invoice_header doc kind op = \<lparr> h_SchemaVersion = ''agrochain.source-document.v1'', h_DocumentID = doc,
     h_SourceSystem = ''EFATURA'', h_SourceMode = ''SIMULATED'', h_IssuerID = ''EFATURA'', h_KeyID = ''KEY_1'',
     h_SourceDocumentID = doc, h_DocumentType = kind, h_BatchID = demo_id,
     h_OperationID = op, h_IssuedAt = ''2026-06-01T08:00:00.000Z'', h_Nonce = demo_tx,
     h_CommitmentAlgorithm = ''SHA256_SALTED_JCS_V1'', h_Commitment = first_commitment,
     h_SignatureAlgorithm = ''Ed25519'' \<rparr>"

definition sale_header :: header where
  "sale_header = invoice_header ''DOC-00000002'' ''PURCHASE_INVOICE'' ''OP-00000002''"

definition sale_body :: purchaseBody where
  "sale_body = \<lparr> pb_Seller = Producer, pb_Buyer = Retailer, pb_Quantity = 1000000, pb_Price = 2000,
     pb_Total = 2000000, pb_Currency = ''TRY'', pb_Tax = ''EXCLUDING_TAX'', pb_Digest = demo_tx,
     pb_MediaType = ''application/pdf'' \<rparr>"

definition sale_value :: jv where "sale_value = marshal purchaseBody_fields sale_body"

definition sale :: bundle_t where "sale = sample sale_header sale_value"

definition freight_header :: header where
  "freight_header = invoice_header ''DOC-00000005'' ''FREIGHT_INVOICE'' ''OP-00000004''"

definition freight_body :: freightBody where
  "freight_body = \<lparr> fb_Carrier = Logistics, fb_Payer = Retailer, fb_Quantity = 1000000, fb_Total = 50000,
     fb_Currency = ''TRY'', fb_Tax = ''EXCLUDING_TAX'', fb_Digest = demo_tx, fb_MediaType = ''application/pdf'' \<rparr>"

definition freight_value :: jv where "freight_value = marshal freightBody_fields freight_body"

definition freight_invoice :: bundle_t where "freight_invoice = sample freight_header freight_value"

lemma bodies_ok: "purchaseBody_ok sale_body" "freightBody_ok freight_body" "fits freightBody_fields freight_body"
  by code_simp+

lemma sale_sample: "sample_ok sale_header sale_value"
proof -
  have "json_ok sale_value" unfolding sale_value_def by (rule purchase_body.marshal_ok [OF bodies_ok(1)])
  moreover have "header_well_formed sale_header" "header_ok sale_header" "fits header_fields sale_header"
    "h_Commitment sale_header = first_commitment" by code_simp+
  moreover have "envelope_ok \<lparr> env_Header = sale_header, env_Signature = zero_signature \<rparr>"
    "fits envelope_fields \<lparr> env_Header = sale_header, env_Signature = zero_signature \<rparr>" by code_simp+
  moreover have "width (JArr [sample_value sale_header sale_value]) \<le> 65536"
    "width (sample_value sale_header sale_value) \<le> 65536" "width sale_value \<le> 65536" by code_simp+
  moreover have "tokenValue 0 (json_sort (JArr [sample_value sale_header sale_value]))" by code_simp
  moreover have "tokenValue 0 (json_sort (sample_value sale_header sale_value))" "tokenValue 0 (json_sort sale_value)"
    by code_simp+
  ultimately show ?thesis unfolding sample_ok_def by blast
qed

lemma freight_sample: "sample_ok freight_header freight_value"
proof -
  have "json_ok freight_value" unfolding freight_value_def by (rule freight_body.marshal_ok [OF bodies_ok(2)])
  moreover have "header_well_formed freight_header" "header_ok freight_header" "fits header_fields freight_header"
    "h_Commitment freight_header = first_commitment" by code_simp+
  moreover have "envelope_ok \<lparr> env_Header = freight_header, env_Signature = zero_signature \<rparr>"
    "fits envelope_fields \<lparr> env_Header = freight_header, env_Signature = zero_signature \<rparr>" by code_simp+
  moreover have "width (JArr [sample_value freight_header freight_value]) \<le> 65536"
    "width (sample_value freight_header freight_value) \<le> 65536" "width freight_value \<le> 65536" by code_simp+
  moreover have "tokenValue 0 (json_sort (JArr [sample_value freight_header freight_value]))" by code_simp
  moreover have "tokenValue 0 (json_sort (sample_value freight_header freight_value))" "tokenValue 0 (json_sort freight_value)"
    by code_simp+
  ultimately show ?thesis unfolding sample_ok_def by blast
qed

subsection \<open>The state\<close>

definition deal_source :: sourceKey where
  "deal_source = first_source ''EFATURA'' [''FREIGHT_INVOICE'', ''PURCHASE_INVOICE'']"

definition deal_batch :: Batch where
  "deal_batch = demo_batch \<lparr> b_CustodianMSP := Logistics, b_State := InTransport, b_Version := 3 \<rparr>"

definition deal_records :: "(bytes \<times> bytes list \<times> bytes) list" where
  "deal_records =
     [(''configuration'', [''v1''], encoded (marshal configuration_fields demo_config)),
      (''sourceKey'', [''EFATURA'', ''KEY_1''], encoded (stored_source deal_source demo_tx)),
      (''batch'', [demo_id], encoded (marshal Batch_fields deal_batch)),
      (''batchEvidence'', [demo_id], encoded (marshal EvidenceRefs_fields demo_refs)),
      (''owner'', [Producer, demo_id], encoded (JStr demo_id)),
      (''state'', [InTransport, demo_id], encoded (JStr demo_id)),
      (''history'', [demo_id, ''0000000001''],
        encoded (marshal Receipt_fields (demo_receipt ''OP-00000001'' ''CreateBatch'' 1))),
      (''history'', [demo_id, ''0000000002''],
        encoded (marshal Receipt_fields (demo_receipt ''OP-00000002'' ''OfferPickup'' 2))),
      (''history'', [demo_id, ''0000000003''],
        encoded (marshal Receipt_fields (demo_receipt ''OP-00000003'' ''AcceptPickup'' 3 \<lparr> r_ActorMSP := Logistics \<rparr>))),
      (''operation'', [Producer, ''OP-00000001''],
        encoded (marshal Receipt_fields (demo_receipt ''OP-00000001'' ''CreateBatch'' 1))),
      (''operation'', [Producer, ''OP-00000002''],
        encoded (marshal Receipt_fields (demo_receipt ''OP-00000002'' ''OfferPickup'' 2))),
      (''operation'', [Logistics, ''OP-00000003''],
        encoded (marshal Receipt_fields (demo_receipt ''OP-00000003'' ''AcceptPickup'' 3 \<lparr> r_ActorMSP := Logistics \<rparr>))),
      (''document'', [''DOC-00000002''], encoded (marshal envelope_fields (bu_Envelope sale)))]"

definition deal :: memory where
  "deal = memory_of deal_records \<lparr> m_private :=
     [((trade, CHR 0x00 # segments [''documentOpening'', ''DOC-00000002'']), opening_of sale)] \<rparr>"

lemma deal_fresh: "memory_fresh deal"
  using memory_of_fresh [of deal_records] by (simp add: deal_def memory_fresh_def)

lemma deal_at: "at memory_stub (memory_view deal) = table deal_records"
proof -
  have "table_ok deal_records"
    by (simp add: table_ok_def deal_records_def demo_id_def segment_ok_def msp_defs state_defs)
  then have "at memory_stub (memory_view (memory_of deal_records)) = table deal_records"
    by (intro ext memory_of_at)
  moreover have "memory_view deal = memory_view (memory_of deal_records)" by (simp add: fun_eq_iff deal_def memory_view_def)
  ultimately show ?thesis by (simp only:)
qed

lemma deal_private:
  "at memory_stub (memory_private deal col) kind attrs
     = (if col = trade \<and> kind = ''documentOpening'' \<and> attrs = [''DOC-00000002''] then opening_of sale else [])"
proof (cases "list_all segment_ok (kind # attrs)")
  case True
  have ok: "list_all segment_ok [''documentOpening'', ''DOC-00000002'']" by (simp add: segment_ok_def)
  have key: "CreateCompositeKey memory_stub kind attrs = Some (CHR 0x00 # segments (kind # attrs))"
    using True by (simp add: memory_stub_def memory_key_def)
  have "segments [''documentOpening'', ''DOC-00000002''] = segments (kind # attrs)
      \<longleftrightarrow> kind = ''documentOpening'' \<and> attrs = [''DOC-00000002'']"
    using segments_inject [OF ok True] by auto
  then show ?thesis
    using key
    by (auto simp: at_def memory_private_def deal_def memory_of_def memory_empty_def lookup_def simp del: segments.simps)
next
  case False
  then have "CreateCompositeKey memory_stub kind attrs = None" by (auto simp: memory_stub_def memory_key_def)
  moreover have "\<not> (kind = ''documentOpening'' \<and> attrs = [''DOC-00000002''])" using False by (auto simp: segment_ok_def)
  ultimately show ?thesis by (auto simp: at_def)
qed

lemma deal_batch_ok: "Batch_ok deal_batch"
  using demo_batch_ok by (simp add: Batch_ok_def deal_batch_def) (simp add: msp_defs state_defs int_ok_def)

lemma padded_three: "format_padded 3 = ''0000000003''"
  by code_simp

lemma deal_here: "batch_here (table deal_records) demo_id deal_batch demo_refs"
proof -
  have history: "(\<exists>n. 1 \<le> n \<and> n \<le> 3 \<and> v = format_padded n) \<longleftrightarrow> v = ''0000000001'' \<or> v = ''0000000002'' \<or> v = ''0000000003''" for v
  proof -
    have "1 \<le> n \<and> n \<le> 3 \<longleftrightarrow> n = 1 \<or> n = 2 \<or> n = (3::int)" for n by auto
    then show ?thesis using padded_one_two padded_three by metis
  qed
  have pending: "pending_world (table deal_records) deal_batch"
    by (simp add: pending_world_def pending_state_def deal_batch_def state_defs table_simps deal_records_def)
  have index: "index_world (table deal_records) deal_batch"
    by (auto simp: index_world_def history deal_batch_def demo_batch_def table_simps deal_records_def)
  have shape: "batch_shape demo_id deal_batch"
    by (simp add: batch_shape_def deal_batch_def demo_batch_def demo_id_valid validState_def owner_at_def custodian_at_def)
      (simp add: state_defs)?
  have refs: "refs_shape demo_id (b_State deal_batch) demo_refs"
    by (simp add: refs_shape_def deal_batch_def demo_refs_def printable_code) (simp add: state_defs)?
  show ?thesis
    using deal_batch_ok demo_refs_ok shape refs pending index
    by (simp add: batch_here_def table_simps deal_records_def)
qed

lemma deal_consistent: "consistent (at memory_stub (memory_view deal))"
proof -
  have "no_batch (table deal_records) i" if "i \<noteq> demo_id" for i
    unfolding no_batch_def deal_records_def table_simps using that by simp
  then have batches: "no_batch (table deal_records) i \<or> (\<exists>b r. batch_here (table deal_records) i b r)" for i
    using deal_here by (cases "i = demo_id") auto
  have "table deal_records ''transfer'' [j] = []" for j by (simp add: table_simps deal_records_def)
  then have "world_ok (table deal_records)" using batches by (simp add: world_ok_def)
  moreover have "trust_world (table deal_records)"
    by (simp add: trust_world_def table_simps deal_records_def)
  ultimately show ?thesis by (simp add: deal_at consistent_def)
qed

subsection \<open>The sale on record\<close>

lemma deal_source_ok: "sourceKey_ok deal_source"
  by code_simp

lemma deal_key: "at memory_stub (memory_view deal) ''sourceKey'' [''EFATURA'', ''KEY_1''] = encoded (stored_source deal_source demo_tx)"
  by (simp add: deal_at table_simps deal_records_def)

lemma sale_verified: "verifyBundle (fabricLedger memory_stub) deal sale = Inr ()"
  unfolding sale_def
  by (rule sample_verified [OF deal_fresh sale_sample deal_key [unfolded deal_source_def] deal_source_ok [unfolded deal_source_def]])
    (simp_all add: sale_header_def invoice_header_def printable_code)

lemma sale_facts: "bundle_ok sale" "document_header sale = sale_header" "h_DocumentID sale_header = ''DOC-00000002''"
  using sample_fits [OF sale_sample] by (simp_all add: bundle_fits_def sale_def sale_header_def invoice_header_def)

lemma deal_anchored:
  "anchored (witnessed memory_stub memory_commit deal) (at memory_stub (memory_view deal)) (\<lambda>col. at memory_stub (memory_private deal col))"
proof -
  have "witnessed memory_stub memory_commit deal sale"
    unfolding witnessed_def by (intro exI [of _ deal] conjI reachable.start sale_verified)
  moreover have "opened (at memory_stub (memory_view deal)) trade ''DOC-00000002'' (opening_of sale) sale"
    unfolding opened_def deal_at using sale_facts
    by (simp add: kept_in_def table_simps deal_records_def) (simp add: sale_header_def invoice_header_def)
  ultimately show ?thesis by (auto simp: anchored_def deal_private)
qed

subsection \<open>The freight\<close>

definition freight_input :: freightInput where "freight_input = \<lparr> fi_CostID = ''CST-00000001'' \<rparr>"

definition freight_command :: Command where
  "freight_command = \<lparr> c_SchemaVersion = ''agrochain.command.v1'', c_OperationID = ''OP-00000004'',
     c_BatchID = demo_id, c_ExpectedVersion = 3, c_Command = ''RecordFreightCost'',
     c_Payload = encoded (marshal freightInput_fields freight_input) \<rparr>"

definition freight_evidence :: bytes where "freight_evidence = encoded (bundles_value [freight_invoice])"

definition freight_salt :: bytes where "freight_salt = encoded (JStr first_salt)"

definition freight_invocation :: invocation where
  "freight_invocation = first_context Logistics ''carrier'' ''RecordFreightCost''
     (encoded (marshal Command_fields freight_command)) (freight_data freight_evidence freight_salt)"

lemma freight_input_facts: "freightInput_ok freight_input" "fits freightInput_fields freight_input"
  by code_simp+

lemma freight_input_read: "exact freightInput_fields (c_Payload freight_command) freightInput_zero = Inr freight_input"
  unfolding freight_command_def Command.simps
  by (rule freight_input.exact_fits) (use freight_input_facts in \<open>auto simp: freightInput_fields_def\<close>)

lemma freight_payload: "payload_of freightInput_fields freightInput_zero freight_command = freight_input"
  using decode_Unmarshal [OF freight_input_read [unfolded exact_def]] by (simp add: payload_of_def)

lemma freight_payload_valid: "validatePayload freight_command = Inr ()"
proof -
  have "decode freightInput_fields (c_Payload freight_command) freightInput_zero [''costId''] = Inr freight_input"
    using freight_input_read by (simp add: exact_def freightInput_fields_def)
  moreover have "validID ''CST-00000001'' ''CST''" by code_simp
  ultimately show ?thesis by (simp add: validatePayload_def freight_command_def freight_input_def)
qed

lemma freight_command_ok: "Command_ok freight_command"
  using raw_encoded(1) [OF freight_input.marshal_ok [OF freight_input_facts(1)]]
  by (simp add: Command_ok_def int_ok_def freight_command_def demo_id_def)

definition freight_command_value :: jv where
  "freight_command_value = JObj
     [(''schemaVersion'', JStr ''agrochain.command.v1''), (''operationId'', JStr ''OP-00000004''),
      (''batchId'', JStr demo_id), (''expectedVersion'', JNum (FormatInt 3)), (''command'', JStr ''RecordFreightCost''),
      (''payload'', json_sort (marshal freightInput_fields freight_input))]"

lemma freight_command_raw: "marshal Command_fields freight_command = freight_command_value"
  using raw_encoded(2) [OF freight_input.marshal_ok [OF freight_input_facts(1)]]
  unfolding marshal_def [of Command_fields]
  by (simp add: Command_fields_def omitted_def freight_command_def raw_codec_def string_codec_def int_codec_def
      freight_command_value_def del: json_sort.simps json_print.simps)

lemma freight_command_value_facts: "width freight_command_value \<le> 65536" "tokenValue 0 (json_sort freight_command_value)"
  by code_simp+

lemma freight_command_parsed:
  "parseCommand ''RecordFreightCost'' (encoded (marshal Command_fields freight_command)) = Inr freight_command"
proof -
  have "validID ''OP-00000004'' ''OP''" by code_simp
  then show ?thesis
    using parse_encoded [of freight_command] freight_command_ok freight_command_value_facts freight_payload_valid demo_id_valid
    by (simp add: freight_command_raw) (simp add: freight_command_def)
qed

lemma freight_salt_read: "strictJSON freight_salt = Inr (JStr first_salt)"
proof -
  have ok: "json_ok (JStr first_salt)" using hexID_text [OF first_salt_hex(1)] by simp
  have "width (JStr first_salt) \<le> 65536" "tokenValue 0 (json_sort (JStr first_salt))" by code_simp+
  then show ?thesis
    unfolding freight_salt_def using strictJSON_encoded [OF ok encoded_len [OF ok]] by (simp del: json_print.simps)
qed

definition freight_context :: execution where
  "freight_context = \<lparr> x_Actor = Logistics, x_Role = ''carrier'', x_TxID = demo_tx,
     x_Time = \<lparr> tm_Seconds = FormatInt 1750000000, tm_Nanos = 0 \<rparr> \<rparr>"

lemma deal_config: "getConfig (fabricLedger memory_stub) deal = Inr demo_config"
proof -
  have ok: "configuration_ok demo_config" by code_simp
  obtain k where k: "CreateCompositeKey (fabricLedger memory_stub) ''configuration'' [''v1''] = Some k"
    by (simp add: fabricLedger_def memory_stub_def memory_key_def segment_ok_def)
  have "at (fabricLedger memory_stub) (memory_view deal) ''configuration'' [''v1'']
      = encoded (marshal configuration_fields demo_config)"
    by (simp add: deal_at table_simps deal_records_def)
  then have v: "memory_view deal k = encoded (marshal configuration_fields demo_config)"
    using k memory.fabric.at_key by metis
  have config: "Unmarshal configuration_fields (encoded (marshal configuration_fields demo_config)) configuration_zero
      = Some demo_config"
    by (rule configuration.Unmarshal_print [OF ok]) (auto simp: configuration_fields_def)
  have "load (fabricLedger memory_stub) deal k (struct_codec configuration_fields) configuration_zero = Inr (True, demo_config)"
    by (rule reliable_memory.reliable.load_present [OF deal_fresh]) (use v config in simp_all)
  then show ?thesis using k by (simp add: getConfig_def key_def)
qed

lemma freight_proposed:
  "proposes memory_stub deal (at memory_stub (memory_view deal)) freight_invocation freight_context
     (freight_data freight_evidence freight_salt) freight_command"
proof -
  have "at memory_stub (memory_view deal) ''operation'' [Logistics, ''OP-00000004''] = []"
    by (simp add: deal_at table_simps deal_records_def)
  then show ?thesis
    using deal_config freight_command_parsed first_execution [of Logistics "''carrier''"]
    by (simp add: proposes_def freight_invocation_def freight_context_def first_context_def isMutation_def
        expected_caller_def caller_def) (simp add: freight_command_def)
qed

lemma freight_read: "decodeBundles freight_evidence = Inr [freight_invoice]"
  unfolding freight_evidence_def freight_invoice_def by (rule sample_read [OF freight_sample])

lemma freight_usable:
  "usable (fabricLedger memory_stub) deal (at memory_stub (memory_view deal)) freight_command freight_invoice"
proof -
  have "verifyBundle (fabricLedger memory_stub) deal freight_invoice = Inr ()"
    unfolding freight_invoice_def
    by (rule sample_verified [OF deal_fresh freight_sample deal_key [unfolded deal_source_def] deal_source_ok [unfolded deal_source_def]])
      (simp_all add: freight_header_def invoice_header_def printable_code)
  then show ?thesis
    by (simp add: usable_def unused_def use_records_def deal_at table_simps deal_records_def freight_invoice_def)
      (simp add: freight_header_def invoice_header_def freight_command_def)
qed

lemma freight_invoiced: "invoices deal_batch freight_invoice"
proof -
  have "exact freightBody_fields (bu_Body freight_invoice) freightBody_zero = Inr freight_body"
    unfolding freight_invoice_def sample_simps freight_value_def
    by (rule freight_body.exact_fits) (use bodies_ok in \<open>auto simp: freightBody_fields_def\<close>)
  then show ?thesis
    using demo_tx_hex
    by (simp add: invoices_def freight_invoice_def media_def)
      (simp add: freight_header_def invoice_header_def freight_body_def deal_batch_def demo_batch_def)
qed

text \<open>What is left of the conditions under which a freight is committed.\<close>

lemma deal_ordered: "world_ok (at memory_stub (memory_view deal))"
  using deal_consistent by (simp add: consistent_def)

lemma freight_names: "c_BatchID freight_command = demo_id" "inv_Function freight_invocation = ''RecordFreightCost''"
  "document_header freight_invoice = freight_header" "h_DocumentID freight_header = ''DOC-00000005''"
  by (simp_all add: freight_command_def freight_invocation_def first_context_def freight_invoice_def
      freight_header_def invoice_header_def)

lemma deal_batch_here: "batch_here (at memory_stub (memory_view deal)) (c_BatchID freight_command) deal_batch demo_refs"
  unfolding deal_at freight_names by (rule deal_here)

lemma freight_ready:
  "b_State deal_batch = InTransport \<or> b_State deal_batch = DeliveryPending" "e_FreightCostID demo_refs = []"
  "c_ExpectedVersion freight_command = b_Version deal_batch" "b_Version deal_batch < 2147483647"
  "freight_input = payload_of freightInput_fields freightInput_zero freight_command"
  "at memory_stub (memory_view deal) ''costReference'' [fi_CostID freight_input] = []"
  by (simp_all add: freight_payload deal_at table_simps deal_records_def)
    (simp_all add: deal_batch_def demo_refs_def freight_command_def)

lemmas freight_conditions = reliable_memory.reliable_stub_axioms deal_fresh deal_ordered freight_proposed
  freight_names(2) deal_batch_here freight_ready(1-4) freight_read freight_usable freight_invoiced freight_salt_read
  first_salt_hex(1) freight_ready(5,6)

lemma freight_recorded:
  "\<exists>bs s'. Invoke memory_stub freight_invocation deal = (Success bs, s')
     \<and> at memory_stub (memory_private s' freight) ''documentOpening'' [''DOC-00000005''] \<noteq> []"
proof -
  have "bundle_ok freight_invoice"
    using sample_fits [OF freight_sample] by (simp add: bundle_fits_def freight_invoice_def)
  then have "opening_ok \<lparr> op_Body = bu_Body freight_invoice, op_Salt = bu_Salt freight_invoice \<rparr>"
    by (simp add: bundle_ok_def opening_ok_def)
  then have "opening_of freight_invoice \<noteq> []" unfolding opening_of_def by (rule encoded_nonempty [OF opening_q.marshal_ok])
  then show ?thesis
    using reliable_stub.freight_commits [OF freight_conditions] unfolding freight_names by metis
qed

subsection \<open>The sale read back\<close>

text \<open>The retailer asks for the purchase and is answered.\<close>

definition purchase_lookup :: invocation where
  "purchase_lookup = first_context Retailer ''retailer'' ''GetPurchase'' demo_id []"

lemma purchase_named: "inv_Function purchase_lookup = ''GetPurchase''"
  by (simp add: purchase_lookup_def first_context_def)

lemma deal_load:
  assumes "list_all printable kind" "list_all (list_all printable) attrs"
    and "table deal_records kind attrs \<noteq> []" "decoded cd dst (table deal_records kind attrs) = Some r"
  shows "\<exists>k. key (fabricLedger memory_stub) kind attrs = Inr k \<and> load (fabricLedger memory_stub) deal k cd dst = Inr (True, r)"
  by (rule reliable_memory.reliable.lookup_record [OF deal_fresh assms(1,2), of cd dst r]) (use assms(3,4) in \<open>auto simp: deal_at\<close>)

lemma deal_opening:
  "\<exists>k. key (fabricLedger memory_stub) ''documentOpening'' [''DOC-00000002''] = Inr k
     \<and> privateLoad \<lparr> p_read = GetPrivateData memory_stub, p_write = PutPrivateData memory_stub \<rparr> deal trade k
         (struct_codec opening_fields) opening_zero = Inr \<lparr> op_Body = bu_Body sale, op_Salt = bu_Salt sale \<rparr>"
proof -
  let ?k = "CHR 0x00 # segments [''documentOpening'', ''DOC-00000002'']"
  have "opening_ok \<lparr> op_Body = bu_Body sale, op_Salt = bu_Salt sale \<rparr>"
    using sale_facts(1) by (simp add: bundle_ok_def opening_ok_def)
  then have "opening_of sale \<noteq> []" unfolding opening_of_def by (rule encoded_nonempty [OF opening_q.marshal_ok])
  moreover have "decoded (struct_codec opening_fields) opening_zero (opening_of sale)
      = Some \<lparr> op_Body = bu_Body sale, op_Salt = bu_Salt sale \<rparr>"
    using opening_decoded [OF sale_facts(1)] by simp
  moreover have "lookup (m_private deal) (trade, ?k) = opening_of sale" by (simp add: deal_def lookup_def)
  ultimately have "privateLoad \<lparr> p_read = GetPrivateData memory_stub, p_write = PutPrivateData memory_stub \<rparr> deal trade ?k
      (struct_codec opening_fields) opening_zero = Inr \<lparr> op_Body = bu_Body sale, op_Salt = bu_Salt sale \<rparr>"
    by (simp add: privateLoad_def memory_stub_def len_def decoded_def [symmetric] del: segments.simps)
  moreover have "key (fabricLedger memory_stub) ''documentOpening'' [''DOC-00000002''] = Inr ?k"
    by (simp add: key_def fabricLedger_def memory_stub_def memory_key_def segment_ok_def)
  ultimately show ?thesis by blast
qed

lemma purchase_found: "Invoke memory_stub purchase_lookup deal = (Success (encoded (marshal bundle_fields sale)), deal)"
proof -
  let ?L = "fabricLedger memory_stub" and ?P = "\<lparr> p_read = GetPrivateData memory_stub, p_write = PutPrivateData memory_stub \<rparr>"
  let ?x = "\<lparr> x_Actor = Retailer, x_Role = ''retailer'', x_TxID = [], x_Time = TxTime_zero \<rparr>"
  have records: "table deal_records ''batch'' [demo_id] = encoded (marshal Batch_fields deal_batch)"
    "table deal_records ''batchEvidence'' [demo_id] = encoded (marshal EvidenceRefs_fields demo_refs)"
    "table deal_records ''document'' [''DOC-00000002''] = encoded (marshal envelope_fields (bu_Envelope sale))"
    by (simp_all add: table_simps deal_records_def)
  have id: "list_all printable demo_id" by (rule validID_printable [OF demo_id_valid])
  have ok: "envelope_ok (bu_Envelope sale)" "raw_ok (bu_Body sale)"
    using sale_facts(1) by (simp_all add: bundle_ok_def)
  obtain bk where bk: "key ?L ''batch'' [demo_id] = Inr bk"
    "load ?L deal bk (struct_codec Batch_fields) Batch_zero = Inr (True, deal_batch)"
    using deal_load [of "''batch''" "[demo_id]" "struct_codec Batch_fields" Batch_zero deal_batch] records(1)
      batch_decoded [OF deal_batch_ok] encoded_nonempty [OF batch.marshal_ok [OF deal_batch_ok]] id
    by (auto simp: printable_code)
  have zero: "EvidenceRefs_zero = EvidenceRefs_zero \<lparr> e_SchemaVersion := [], e_BatchID := [] \<rparr>"
    by (simp add: EvidenceRefs_zero_def)
  obtain rk where rk: "key ?L ''batchEvidence'' [demo_id] = Inr rk"
    "load ?L deal rk (struct_codec EvidenceRefs_fields) EvidenceRefs_zero = Inr (True, demo_refs)"
    using deal_load [of "''batchEvidence''" "[demo_id]" "struct_codec EvidenceRefs_fields" EvidenceRefs_zero demo_refs]
      records(2) refs_decoded [OF demo_refs_ok, of "[]" "[]"] zero
      encoded_nonempty [OF evidence_refs.marshal_ok [OF demo_refs_ok]] id
    by (auto simp: printable_code)
  obtain dk where dk: "key ?L ''document'' [''DOC-00000002''] = Inr dk"
    "load ?L deal dk (struct_codec envelope_fields) envelope_zero = Inr (True, bu_Envelope sale)"
    using deal_load [of "''document''" "[''DOC-00000002'']" "struct_codec envelope_fields" envelope_zero "bu_Envelope sale"]
      records(3) envelope_read [OF ok(1)] encoded_nonempty [OF envelope.marshal_ok [OF ok(1)]]
    by (auto simp: printable_code)
  obtain v where v: "raw_value (bu_Body sale) = Some v" using raw_read [OF ok(2)] by blast
  have same: "marshal bundle_fields \<lparr> bu_Envelope = bu_Envelope sale, bu_Body = bu_Body sale, bu_Salt = bu_Salt sale \<rparr>
      = marshal bundle_fields sale"
    by (rule arg_cong [where f = "marshal bundle_fields"]) (cases sale, simp)
  have "privateQuery ?L ?P deal Retailer ''retailer'' ''GetPurchase'' demo_id = Inr (Some (marshal bundle_fields sale))"
    using bk rk dk deal_opening v demo_id_valid same
    by (auto simp: privateQuery_def Let_def mayRead_def marshal_bundle_def demo_refs_def msp_defs)
  then have "dispatch_private ?L deal Retailer ''retailer'' ''GetPurchase'' [demo_id] [\<lparr> pr_x = ?x, pr_transient = [] \<rparr>]
      = Inr (Some (marshal bundle_fields sale))"
    by (simp add: dispatch_private_def len_def fabricLedger_def)
  moreover have "authorize Retailer ''retailer'' ''GetPurchase'' = Inr ()" by code_simp
  ultimately have "dispatch ?L Retailer ''retailer'' ''GetPurchase'' [demo_id] [\<lparr> pr_x = ?x, pr_transient = [] \<rparr>] deal
      = (Inr (Some (marshal bundle_fields sale)), deal)"
    by (simp add: dispatch_unfold)
  then show ?thesis
    by (simp add: Invoke_def purchase_lookup_def first_context_def caller_def invoke_context_def isMutation_def
        reply_def canonical_def)
qed

end
