(* ===== verification/Scoring.thy ===== *)
theory Scoring
  imports Private
begin

text \<open>
  What the numbers of the chaincode mean: the price score is the exact floor and the exact
  comparison on unbounded integers, the purchase check is exact integer arithmetic, and the
  records an evaluation or a review writes are computed from committed inputs only.
\<close>

subsection \<open>Machine arithmetic\<close>

lemma wrap64_id: "- (2 ^ 63) \<le> i \<Longrightarrow> i < 2 ^ 63 \<Longrightarrow> wrap64 i = i"
  by (simp add: wrap64_def)

text \<open>Go truncates a quotient; subtracting one for a negative inexact one gives the floor.\<close>

lemma truncated_floor:
  fixes n d :: int
  assumes "0 < d"
  shows "(if n < 0 \<and> n smod d \<noteq> 0 then n sdiv d - 1 else n sdiv d) = n div d"
proof (cases "n < 0")
  case True
  define m where "m = - n"
  have m: "n = - m" "0 < m" using True by (simp_all add: m_def)
  have quotient: "n sdiv d = - (m div d)" "n smod d = - (m mod d)"
    unfolding m(1) using m assms
    by (simp_all add: signed_divide_int_def signed_modulo_int_def sgn_if)
  show ?thesis
    unfolding quotient using m assms by (simp add: zdiv_zminus1_eq_if)
next
  case False
  then show ?thesis
    using assms by (cases "n = 0") (simp_all add: signed_divide_int_def signed_modulo_int_def)
qed

lemma score_product:
  fixes purchase retail :: int
  assumes "0 < purchase" "purchase \<le> 1000000000" "0 \<le> retail" "retail \<le> 1000000000"
  shows "- 10000000000000 \<le> (retail - purchase) * 10000" "(retail - purchase) * 10000 \<le> 10000000000000"
  using assms by simp_all

lemma threshold_product:
  fixes purchase threshold :: int
  assumes "0 < purchase" "purchase \<le> 1000000000" "0 \<le> threshold" "threshold \<le> 100000"
  shows "0 \<le> purchase * threshold" "purchase * threshold \<le> 100000000000000"
proof -
  show "0 \<le> purchase * threshold" using assms by simp
  have "purchase * threshold \<le> 1000000000 * 100000" by (rule mult_mono) (use assms in simp_all)
  then show "purchase * threshold \<le> 100000000000000" by simp
qed

lemma div_range:
  fixes n d k :: int
  assumes "0 < d" "- k \<le> n" "n \<le> k" "0 \<le> k"
  shows "- k \<le> n div d" "n div d \<le> k"
proof -
  have "k * 1 \<le> k * d" by (rule mult_left_mono) (use assms in simp_all)
  then have "- k * d \<le> n" "n \<le> k * d" using assms by simp_all
  then have "(- k * d) div d \<le> n div d" "n div d \<le> (k * d) div d"
    using assms(1) by (simp_all only: zdiv_mono1)
  moreover have "(- k * d) div d = - k" "(k * d) div d = k"
    using assms(1) by (simp_all only: nonzero_mult_div_cancel_right)
  ultimately show "- k \<le> n div d" "n div d \<le> k" by (simp_all only:)
qed

lemma priceScore_floor:
  "priceScore purchase retail threshold =
     (if purchase \<le> 0 \<or> purchase > 1000000000 \<or> retail < 0 \<or> retail > 1000000000
      then Inl (fail ''INVALID_MONEY'')
      else if threshold < 0 \<or> threshold > 100000 then Inl (fail ''POLICY_MISMATCH'')
      else let above = (retail - purchase) * 10000 > purchase * threshold
           in Inr \<lparr> sc_Increase = (retail - purchase) * 10000 div purchase,
                    sc_Classification = (if above then ''REVIEW_REQUIRED'' else ''NO_SIGNAL''),
                    sc_Reason = (if above then ''ABOVE_PILOT_THRESHOLD''
                                 else ''WITHIN_PILOT_THRESHOLD'') \<rparr>)"
proof (cases "purchase \<le> 0 \<or> purchase > 1000000000 \<or> retail < 0 \<or> retail > 1000000000
    \<or> threshold < 0 \<or> threshold > 100000")
  case True
  then show ?thesis by (auto simp: priceScore_def)
next
  case False
  then have in_range: "0 < purchase" "purchase \<le> 1000000000" "0 \<le> retail" "retail \<le> 1000000000"
    "0 \<le> threshold" "threshold \<le> 100000"
    by simp_all
  define n where "n = (retail - purchase) * 10000"
  have n: "- 10000000000000 \<le> n" "n \<le> 10000000000000"
    using score_product [OF in_range(1-4)] by (simp_all add: n_def)
  have "wrap64 (retail - purchase) = retail - purchase" by (rule wrap64_id) (use in_range in simp_all)
  moreover have "wrap64 n = n" by (rule wrap64_id) (use n in simp_all)
  ultimately have numerator: "wrap64 (wrap64 (retail - purchase) * 10000) = n" by (simp add: n_def)
  have product: "wrap64 (purchase * threshold) = purchase * threshold"
    by (rule wrap64_id) (use threshold_product [OF in_range(1,2,5,6)] in simp_all)
  have quotient: "- 10000000000000 \<le> n div purchase" "n div purchase \<le> 10000000000000"
    by (rule div_range [OF in_range(1) n], simp)+
  note floor = truncated_floor [OF in_range(1), of n]
  have "(if n < 0 \<and> n smod purchase \<noteq> 0 then wrap64 (n sdiv purchase - 1) else n sdiv purchase)
      = n div purchase"
  proof (cases "n < 0 \<and> n smod purchase \<noteq> 0")
    case True
    then have "n sdiv purchase - 1 = n div purchase" using floor by simp
    moreover have "wrap64 (n div purchase) = n div purchase"
      by (rule wrap64_id) (use quotient in simp_all)
    ultimately show ?thesis using True by simp
  next
    case False
    then show ?thesis using floor by (simp only: if_False)
  qed
  then show ?thesis
    using False unfolding priceScore_def numerator product Let_def n_def [symmetric] by simp
qed

text \<open>
  C30.  The score of a report is exact: the increase in basis points is the floor of the true
  ratio and the classification compares the unrounded ratio with the threshold, as if no
  machine integer could overflow; prices or a threshold out of range are refused.
\<close>

theorem priceScore_exact:
  "priceScore purchase retail threshold =
     (if purchase \<le> 0 \<or> purchase > 1000000000 \<or> retail < 0 \<or> retail > 1000000000
      then Inl (fail ''INVALID_MONEY'')
      else if threshold < 0 \<or> threshold > 100000 then Inl (fail ''POLICY_MISMATCH'')
      else let above = (retail - purchase) * 10000 > purchase * threshold
           in Inr \<lparr> sc_Increase = (retail - purchase) * 10000 div purchase,
                    sc_Classification = (if above then ''REVIEW_REQUIRED'' else ''NO_SIGNAL''),
                    sc_Reason = (if above then ''ABOVE_PILOT_THRESHOLD''
                                 else ''WITHIN_PILOT_THRESHOLD'') \<rparr>)"
  by (rule priceScore_floor)

subsection \<open>Purchases\<close>

text \<open>
  C31.  A purchase is accepted exactly when its quantity, price and total are in range, in lira
  without tax, and the total is the price of the quantity, as an equation of integers: neither
  product of the check can overflow.
\<close>

theorem validPurchase_exact:
  "validPurchase p \<longleftrightarrow>
     v_Quantity p \<in> {1..100000000} \<and> v_PurchasePrice p \<in> {1..1000000000} \<and> v_PurchaseTotal p \<in> {1..1000000000000}
   \<and> v_Currency p = ''TRY'' \<and> v_TaxBasis p = ''EXCLUDING_TAX''
   \<and> v_PurchasePrice p * v_Quantity p = v_PurchaseTotal p * 1000"
proof -
  have "wrap64 (a * q) = a * q" if "0 < a" "a \<le> 1000000000" "0 < q" "q \<le> 100000000" for a q :: int
  proof (rule wrap64_id)
    have "a * q \<le> 1000000000 * 100000000" using that by (intro mult_mono) simp_all
    moreover have "0 < a * q" using that by simp
    ultimately show "- (2 ^ 63) \<le> a * q" "a * q < 2 ^ 63" by simp_all
  qed
  moreover have "wrap64 (t * 1000) = t * 1000" if "0 < t" "t \<le> 1000000000000" for t :: int
    by (rule wrap64_id) (use that in simp_all)
  ultimately show ?thesis by (auto simp: validPurchase_def)
qed

end
