(* ===== verification/Review.thy ===== *)
theory Review
  imports Scoring
begin

text \<open>
  Price evaluation and review: what an accepted evaluation has computed, and the states its
  review goes through.
\<close>

text \<open>
  The anomaly record of a successful evaluation holds the exact floor and threshold comparison of the
  prices it loaded under the configured threshold, and the result the oracle proposed was that same
  result.  \<open>Pricing\<close> follows the record to the collection.
\<close>

lemma evaluation_recomputed:
  "case analysis_evaluate L P s t x c b refs p of Inl e \<Rightarrow> True
   | Inr (a, v) \<Rightarrow> \<exists>cfg purchase report cost. getConfig L s = Inr cfg
      \<and> load_prices L P s refs = Inr (purchase, report, cost)
      \<and> evaluation_binding b refs purchase report cost \<and> rr_PolicyID report = cf_PolicyID cfg
      \<and> ai_ReportID p = e_RetailReportID refs
      \<and> (let buy = pb_Price purchase; sell = rt_Price (rr_input report); threshold = cf_ThresholdBps cfg;
             above = (sell - buy) * 10000 > buy * threshold
         in 0 < buy \<and> buy \<le> 1000000000 \<and> 0 \<le> sell \<and> sell \<le> 1000000000 \<and> 0 \<le> threshold \<and> threshold \<le> 100000
          \<and> ar_Purchase a = buy \<and> ar_Retail a = sell \<and> ar_Threshold a = threshold
          \<and> ar_Freight a = cr_Total cost \<and> ar_PolicyID a = cf_PolicyID cfg
          \<and> sc_Increase (ar_score a) = (sell - buy) * 10000 div buy
          \<and> sc_Classification (ar_score a) = (if above then ''REVIEW_REQUIRED'' else ''NO_SIGNAL'')
          \<and> ar_ReviewState a = (if above then ''OPEN'' else ''NOT_REQUIRED'')
          \<and> exact score_fields (entry_of t ''proposedResult'') score_zero = Inr (ar_score a))"
proof (cases "analysis_evaluate L P s t x c b refs p")
  case (Inr q)
  obtain a v where q: "q = (a, v)" by force
  from Inr obtain cfg purchase report cost r where
    e: "ai_ReportID p = e_RetailReportID refs" "getConfig L s = Inr cfg"
      "load_prices L P s refs = Inr (purchase, report, cost)"
      "evaluation_binding b refs purchase report cost" "rr_PolicyID report = cf_PolicyID cfg"
      "exact score_fields (entry_of t ''proposedResult'') score_zero = Inr r"
    and score: "priceScore (pb_Price purchase) (rt_Price (rr_input report)) (cf_ThresholdBps cfg) = Inr r"
    and a: "ar_Purchase a = pb_Price purchase" "ar_Retail a = rt_Price (rr_input report)"
      "ar_Threshold a = cf_ThresholdBps cfg" "ar_score a = r" "ar_Freight a = cr_Total cost" "ar_PolicyID a = cf_PolicyID cfg"
      "ar_ReviewState a = (if sc_Classification r = ''REVIEW_REQUIRED'' then ''OPEN'' else ''NOT_REQUIRED'')"
    unfolding q by (auto simp: analysis_evaluate_def Let_def rbind_eq_Inr if_Inl_eq_Inr)
  show ?thesis
    unfolding Inr q sum.case prod.case Let_def
    by (intro exI [of _ cfg] exI [of _ purchase] exI [of _ report] exI [of _ cost])
      (use score in \<open>auto simp: e a priceScore_floor Let_def split: if_splits\<close>)
qed simp

text \<open>
  C29.  A review moves one step: \<open>OpenReview\<close> takes an open anomaly into review, \<open>ResolveReview\<close>
  resolves one that is in review, both only where the price was flagged, under a new salt, and
  nothing else of the anomaly record changes.
\<close>

theorem review_machine:
  "case analysis_review L P s t x c b p of Inl e \<Rightarrow> True
   | Inr (a', v) \<Rightarrow> \<exists>a k. CreateCompositeKey L ''anomaly'' [ai_AnomalyID p] = Some k
      \<and> privateLoad P s audit k (struct_codec anomalyRecord_fields) anomalyRecord_zero = Inr a
      \<and> sc_Classification (ar_score a) = ''REVIEW_REQUIRED''
      \<and> (ar_ReviewState a, ar_ReviewState a') =
          (if c_Command c = ''OpenReview'' then (''OPEN'', ''IN_REVIEW'') else (''IN_REVIEW'', ''RESOLVED''))
      \<and> ar_Salt a' \<noteq> ar_Salt a
      \<and> a' = a \<lparr> ar_ReviewState := ar_ReviewState a', ar_Salt := ar_Salt a' \<rparr>"
proof (cases "analysis_review L P s t x c b p")
  case (Inr q)
  obtain a' v where q: "q = (a', v)" by force
  from Inr show ?thesis unfolding q
    by (auto simp: analysis_review_def review_transition_def Let_def rbind_eq_Inr key_eq_Inr split: if_splits)
qed simp

end
