(* ===== verification/Pricing.thy ===== *)
theory Pricing
  imports Vault Creation Review
begin

text \<open>
  What an accepted \<open>EvaluatePrice\<close> leaves on the channel: one anomaly record in the collection of the
  regulator and the retailer, and two public references to it.
\<close>

subsection \<open>The committed prices\<close>

text \<open>The invoice, the report and the cost that the evidence of a batch names, as the collections hold them.\<close>

definition prices_committed ::
  "(bytes \<Rightarrow> public) \<Rightarrow> EvidenceRefs \<Rightarrow> purchaseBody \<Rightarrow> retailRecord \<Rightarrow> costRecord \<Rightarrow> bool" where
  "prices_committed g refs purchase report cost \<longleftrightarrow>
     (\<exists>buy. Unmarshal opening_fields (g trade ''documentOpening'' [e_PurchaseDocumentID refs]) opening_zero = Some buy
        \<and> exact purchaseBody_fields (op_Body buy) purchaseBody_zero = Inr purchase)
   \<and> Unmarshal retailRecord_fields (g audit ''report'' [e_RetailReportID refs]) retailRecord_zero = Some report
   \<and> Unmarshal costRecord_fields (g freight ''cost'' [e_FreightCostID refs]) costRecord_zero = Some cost"

context ledger_store begin

lemma privateLoad_committed:
  assumes "fresh s" "l_private L = Some P" "privateLoad P s col k (struct_codec fs) z = Inr r"
  shows "Unmarshal fs (private_view s col k) z = Some r"
proof -
  obtain b where b: "p_read P s col k = Some b" "b \<noteq> []" "Unmarshal fs b z = Some r"
    using assms(3)
    by (auto simp: privateLoad_def of_option_eq_Inr len_def struct_codec_def Unmarshal_def split: option.splits if_splits)
  then show ?thesis using private_read [OF assms(1,2) b(1,2)] by simp
qed

lemma load_prices_committed:
  assumes s: "fresh s" "l_private L = Some P" and run: "load_prices L P s refs = Inr (purchase, report, cost)"
  shows "prices_committed (\<lambda>col. at L (private_view s col)) refs purchase report cost"
proof -
  obtain k1 buy k2 k3 where
    "CreateCompositeKey L ''documentOpening'' [e_PurchaseDocumentID refs] = Some k1"
    "privateLoad P s trade k1 (struct_codec opening_fields) opening_zero = Inr buy"
    "exact purchaseBody_fields (op_Body buy) purchaseBody_zero = Inr purchase"
    "CreateCompositeKey L ''report'' [e_RetailReportID refs] = Some k2"
    "privateLoad P s audit k2 (struct_codec retailRecord_fields) retailRecord_zero = Inr report"
    "CreateCompositeKey L ''cost'' [e_FreightCostID refs] = Some k3"
    "privateLoad P s freight k3 (struct_codec costRecord_fields) costRecord_zero = Inr cost"
    using run by (auto simp: load_prices_def rbind_eq_Inr key_eq_Inr)
  then show ?thesis by (auto simp: prices_committed_def at_key privateLoad_committed [OF s])
qed

end

subsection \<open>What is written\<close>

definition evaluation_reference :: "Batch \<Rightarrow> analysisInput \<Rightarrow> execution \<Rightarrow> evaluationReference" where
  "evaluation_reference b p x = \<lparr> er_SchemaVersion = ''agrochain.evaluation-reference.v1'', er_BatchID = b_BatchID b,
     er_ReportID = ai_ReportID p, er_AnomalyID = ai_AnomalyID p, er_TxID = x_TxID x \<rparr>"

lemma evaluate_writes:
  assumes "analysis_evaluate L P s t x c b refs p = Inr (a, v)"
  obtains k1 k2 where "CreateCompositeKey L ''evaluation'' [b_BatchID b] = Some k1"
    "CreateCompositeKey L ''anomalyReference'' [ai_AnomalyID p] = Some k2"
    "absent L s k1 ''ANOMALY_ALREADY_EXISTS'' = Inr ()" "absent L s k2 ''ANOMALY_ALREADY_EXISTS'' = Inr ()"
    "v_Private v = []" "v_Public v =
       put_entry k2 (Some (encoded (marshal evaluationReference_fields (evaluation_reference b p x))))
         (put_entry k1 (Some (encoded (marshal evaluationReference_fields (evaluation_reference b p x)))) [])"
    "ar_AnomalyID a = ai_AnomalyID p" "ar_BatchID a = b_BatchID b" "ar_ReportID a = ai_ReportID p"
    "ar_Quantity a = b_QuantityGrams b" "ar_OperationID a = c_OperationID c" "ar_TxID a = x_TxID x"
  using assms
  by (auto simp: analysis_evaluate_def Let_def rbind_eq_Inr key_eq_Inr verified_zero_def evaluation_reference_def
      split: if_splits simp del: put_entry.simps)

lemma analysis_evaluated:
  assumes "analysis L P s t x c b refs = Inr v" "c_Command c = ''EvaluatePrice''"
    and "p = payload_of analysisInput_fields analysisInput_zero c"
  obtains a v0 k where "b_State b = RetailReported" "analysis_evaluate L P s t x c b refs p = Inr (a, v0)"
    "CreateCompositeKey L ''anomaly'' [ai_AnomalyID p] = Some k" "v_Public v = v_Public v0"
    "v_Private v = v_Private v0 @ [\<lparr> pw_Collection = audit, pw_Key = k, pw_Value = encoded (marshal anomalyRecord_fields a) \<rparr>]"
proof -
  obtain a v0 k where a: "b_State b = RetailReported" "analysis_evaluate L P s t x c b refs p = Inr (a, v0)"
    "CreateCompositeKey L ''anomaly'' [ai_AnomalyID p] = Some k"
    and add: "add_private v0 audit k (Some (marshal anomalyRecord_fields a)) = Inr v"
    using assms by (auto simp: analysis_def Let_def rbind_eq_Inr key_eq_Inr split: if_splits)
  show thesis using that [OF a] add_private_public [OF add] add_private_private [OF add] by simp
qed

context shim_stub begin

lemma evaluation_written:
  assumes s: "fresh s" and world: "world_ok (at stub (view s))"
    and run: "Invoke stub i s = (Success bs, s')" and fn: "inv_Function i = ''EvaluatePrice''"
  obtains raw c p x t b refs a v where "inv_Parameters i = [raw]" "parseCommand ''EvaluatePrice'' raw = Inr c"
    "p = payload_of analysisInput_fields analysisInput_zero c" "inv_Transient i = Some t"
    "batch_here (at stub (view s)) (c_BatchID c) b refs" "b_State b = RetailReported"
    "analysis_evaluate (fabricLedger stub) \<lparr> p_read = GetPrivateData stub, p_write = PutPrivateData stub \<rparr> s t x c b refs p
      = Inr (a, v)"
    "at stub (view s) ''evaluation'' [c_BatchID c] = []" "at stub (view s) ''anomalyReference'' [ai_AnomalyID p] = []"
    "at stub (private_view s' audit) ''anomaly'' [ai_AnomalyID p] = encoded (marshal anomalyRecord_fields a)"
    "at stub (view s') ''evaluation'' [c_BatchID c]
      = encoded (marshal evaluationReference_fields (evaluation_reference b p x))"
    "at stub (view s') ''anomalyReference'' [ai_AnomalyID p]
      = encoded (marshal evaluationReference_fields (evaluation_reference b p x))"
proof -
  let ?L = "fabricLedger stub" and ?P = "\<lparr> p_read = GetPrivateData stub, p_write = PutPrivateData stub \<rparr>"
  obtain msp role x t r where i: "inv_Transient i = Some t" "dispatch ?L msp role ''EvaluatePrice'' (inv_Parameters i)
      [\<lparr> pr_x = x, pr_transient = t \<rparr>] s = (Inr r, s')"
    using Invoke_Success [OF run] fn by metis
  have mut: "isMutation ''EvaluatePrice''" by (simp add: isMutation_def)
  obtain u where "authorize msp role ''EvaluatePrice'' = Inr u"
    using i(2) by (cases "authorize msp role ''EvaluatePrice''") (auto simp: dispatch_unfold)
  then have command: "dispatch_command ?L ''EvaluatePrice'' (inv_Parameters i)
      [\<lparr> pr_x = x, pr_transient = t \<rparr>] s = (Inr r, s')"
    using i(2) by (simp add: dispatch_mutation [OF mut])
  then obtain raw where raw: "inv_Parameters i = [raw]"
    by (cases "inv_Parameters i") (auto simp: dispatch_command_def len_def split: if_splits)
  from command show thesis
  proof (rule dispatch_command_success)
    fix c P pr receipt
    assume c: "parseCommand ''EvaluatePrice'' (hd (inv_Parameters i)) = Inr c" and pr: "[\<lparr> pr_x = x, pr_transient = t \<rparr>] = [pr]"
      and P: "l_private ?L = Some P"
      and go: "engine_apply ?L (prepare ?L P s (pr_transient pr) (pr_x pr)) c (pr_x pr) s = (Inr receipt, s')"
    have P': "P = ?P" using P by (simp add: fabricLedger_def)
    have go': "engine_apply ?L (prepare ?L ?P s t x) c x s = (Inr receipt, s')" using go pr P' by auto
    have cmd: "c_Command c = ''EvaluatePrice''" by (rule parseCommand_ids(1) [OF c])
    let ?p = "payload_of analysisInput_fields analysisInput_zero c"
    show thesis
    proof (rule fabric.engine_apply_private [OF go'])
      fix exists b refs v p'
      assume checks: "apply_checks ?L s c x = Inr (exists, b, refs)" and ev: "prepare ?L ?P s t x c b refs = Inr v"
        and view: "view s' = outcome (map_of (merge_plan (v_Public v) p')) (view s)"
        and writes: "\<And>col k. private_view s' col k = private_view s col k \<and> (\<forall>w \<in> set (v_Private v). \<not> (pw_Collection w = col \<and> pw_Key w = k))
          \<or> (\<exists>w \<in> set (v_Private v). pw_Collection w = col \<and> pw_Key w = k \<and> private_view s' col k = pw_Value w)"
      note facts = fabric.apply_checks_facts [OF checks s]
      have here: "batch_here (at stub (view s)) (c_BatchID c) b refs"
        using facts(6,9) cmd world by (auto split: if_splits)
      then have id: "b_BatchID b = c_BatchID c" by (simp add: batch_here_def batch_shape_def)
      have run': "analysis ?L ?P s t x c b refs = Inr v"
        using ev cmd by (subst (asm) prepare_analysis) auto
      obtain a v0 k where a: "b_State b = RetailReported" "analysis_evaluate ?L ?P s t x c b refs ?p = Inr (a, v0)"
        "CreateCompositeKey ?L ''anomaly'' [ai_AnomalyID ?p] = Some k" "v_Public v = v_Public v0"
        "v_Private v = v_Private v0 @ [\<lparr> pw_Collection = audit, pw_Key = k, pw_Value = encoded (marshal anomalyRecord_fields a) \<rparr>]"
        by (rule analysis_evaluated [OF run' cmd refl])
      let ?ref = "encoded (marshal evaluationReference_fields (evaluation_reference b ?p x))"
      show thesis
      proof (rule evaluate_writes [OF a(2)])
        fix k1 k2
        assume k: "CreateCompositeKey ?L ''evaluation'' [b_BatchID b] = Some k1"
            "CreateCompositeKey ?L ''anomalyReference'' [ai_AnomalyID ?p] = Some k2"
          and new: "absent ?L s k1 ''ANOMALY_ALREADY_EXISTS'' = Inr ()" "absent ?L s k2 ''ANOMALY_ALREADY_EXISTS'' = Inr ()"
          and v0: "v_Private v0 = []" "v_Public v0 = put_entry k2 (Some ?ref) (put_entry k1 (Some ?ref) [])"
        have k12: "k1 \<noteq> k2" using fabric.key_inject [OF k(1), of "''anomalyReference''"] k(2) by auto
        have "distinct (map fst (v_Public v))"
          using evidence_provider.public_marks [OF real_evidence.evidence_provider_axioms ev] by (simp add: evidence_plan_def)
        then have "view s' k1 = ?ref" "view s' k2 = ?ref"
          unfolding view by (simp_all add: map_of_merge_plan a(4) v0 outcome_def k12 map_add_def)
        moreover have "private_view s' audit k = encoded (marshal anomalyRecord_fields a)"
          using writes [of audit k] by (simp add: a(5) v0)
        moreover have "view s k1 = []" "view s k2 = []" using fabric.absent_view [OF new(1) s] fabric.absent_view [OF new(2) s] by simp_all
        ultimately show thesis
          using that [of raw c ?p t b refs x a v0] raw c i(1) here a(1,2) k a(3) id by (simp add: at_def fabricLedger_def)
      qed
    qed
  qed
qed

end

context shim_stub begin

lemma evaluation_stored:
  assumes s: "fresh s" and world: "world_ok (at stub (view s))"
    and run: "Invoke stub i s = (Success bs, s')" and fn: "inv_Function i = ''EvaluatePrice''"
  obtains raw c p t b refs cfg purchase report cost a ref where "inv_Parameters i = [raw]"
    "parseCommand ''EvaluatePrice'' raw = Inr c" "p = payload_of analysisInput_fields analysisInput_zero c"
    "inv_Transient i = Some t" "batch_here (at stub (view s)) (c_BatchID c) b refs" "b_State b = RetailReported"
    "getConfig (fabricLedger stub) s = Inr cfg"
    "prices_committed (\<lambda>col. at stub (private_view s col)) refs purchase report cost"
    "evaluation_binding b refs purchase report cost" "rr_PolicyID report = cf_PolicyID cfg"
    "at stub (view s) ''evaluation'' [c_BatchID c] = []" "at stub (view s) ''anomalyReference'' [ai_AnomalyID p] = []"
    "at stub (private_view s' audit) ''anomaly'' [ai_AnomalyID p] = encoded (marshal anomalyRecord_fields a)"
    "at stub (view s') ''evaluation'' [c_BatchID c] = encoded (marshal evaluationReference_fields ref)"
    "at stub (view s') ''anomalyReference'' [ai_AnomalyID p] = encoded (marshal evaluationReference_fields ref)"
    "er_BatchID ref = c_BatchID c" "er_ReportID ref = e_RetailReportID refs" "er_AnomalyID ref = ai_AnomalyID p"
    "ar_BatchID a = c_BatchID c" "ar_ReportID a = e_RetailReportID refs" "ar_AnomalyID a = ai_AnomalyID p"
    "let buy = pb_Price purchase; sell = rt_Price (rr_input report); threshold = cf_ThresholdBps cfg;
         above = (sell - buy) * 10000 > buy * threshold
     in 0 < buy \<and> buy \<le> 1000000000 \<and> 0 \<le> sell \<and> sell \<le> 1000000000 \<and> 0 \<le> threshold \<and> threshold \<le> 100000
      \<and> ar_Purchase a = buy \<and> ar_Retail a = sell \<and> ar_Threshold a = threshold
      \<and> ar_Freight a = cr_Total cost \<and> ar_PolicyID a = cf_PolicyID cfg
      \<and> sc_Increase (ar_score a) = (sell - buy) * 10000 div buy
      \<and> sc_Classification (ar_score a) = (if above then ''REVIEW_REQUIRED'' else ''NO_SIGNAL'')
      \<and> ar_ReviewState a = (if above then ''OPEN'' else ''NOT_REQUIRED'')
      \<and> exact score_fields (entry_of t ''proposedResult'') score_zero = Inr (ar_score a)"
proof (rule evaluation_written [OF assms])
  fix raw c p x t b refs a v
  assume w: "inv_Parameters i = [raw]" "parseCommand ''EvaluatePrice'' raw = Inr c"
      "p = payload_of analysisInput_fields analysisInput_zero c" "inv_Transient i = Some t"
      "batch_here (at stub (view s)) (c_BatchID c) b refs" "b_State b = RetailReported"
    and run: "analysis_evaluate (fabricLedger stub) \<lparr> p_read = GetPrivateData stub, p_write = PutPrivateData stub \<rparr> s t x c
        b refs p = Inr (a, v)"
    and after: "at stub (view s) ''evaluation'' [c_BatchID c] = []" "at stub (view s) ''anomalyReference'' [ai_AnomalyID p] = []"
      "at stub (private_view s' audit) ''anomaly'' [ai_AnomalyID p] = encoded (marshal anomalyRecord_fields a)"
      "at stub (view s') ''evaluation'' [c_BatchID c]
        = encoded (marshal evaluationReference_fields (evaluation_reference b p x))"
      "at stub (view s') ''anomalyReference'' [ai_AnomalyID p]
        = encoded (marshal evaluationReference_fields (evaluation_reference b p x))"
  have id: "b_BatchID b = c_BatchID c" using w(5) by (simp add: batch_here_def batch_shape_def)
  let ?exact = "\<lambda>cfg purchase report cost. let buy = pb_Price purchase; sell = rt_Price (rr_input report);
         threshold = cf_ThresholdBps cfg; above = (sell - buy) * 10000 > buy * threshold
     in 0 < buy \<and> buy \<le> 1000000000 \<and> 0 \<le> sell \<and> sell \<le> 1000000000 \<and> 0 \<le> threshold \<and> threshold \<le> 100000
      \<and> ar_Purchase a = buy \<and> ar_Retail a = sell \<and> ar_Threshold a = threshold
      \<and> ar_Freight a = cr_Total cost \<and> ar_PolicyID a = cf_PolicyID cfg
      \<and> sc_Increase (ar_score a) = (sell - buy) * 10000 div buy
      \<and> sc_Classification (ar_score a) = (if above then ''REVIEW_REQUIRED'' else ''NO_SIGNAL'')
      \<and> ar_ReviewState a = (if above then ''OPEN'' else ''NOT_REQUIRED'')
      \<and> exact score_fields (entry_of t ''proposedResult'') score_zero = Inr (ar_score a)"
  obtain cfg purchase report cost where e: "getConfig (fabricLedger stub) s = Inr cfg"
    "load_prices (fabricLedger stub) \<lparr> p_read = GetPrivateData stub, p_write = PutPrivateData stub \<rparr> s refs
      = Inr (purchase, report, cost)"
    "evaluation_binding b refs purchase report cost" "rr_PolicyID report = cf_PolicyID cfg"
    "ai_ReportID p = e_RetailReportID refs" "?exact cfg purchase report cost"
    using evaluation_recomputed [where L = "fabricLedger stub" and s = s and t = t and x = x and c = c and b = b
        and refs = refs and p = p and P = "\<lparr> p_read = GetPrivateData stub, p_write = PutPrivateData stub \<rparr>"] unfolding run sum.case prod.case by blast
  have "prices_committed (\<lambda>col. at (fabricLedger stub) (private_view s col)) refs purchase report cost"
    by (rule fabric.load_prices_committed [OF s _ e(2)]) (simp add: fabricLedger_def)
  moreover have "ar_AnomalyID a = ai_AnomalyID p" "ar_BatchID a = b_BatchID b" "ar_ReportID a = ai_ReportID p"
    using evaluate_writes [OF run] by blast+
  ultimately show thesis
    using that [of raw c p t b refs cfg purchase report cost a "evaluation_reference b p x"] w after e id
    by (simp only: evaluation_reference_def evaluationReference.simps at_fabricLedger simp_thms)
qed

end

subsection \<open>An evaluation goes through\<close>

text \<open>An evaluation whose records, prices, proposal and salt are in order.\<close>

definition evaluable :: "'s ledger \<Rightarrow> 's privateOps \<Rightarrow> 's \<Rightarrow> transient \<Rightarrow> analysisInput \<Rightarrow> Batch \<Rightarrow> EvidenceRefs \<Rightarrow> bool" where
  "evaluable L P s t p b refs \<longleftrightarrow> b_State b = RetailReported \<and> len t = 2
     \<and> e_RetailReportID refs \<noteq> [] \<and> e_PurchaseDocumentID refs \<noteq> [] \<and> e_FreightCostID refs \<noteq> []
     \<and> ai_ReportID p = e_RetailReportID refs
     \<and> (\<exists>cfg purchase report cost result salt. getConfig L s = Inr cfg \<and> load_prices L P s refs = Inr (purchase, report, cost)
          \<and> evaluation_binding b refs purchase report cost \<and> rr_PolicyID report = cf_PolicyID cfg
          \<and> evaluation_money purchase report cost
          \<and> priceScore (pb_Price purchase) (rt_Price (rr_input report)) (cf_ThresholdBps cfg) = Inr result
          \<and> exact score_fields (entry_of t ''proposedResult'') score_zero = Inr result
          \<and> readSalt t ''recordSaltHex'' = Inr salt)"

context reliable_ledger begin

lemma evaluate_total:
  assumes s: "fresh s" and cmd: "c_Command c = ''EvaluatePrice''"
    and p: "p = payload_of analysisInput_fields analysisInput_zero c" "list_all printable (ai_AnomalyID p)"
    and b: "evaluable L P s t p b refs" "list_all printable (b_BatchID b)"
    and free: "at L (view s) ''evaluation'' [b_BatchID b] = []" "at L (view s) ''anomalyReference'' [ai_AnomalyID p] = []"
  shows "\<exists>v. prepare L P s t x c b refs = Inr v"
proof -
  obtain k1 where k1: "CreateCompositeKey L ''evaluation'' [b_BatchID b] = Some k1"
    using key_exists [of "''evaluation''" "[b_BatchID b]"] b(2) by (auto simp: printable_code)
  obtain k2 where k2: "CreateCompositeKey L ''anomalyReference'' [ai_AnomalyID p] = Some k2"
    using key_exists [of "''anomalyReference''" "[ai_AnomalyID p]"] p(2) by (auto simp: printable_code)
  obtain k3 where k3: "CreateCompositeKey L ''anomaly'' [ai_AnomalyID p] = Some k3"
    using key_exists [of "''anomaly''" "[ai_AnomalyID p]"] p(2) by (auto simp: printable_code)
  have "absent L s k1 code = Inr ()" "absent L s k2 code = Inr ()" for code
    using free k1 k2 by (auto simp: at_key intro!: absent_missing [OF s])
  then have "\<exists>a v. analysis_evaluate L P s t x c b refs p = Inr (a, v)"
    using b(1) k1 k2
    by (auto simp: evaluable_def analysis_evaluate_def Let_def key_def put_def canonical_def simp del: put_entry.simps)
  then obtain a v where "analysis_evaluate L P s t x c b refs p = Inr (a, v)" by blast
  then have "\<exists>v. analysis L P s t x c b refs = Inr v"
    using b(1) cmd k3 p(1) by (simp add: analysis_def Let_def evaluable_def key_def add_private_def canonical_def)
  then show ?thesis using cmd by (subst prepare_analysis) simp_all
qed

end

context reliable_stub begin

lemma evaluation_commits:
  assumes s: "fresh s" and world: "world_ok (at stub (view s))"
    and proposed: "proposes stub s (at stub (view s)) i x t c" and fn: "inv_Function i = ''EvaluatePrice''"
    and here: "batch_here (at stub (view s)) (c_BatchID c) b refs"
    and version: "c_ExpectedVersion c = b_Version b" "b_Version b < 2147483647"
    and p: "p = payload_of analysisInput_fields analysisInput_zero c"
    and ready: "evaluable (fabricLedger stub) \<lparr> p_read = GetPrivateData stub, p_write = PutPrivateData stub \<rparr> s t p b refs"
    and free: "at stub (view s) ''evaluation'' [c_BatchID c] = []" "at stub (view s) ''anomalyReference'' [ai_AnomalyID p] = []"
  shows "\<exists>bs s'. Invoke stub i s = (Success bs, s')"
proof -
  let ?L = "fabricLedger stub" and ?P = "\<lparr> p_read = GetPrivateData stub, p_write = PutPrivateData stub \<rparr>"
  obtain rc where rc: "parseCommand (inv_Function i) rc = Inr c" using proposed by (auto simp: proposes_def)
  have cmd: "c_Command c = ''EvaluatePrice''" and payload: "validatePayload c = Inr ()"
    using parseCommand_ids [OF rc] fn by simp_all
  have "validID (ai_AnomalyID p) ''ANM''" using validate_analysis(1) [OF payload] cmd payload_of_eq p by (metis insertI1)
  moreover have id: "b_BatchID b = c_BatchID c" "validID (c_BatchID c) ''BAT''"
    using here by (simp_all add: batch_here_def batch_shape_def)
  ultimately have "\<exists>v. prepare ?L ?P s t x c b refs = Inr v"
    using free by (intro reliable.evaluate_total [OF s cmd p _ ready]) (simp_all add: validID_printable)
  then obtain v where v: "prepare ?L ?P s t x c b refs = Inr v" by blast
  have draft: "\<exists>d. apply_command ?L s c x b refs v = Inr d"
    using cmd by (simp add: apply_command_def apply_analysis_def Let_def)
  then obtain d where d: "apply_command ?L s c x b refs v = Inr d" by blast
  have begins: "starts_from (at stub (view s)) c b refs" using cmd here version by (simp add: starts_from_def)
  show ?thesis
    by (rule command_commits [OF s world proposed begins _ d]) (use v in \<open>auto simp: fabricLedger_def\<close>)
qed

end

end
