(* ===== verification/Priced.thy ===== *)
theory Priced
  imports Deal Pricing
begin

text \<open>
  A batch whose retail price is reported, on the peer in memory: the invoice of its sale, its freight
  cost and its report are in the collections, and the oracle proposes their evaluation.
\<close>

subsection \<open>The state\<close>

definition priced_batch :: Batch where
  "priced_batch = demo_batch \<lparr> b_OwnerMSP := Retailer, b_CustodianMSP := Retailer, b_State := RetailReported,
     b_Version := 7, b_RetailLotID := ''LOT-00000001'' \<rparr>"

definition priced_refs :: EvidenceRefs where
  "priced_refs = demo_refs \<lparr> e_FreightCostID := ''CST-00000001'', e_RetailReportID := ''RPT-00000001'' \<rparr>"

definition priced_cost :: costRecord where
  "priced_cost = \<lparr> cr_SchemaVersion = ''agrochain.cost.v1'', cr_CostID = ''CST-00000001'', cr_BatchID = demo_id,
     cr_Kind = ''FREIGHT'', cr_Payer = Retailer, cr_Payee = Logistics, cr_Quantity = 1000000, cr_Total = 50000,
     cr_Currency = ''TRY'', cr_Tax = ''EXCLUDING_TAX'', cr_SourceDocumentID = ''DOC-00000005'', cr_Salt = first_salt,
     cr_OperationID = ''OP-00000004'', cr_TxID = demo_tx \<rparr>"

definition priced_report :: retailRecord where
  "priced_report = \<lparr> rr_SchemaVersion = ''agrochain.retail-price-report.v1'', rr_ReportID = ''RPT-00000001'',
     rr_BatchID = demo_id, rr_LotID = ''LOT-00000001'', rr_Quantity = 1000000, rr_Retailer = Retailer,
     rr_input = \<lparr> rt_Price = 3500, rt_Currency = ''TRY'', rt_Tax = ''EXCLUDING_TAX'',
       rt_ReportedAt = ''2026-06-20T08:00:00.000Z'', rt_Salt = first_salt \<rparr>,
     rr_PurchaseID = ''DOC-00000002'', rr_CostID = ''CST-00000001'', rr_PolicyID = ''CFG-00000001'',
     rr_OperationID = ''OP-00000007'', rr_TxID = demo_tx \<rparr>"

definition priced_records :: "(bytes \<times> bytes list \<times> bytes) list" where
  "priced_records =
     [(''configuration'', [''v1''], encoded (marshal configuration_fields demo_config)),
      (''batch'', [demo_id], encoded (marshal Batch_fields priced_batch)),
      (''batchEvidence'', [demo_id], encoded (marshal EvidenceRefs_fields priced_refs)),
      (''owner'', [Retailer, demo_id], encoded (JStr demo_id)),
      (''state'', [RetailReported, demo_id], encoded (JStr demo_id)),
      (''history'', [demo_id, ''0000000001''],
        encoded (marshal Receipt_fields (demo_receipt ''OP-00000001'' ''CreateBatch'' 1))),
      (''history'', [demo_id, ''0000000002''],
        encoded (marshal Receipt_fields (demo_receipt ''OP-00000002'' ''OfferPickup'' 2))),
      (''history'', [demo_id, ''0000000003''],
        encoded (marshal Receipt_fields (demo_receipt ''OP-00000003'' ''AcceptPickup'' 3 \<lparr> r_ActorMSP := Logistics \<rparr>))),
      (''history'', [demo_id, ''0000000004''],
        encoded (marshal Receipt_fields (demo_receipt ''OP-00000004'' ''RecordFreightCost'' 4 \<lparr> r_ActorMSP := Logistics \<rparr>))),
      (''history'', [demo_id, ''0000000005''],
        encoded (marshal Receipt_fields (demo_receipt ''OP-00000005'' ''OfferDelivery'' 5 \<lparr> r_ActorMSP := Logistics \<rparr>))),
      (''history'', [demo_id, ''0000000006''],
        encoded (marshal Receipt_fields (demo_receipt ''OP-00000006'' ''AcceptDelivery'' 6 \<lparr> r_ActorMSP := Retailer \<rparr>))),
      (''history'', [demo_id, ''0000000007''],
        encoded (marshal Receipt_fields (demo_receipt ''OP-00000007'' ''ReportRetailPrice'' 7 \<lparr> r_ActorMSP := Retailer \<rparr>)))]"

definition priced :: memory where
  "priced = memory_of priced_records \<lparr> m_private :=
     [((trade, CHR 0x00 # segments [''documentOpening'', ''DOC-00000002'']), opening_of sale),
      ((freight, CHR 0x00 # segments [''cost'', ''CST-00000001'']), encoded (marshal costRecord_fields priced_cost)),
      ((audit, CHR 0x00 # segments [''report'', ''RPT-00000001'']), encoded (marshal retailRecord_fields priced_report))] \<rparr>"

lemma priced_fresh: "memory_fresh priced"
  using memory_of_fresh [of priced_records] by (simp add: priced_def memory_fresh_def)

lemma priced_at: "at memory_stub (memory_view priced) = table priced_records"
proof -
  have "table_ok priced_records"
    by (simp add: table_ok_def priced_records_def demo_id_def segment_ok_def msp_defs state_defs)
  then have "at memory_stub (memory_view (memory_of priced_records)) = table priced_records"
    by (intro ext memory_of_at)
  moreover have "memory_view priced = memory_view (memory_of priced_records)" by (simp add: fun_eq_iff priced_def memory_view_def)
  ultimately show ?thesis by (simp only:)
qed

lemma priced_ok: "Batch_ok priced_batch" "EvidenceRefs_ok priced_refs" "costRecord_ok priced_cost" "retailRecord_ok priced_report"
proof -
  show "Batch_ok priced_batch"
    using demo_batch_ok by (simp add: Batch_ok_def priced_batch_def) (simp add: msp_defs state_defs int_ok_def)
  show "EvidenceRefs_ok priced_refs" using demo_refs_ok by (simp add: EvidenceRefs_ok_def priced_refs_def)
  have "text_ok demo_tx" "text_ok first_salt" "text_ok demo_id"
    using hexID_text [OF demo_tx_hex] hexID_text [OF first_salt_hex(1)] validID_text [OF demo_id_valid] by simp_all
  then show "costRecord_ok priced_cost" "retailRecord_ok priced_report"
    by (simp_all add: costRecord_ok_def priced_cost_def retailRecord_ok_def priced_report_def retailInput_ok_def
        int_ok_def msp_defs)
qed

lemma padded_more:
  "format_padded 4 = ''0000000004''" "format_padded 5 = ''0000000005''" "format_padded 6 = ''0000000006''"
  "format_padded 7 = ''0000000007''"
  by code_simp+

lemma priced_here: "batch_here (table priced_records) demo_id priced_batch priced_refs"
proof -
  have history: "(\<exists>n. 1 \<le> n \<and> n \<le> 7 \<and> v = format_padded n) \<longleftrightarrow> v \<in> set [''0000000001'', ''0000000002'', ''0000000003'',
      ''0000000004'', ''0000000005'', ''0000000006'', ''0000000007'']" for v
  proof -
    have "1 \<le> n \<and> n \<le> 7 \<longleftrightarrow> n \<in> set [1, 2, 3, 4, 5, 6, 7::int]" for n by auto
    then have "(\<exists>n. 1 \<le> n \<and> n \<le> 7 \<and> v = format_padded n) \<longleftrightarrow> (\<exists>n \<in> set [1, 2, 3, 4, 5, 6, 7::int]. v = format_padded n)"
      by blast
    then show ?thesis by (simp add: padded_one_two padded_three padded_more)
  qed
  have pending: "pending_world (table priced_records) priced_batch"
    by (simp add: pending_world_def pending_state_def priced_batch_def state_defs table_simps priced_records_def)
  have index: "index_world (table priced_records) priced_batch"
    by (auto simp: index_world_def history priced_batch_def demo_batch_def table_simps priced_records_def)
  have shape: "batch_shape demo_id priced_batch"
    by (simp add: batch_shape_def priced_batch_def demo_batch_def demo_id_valid validState_def owner_at_def custodian_at_def)
      (simp add: state_defs)?
  have refs: "refs_shape demo_id (b_State priced_batch) priced_refs"
    by (simp add: refs_shape_def priced_batch_def priced_refs_def demo_refs_def printable_code) (simp add: state_defs)?
  show ?thesis
    using priced_ok shape refs pending index
    by (simp add: batch_here_def table_simps priced_records_def)
qed

lemma priced_ordered: "world_ok (at memory_stub (memory_view priced))"
proof -
  have "no_batch (table priced_records) i" if "i \<noteq> demo_id" for i
    unfolding no_batch_def priced_records_def table_simps using that by simp
  then have "no_batch (table priced_records) i \<or> (\<exists>b r. batch_here (table priced_records) i b r)" for i
    using priced_here by (cases "i = demo_id") auto
  moreover have "table priced_records ''transfer'' [j] = []" for j by (simp add: table_simps priced_records_def)
  ultimately show ?thesis by (simp add: world_ok_def priced_at)
qed

subsection \<open>The prices\<close>

lemma memory_load:
  assumes "list_all segment_ok (kind # attrs)"
    and "lookup (m_private m) (col, CHR 0x00 # segments (kind # attrs)) = v" "v \<noteq> []" "Unmarshal fs v z = Some r"
  shows "\<exists>k. key (fabricLedger memory_stub) kind attrs = Inr k
    \<and> privateLoad \<lparr> p_read = GetPrivateData memory_stub, p_write = PutPrivateData memory_stub \<rparr> m col k (struct_codec fs) z = Inr r"
proof -
  have "key (fabricLedger memory_stub) kind attrs = Inr (CHR 0x00 # segments (kind # attrs))"
    using assms(1) by (simp add: key_def fabricLedger_def memory_stub_def memory_key_def)
  moreover have "privateLoad \<lparr> p_read = GetPrivateData memory_stub, p_write = PutPrivateData memory_stub \<rparr> m col
      (CHR 0x00 # segments (kind # attrs)) (struct_codec fs) z = Inr r"
    using assms(2-4) by (simp add: privateLoad_def memory_stub_def len_def decoded_def [symmetric] del: segments.simps)
  ultimately show ?thesis by blast
qed

lemma priced_private:
  "lookup (m_private priced) (trade, CHR 0x00 # segments [''documentOpening'', ''DOC-00000002'']) = opening_of sale"
  "lookup (m_private priced) (freight, CHR 0x00 # segments [''cost'', ''CST-00000001''])
     = encoded (marshal costRecord_fields priced_cost)"
  "lookup (m_private priced) (audit, CHR 0x00 # segments [''report'', ''RPT-00000001''])
     = encoded (marshal retailRecord_fields priced_report)"
  by (simp_all add: priced_def lookup_def trade_def freight_def audit_def del: segments.simps)

lemma priced_loaded:
  "load_prices (fabricLedger memory_stub) \<lparr> p_read = GetPrivateData memory_stub, p_write = PutPrivateData memory_stub \<rparr>
     priced priced_refs = Inr (sale_body, priced_report, priced_cost)"
proof -
  have "opening_ok \<lparr> op_Body = bu_Body sale, op_Salt = bu_Salt sale \<rparr>"
    using sale_facts(1) by (simp add: bundle_ok_def opening_ok_def)
  then have sale: "opening_of sale \<noteq> []" unfolding opening_of_def by (rule encoded_nonempty [OF opening_q.marshal_ok])
  have cost: "Unmarshal costRecord_fields (encoded (marshal costRecord_fields priced_cost)) costRecord_zero = Some priced_cost"
    by (rule cost_record.Unmarshal_print [OF priced_ok(3)]) (auto simp: costRecord_fields_def)
  have report: "Unmarshal retailRecord_fields (encoded (marshal retailRecord_fields priced_report)) retailRecord_zero
      = Some priced_report"
    by (rule retail_record.Unmarshal_print [OF priced_ok(4)]) (auto simp: retailRecord_fields_def retailInput_fields_def)
  have "fits purchaseBody_fields sale_body" by code_simp
  then have body: "exact purchaseBody_fields (bu_Body sale) purchaseBody_zero = Inr sale_body"
    unfolding sale_def sample_simps sale_value_def
    by (intro purchase_body.exact_fits) (use bodies_ok in \<open>auto simp: purchaseBody_fields_def\<close>)
  have ids: "list_all segment_ok [''documentOpening'', ''DOC-00000002'']" "list_all segment_ok [''cost'', ''CST-00000001'']"
    "list_all segment_ok [''report'', ''RPT-00000001'']" by (simp_all add: segment_ok_def)
  show ?thesis
    using memory_load [OF ids(1) priced_private(1) sale opening_decoded [OF sale_facts(1)]]
      memory_load [OF ids(2) priced_private(2) encoded_nonempty [OF cost_record.marshal_ok [OF priced_ok(3)]] cost]
      memory_load [OF ids(3) priced_private(3) encoded_nonempty [OF retail_record.marshal_ok [OF priced_ok(4)]] report]
      body
    by (auto simp: load_prices_def priced_refs_def demo_refs_def)
qed

subsection \<open>The evaluation\<close>

definition price_input :: analysisInput where
  "price_input = \<lparr> ai_AnomalyID = ''ANM-00000001'', ai_ReportID = ''RPT-00000001'' \<rparr>"

definition price_score :: score where
  "price_score = \<lparr> sc_Increase = 7500, sc_Classification = ''REVIEW_REQUIRED'', sc_Reason = ''ABOVE_PILOT_THRESHOLD'' \<rparr>"

definition price_command :: Command where
  "price_command = \<lparr> c_SchemaVersion = ''agrochain.command.v1'', c_OperationID = ''OP-00000008'',
     c_BatchID = demo_id, c_ExpectedVersion = 7, c_Command = ''EvaluatePrice'',
     c_Payload = encoded (marshal analysisInput_fields price_input) \<rparr>"

definition price_transient :: transient where
  "price_transient = [(''proposedResult'', encoded (marshal score_fields price_score)), (''recordSaltHex'', freight_salt)]"

definition price_invocation :: invocation where
  "price_invocation = first_context Regulator ''oracle'' ''EvaluatePrice''
     (encoded (marshal Command_fields price_command)) price_transient"

lemma price_input_facts: "analysisInput_ok price_input" "fits analysisInput_fields price_input"
  by code_simp+

lemma price_score_read: "exact score_fields (encoded (marshal score_fields price_score)) score_zero = Inr price_score"
proof -
  have "score_ok price_score" "fits score_fields price_score" by code_simp+
  then show ?thesis by (intro score.exact_fits) (auto simp: score_fields_def)
qed

lemma price_input_read: "exact analysisInput_fields (c_Payload price_command) analysisInput_zero = Inr price_input"
  unfolding price_command_def Command.simps
  by (rule analysis_input.exact_fits) (use price_input_facts in \<open>auto simp: analysisInput_fields_def\<close>)

lemma price_payload: "payload_of analysisInput_fields analysisInput_zero price_command = price_input"
  using decode_Unmarshal [OF price_input_read [unfolded exact_def]] by (simp add: payload_of_def)

lemma price_payload_valid: "validatePayload price_command = Inr ()"
proof -
  have "decode analysisInput_fields (c_Payload price_command) analysisInput_zero [''anomalyId'', ''reportId''] = Inr price_input"
    using price_input_read by (simp add: exact_def analysisInput_fields_def)
  moreover have "validID ''ANM-00000001'' ''ANM''" "validID ''RPT-00000001'' ''RPT''" by code_simp+
  ultimately show ?thesis by (simp add: validatePayload_def price_command_def price_input_def)
qed

lemma price_command_ok: "Command_ok price_command"
  using raw_encoded(1) [OF analysis_input.marshal_ok [OF price_input_facts(1)]]
  by (simp add: Command_ok_def int_ok_def price_command_def demo_id_def)

definition price_command_value :: jv where
  "price_command_value = JObj
     [(''schemaVersion'', JStr ''agrochain.command.v1''), (''operationId'', JStr ''OP-00000008''),
      (''batchId'', JStr demo_id), (''expectedVersion'', JNum (FormatInt 7)), (''command'', JStr ''EvaluatePrice''),
      (''payload'', json_sort (marshal analysisInput_fields price_input))]"

lemma price_command_raw: "marshal Command_fields price_command = price_command_value"
  using raw_encoded(2) [OF analysis_input.marshal_ok [OF price_input_facts(1)]]
  unfolding marshal_def [of Command_fields]
  by (simp add: Command_fields_def omitted_def price_command_def raw_codec_def string_codec_def int_codec_def
      price_command_value_def del: json_sort.simps json_print.simps)

lemma price_command_value_facts: "width price_command_value \<le> 65536" "tokenValue 0 (json_sort price_command_value)"
  by code_simp+

lemma price_command_parsed:
  "parseCommand ''EvaluatePrice'' (encoded (marshal Command_fields price_command)) = Inr price_command"
proof -
  have "validID ''OP-00000008'' ''OP''" by code_simp
  then show ?thesis
    using parse_encoded [of price_command] price_command_ok price_command_value_facts price_payload_valid demo_id_valid
    by (simp add: price_command_raw) (simp add: price_command_def)
qed

definition price_context :: execution where
  "price_context = \<lparr> x_Actor = Regulator, x_Role = ''oracle'', x_TxID = demo_tx,
     x_Time = \<lparr> tm_Seconds = FormatInt 1750000000, tm_Nanos = 0 \<rparr> \<rparr>"

lemma priced_config: "getConfig (fabricLedger memory_stub) priced = Inr demo_config"
proof -
  have ok: "configuration_ok demo_config" by code_simp
  have config: "Unmarshal configuration_fields (encoded (marshal configuration_fields demo_config)) configuration_zero
      = Some demo_config"
    by (rule configuration.Unmarshal_print [OF ok]) (auto simp: configuration_fields_def)
  have v: "at memory_stub (memory_view priced) ''configuration'' [''v1''] = encoded (marshal configuration_fields demo_config)"
    by (simp add: priced_at table_simps priced_records_def)
  obtain k where "key (fabricLedger memory_stub) ''configuration'' [''v1''] = Inr k"
    "load (fabricLedger memory_stub) priced k (struct_codec configuration_fields) configuration_zero = Inr (True, demo_config)"
    by (rule reliable_memory.reliable.lookup_record [OF priced_fresh, of "''configuration''" "[''v1'']"
          "struct_codec configuration_fields" configuration_zero demo_config])
      (use v config encoded_nonempty [OF configuration.marshal_ok [OF ok]] in \<open>auto simp: printable_code\<close>)
  then show ?thesis by (simp add: getConfig_def)
qed

lemma price_proposed:
  "proposes memory_stub priced (at memory_stub (memory_view priced)) price_invocation price_context price_transient price_command"
proof -
  have "at memory_stub (memory_view priced) ''operation'' [Regulator, ''OP-00000008''] = []"
    by (simp add: priced_at table_simps priced_records_def)
  then show ?thesis
    using priced_config price_command_parsed first_execution [of Regulator "''oracle''"]
    by (simp add: proposes_def price_invocation_def price_context_def first_context_def isMutation_def
        expected_caller_def caller_def) (simp add: price_command_def)
qed

lemma price_evaluable:
  "evaluable (fabricLedger memory_stub) \<lparr> p_read = GetPrivateData memory_stub, p_write = PutPrivateData memory_stub \<rparr>
     priced price_transient price_input priced_batch priced_refs"
proof -
  have entries: "len price_transient = 2" "entry_of price_transient ''proposedResult'' = encoded (marshal score_fields price_score)"
    "entry_of price_transient ''recordSaltHex'' = freight_salt"
    by (simp_all add: price_transient_def len_def entry_of_def)
  have "readSalt price_transient ''recordSaltHex'' = Inr first_salt"
    using freight_salt_read first_salt_hex(1) by (simp add: readSalt_def entries)
  moreover have "priceScore (pb_Price sale_body) (rt_Price (rr_input priced_report)) (cf_ThresholdBps demo_config) = Inr price_score"
    by code_simp
  moreover have "evaluation_binding priced_batch priced_refs sale_body priced_report priced_cost"
    "evaluation_money sale_body priced_report priced_cost" "rr_PolicyID priced_report = cf_PolicyID demo_config"
    by (simp_all add: evaluation_binding_def evaluation_money_def priced_batch_def demo_batch_def priced_refs_def demo_refs_def
        sale_body_def priced_report_def priced_cost_def demo_config_def)
  moreover have "e_RetailReportID priced_refs \<noteq> []" "e_PurchaseDocumentID priced_refs \<noteq> []" "e_FreightCostID priced_refs \<noteq> []"
    "ai_ReportID price_input = e_RetailReportID priced_refs" "b_State priced_batch = RetailReported"
    by (simp_all add: priced_refs_def demo_refs_def price_input_def priced_batch_def)
  ultimately show ?thesis
    unfolding evaluable_def entries
    using priced_config priced_loaded price_score_read by blast
qed

lemma price_named: "inv_Function price_invocation = ''EvaluatePrice''" "inv_Parameters price_invocation = [encoded (marshal Command_fields price_command)]"
  by (simp_all add: price_invocation_def first_context_def)

lemma price_evaluated: "\<exists>bs s'. Invoke memory_stub price_invocation priced = (Success bs, s')"
proof (rule reliable_stub.evaluation_commits [OF reliable_memory.reliable_stub_axioms priced_fresh priced_ordered price_proposed
      price_named(1) _ _ _ refl, where b = priced_batch and refs = priced_refs])
  show "batch_here (at memory_stub (memory_view priced)) (c_BatchID price_command) priced_batch priced_refs"
    using priced_here by (simp add: priced_at price_command_def)
  show "c_ExpectedVersion price_command = b_Version priced_batch" "b_Version priced_batch < 2147483647"
    by (simp_all add: price_command_def priced_batch_def)
  show "evaluable (fabricLedger memory_stub) \<lparr> p_read = GetPrivateData memory_stub, p_write = PutPrivateData memory_stub \<rparr>
     priced price_transient (payload_of analysisInput_fields analysisInput_zero price_command) priced_batch priced_refs"
    unfolding price_payload by (rule price_evaluable)
  show "at memory_stub (memory_view priced) ''evaluation'' [c_BatchID price_command] = []"
    "at memory_stub (memory_view priced) ''anomalyReference''
       [ai_AnomalyID (payload_of analysisInput_fields analysisInput_zero price_command)] = []"
    by (simp_all add: priced_at table_simps priced_records_def)
qed

end
