(* ===== verification/Failures.thy ===== *)
theory Failures
  imports Contract
begin

text \<open>
  Where the errors come from: every failure a function of the package can return is made by
  \<open>fail\<close>, so that it carries a code of the table with that code's message, or is a panic.
  One rule per construct of the result type and one lemma per function.
\<close>

named_theorems sound_rules \<open>rules and facts: this computation fails only with errors of the table\<close>

definition sound :: "failure \<Rightarrow> bool" where
  "sound e \<longleftrightarrow> (\<exists>c m. e = fail c \<or> e = Panic m)"

definition fails_soundly :: "'a res \<Rightarrow> bool" where
  "fails_soundly r \<longleftrightarrow> (\<forall>e. r = Inl e \<longrightarrow> sound e)"

lemma sound_leaves [sound_rules]:
  "sound (fail c)" "sound (Panic m)" "fails_soundly (Inr x)"
  "sound e \<Longrightarrow> fails_soundly (Inl e)"
  by (auto simp: sound_def fails_soundly_def)

lemma sound_Inl: "fails_soundly r \<Longrightarrow> r = Inl e \<Longrightarrow> sound e"
  by (simp add: fails_soundly_def)

lemma sound_rbind [sound_rules]:
  "fails_soundly m \<Longrightarrow> (\<And>x. fails_soundly (f x)) \<Longrightarrow> fails_soundly (rbind m f)"
  by (cases m) (simp_all add: fails_soundly_def)

lemma sound_if [sound_rules]:
  "fails_soundly a \<Longrightarrow> fails_soundly b \<Longrightarrow> fails_soundly (if c then a else b)"
  by simp

lemma sound_pair [sound_rules]:
  "(\<And>a b. fails_soundly (f a b)) \<Longrightarrow> fails_soundly (case p of (a, b) \<Rightarrow> f a b)"
  by (cases p) simp

lemma sound_option [sound_rules]:
  "fails_soundly a \<Longrightarrow> (\<And>x. fails_soundly (f x)) \<Longrightarrow> fails_soundly (case m of None \<Rightarrow> a | Some x \<Rightarrow> f x)"
  by (cases m) simp_all

lemma sound_of_option [sound_rules]: "sound e \<Longrightarrow> fails_soundly (of_option e m)"
  by (cases m) (simp_all add: fails_soundly_def)

lemma sound_jv [sound_rules]:
  "\<lbrakk> \<And>x. fails_soundly (fo x); \<And>x. fails_soundly (fa x); \<And>x. fails_soundly (fs x); \<And>x. fails_soundly (fn x);
     \<And>x. fails_soundly (fb x); fails_soundly z \<rbrakk> \<Longrightarrow>
   fails_soundly (case v of JObj x \<Rightarrow> fo x | JArr x \<Rightarrow> fa x | JStr x \<Rightarrow> fs x | JNum x \<Rightarrow> fn x | JBool x \<Rightarrow> fb x | JNull \<Rightarrow> z)"
  by (cases v) simp_all

lemma sound_sum [sound_rules]:
  "(\<And>e. r = Inl e \<Longrightarrow> fails_soundly (g e)) \<Longrightarrow> (\<And>x. fails_soundly (f x)) \<Longrightarrow>
     fails_soundly (case r of Inl e \<Rightarrow> g e | Inr x \<Rightarrow> f x)"
  by (cases r) simp_all

lemma sound_fold [sound_rules]:
  "(\<And>x s. fails_soundly (f x s)) \<Longrightarrow> fails_soundly (fold_result f xs s)"
  by (induction xs arbitrary: s) (auto intro!: sound_rules)

text \<open>A result that comes with a state.\<close>

abbreviation run_soundly :: "'a res \<times> 's \<Rightarrow> bool" where
  "run_soundly p \<equiv> fails_soundly (fst p)"

subsection \<open>Validation\<close>

lemma sound_strictJSON [sound_rules]: "fails_soundly (strictJSON raw)"
  unfolding strictJSON_def Let_def by (intro sound_rules)

lemma sound_decode [sound_rules]: "fails_soundly (decode fs raw dst names)"
  unfolding decode_def Let_def by (intro sound_rules)

lemma sound_exact [sound_rules]: "fails_soundly (exact fs raw dst)"
  unfolding exact_def Let_def by (intro sound_rules)

lemma sound_canonical [sound_rules]: "fails_soundly (canonical v)"
  unfolding canonical_def Let_def by (intro sound_rules)

lemma sound_encodedExact [sound_rules]: "fails_soundly (encodedExact fs v dst)"
  unfolding encodedExact_def Let_def by (intro sound_rules)

lemma sound_validatePayload [sound_rules]: "fails_soundly (validatePayload c)"
  unfolding validatePayload_def Let_def by (intro sound_rules)

lemma sound_parseCommand [sound_rules]: "fails_soundly (parseCommand fn raw)"
  unfolding parseCommand_def Let_def by (intro sound_rules)

lemma sound_authorize [sound_rules]: "fails_soundly (authorize actor role fn)"
  unfolding authorize_def Let_def by (intro sound_rules)

subsection \<open>The ledger\<close>

lemma sound_key [sound_rules]: "fails_soundly (key L kind attrs)"
  unfolding key_def Let_def by (intro sound_rules)

lemma sound_load [sound_rules]: "fails_soundly (load L s k c dst)"
  unfolding load_def Let_def by (intro sound_rules)

lemma sound_absent [sound_rules]: "fails_soundly (absent L s k code)"
  unfolding absent_def Let_def by (intro sound_rules)

lemma sound_put [sound_rules]: "fails_soundly (put p k v)"
  unfolding put_def Let_def by (intro sound_rules)

subsection \<open>The engine\<close>

lemma sound_consumeDocument [sound_rules]: "fails_soundly (consumeDocument L s doc c p)"
  unfolding consumeDocument_def Let_def by (intro sound_rules)

lemma sound_apply_analysis [sound_rules]: "fails_soundly (apply_analysis c b refs)"
  unfolding apply_analysis_def Let_def by (intro sound_rules)

lemma sound_apply_create [sound_rules]: "fails_soundly (apply_create L s c x refs v)"
  unfolding apply_create_def Let_def by (intro sound_rules)

lemma sound_consume_and_note [sound_rules]: "fails_soundly (consume_and_note L s c doc acc)"
  unfolding consume_and_note_def Let_def by (intro sound_rules)

lemma sound_offer_pickup_evidence [sound_rules]: "fails_soundly (offer_pickup_evidence L s c b refs v)"
  unfolding offer_pickup_evidence_def Let_def by (intro sound_rules)

lemma sound_apply_offer [sound_rules]: "fails_soundly (apply_offer L s c x b refs v)"
  unfolding apply_offer_def Let_def by (intro sound_rules)

lemma sound_apply_accept [sound_rules]: "fails_soundly (apply_accept L s c x b refs)"
  unfolding apply_accept_def Let_def by (intro sound_rules)

lemma sound_apply_freight [sound_rules]: "fails_soundly (apply_freight L s c x b refs v)"
  unfolding apply_freight_def Let_def by (intro sound_rules)

lemma sound_apply_report [sound_rules]: "fails_soundly (apply_report L s c x b refs v)"
  unfolding apply_report_def Let_def by (intro sound_rules)

lemma sound_apply_command [sound_rules]: "fails_soundly (apply_command L s c x b refs v)"
  unfolding apply_command_def Let_def by (intro sound_rules)

lemma sound_apply_checks [sound_rules]: "fails_soundly (apply_checks L s c x)"
  unfolding apply_checks_def Let_def by (intro sound_rules)

lemma sound_put_record [sound_rules]: "fails_soundly (put_record L item plan)"
  unfolding put_record_def Let_def by (intro sound_rules)

lemma sound_drop_stale [sound_rules]: "fails_soundly (drop_stale L stale kind attrs plan)"
  unfolding drop_stale_def Let_def by (intro sound_rules)

lemma sound_finish [sound_rules]: "fails_soundly (finish L c x exists old d public)"
  unfolding finish_def Let_def by (intro sound_rules)

subsection \<open>Evidence\<close>

lemma sound_rawURL [sound_rules]: "fails_soundly (rawURL v n)"
  unfolding rawURL_def Let_def by (intro sound_rules)

lemma sound_commitment [sound_rules]: "fails_soundly (commitment L body salt)"
  unfolding commitment_def Let_def by (intro sound_rules)

lemma sound_getConfig [sound_rules]: "fails_soundly (getConfig L s)"
  unfolding getConfig_def Let_def by (intro sound_rules)

lemma sound_register_source [sound_rules]: "fails_soundly (register_source L x k st)"
  unfolding register_source_def Let_def by (intro sound_rules)

lemma sound_source_items [sound_rules]: "fails_soundly (source_items v)"
  unfolding source_items_def Let_def by (intro sound_rules)

lemma sound_check_source_item [sound_rules]: "fails_soundly (check_source_item item u)"
  unfolding check_source_item_def Let_def by (intro sound_rules)

lemma sound_bootstrap_plan [sound_rules]: "fails_soundly (bootstrap_plan L s x raw)"
  unfolding bootstrap_plan_def Let_def by (intro sound_rules)

lemma sound_verifyBundle [sound_rules]: "fails_soundly (verifyBundle L s b)"
  unfolding verifyBundle_def Let_def by (intro sound_rules)

lemma sound_decode_item [sound_rules]: "fails_soundly (decode_item item acc)"
  unfolding decode_item_def Let_def by (intro sound_rules)

lemma sound_decodeBundles [sound_rules]: "fails_soundly (decodeBundles raw)"
  unfolding decodeBundles_def Let_def by (intro sound_rules)

subsection \<open>Private data\<close>

lemma sound_add_private [sound_rules]: "fails_soundly (add_private v collection k value)"
  unfolding add_private_def Let_def by (intro sound_rules)

lemma sound_privateLoad [sound_rules]: "fails_soundly (privateLoad P s collection k c dst)"
  unfolding privateLoad_def Let_def by (intro sound_rules)

subsection \<open>Analysis\<close>

lemma sound_priceScore [sound_rules]: "fails_soundly (priceScore purchase retail threshold)"
  unfolding priceScore_def Let_def by (intro sound_rules)

lemma sound_readSalt [sound_rules]: "fails_soundly (readSalt t name)"
  unfolding readSalt_def Let_def by (intro sound_rules)

lemma sound_load_prices [sound_rules]: "fails_soundly (load_prices L P s refs)"
  unfolding load_prices_def Let_def by (intro sound_rules)

lemma sound_analysis_evaluate [sound_rules]: "fails_soundly (analysis_evaluate L P s t x c b refs p)"
  unfolding analysis_evaluate_def Let_def by (intro sound_rules)

lemma sound_review_transition [sound_rules]: "fails_soundly (review_transition cmd i a)"
  unfolding review_transition_def Let_def by (intro sound_rules)

lemma sound_analysis_review [sound_rules]: "fails_soundly (analysis_review L P s t x c b p)"
  unfolding analysis_review_def Let_def by (intro sound_rules)

lemma sound_analysis [sound_rules]: "fails_soundly (analysis L P s t x c b refs)"
  unfolding analysis_def Let_def by (intro sound_rules)

lemma sound_load_action [sound_rules]: "fails_soundly (load_action L P s anomaly en actions)"
  unfolding load_action_def Let_def by (intro sound_rules)

subsection \<open>Preparing evidence\<close>

lemma sound_check_transient [sound_rules]: "fails_soundly (check_transient t required extra)"
  unfolding check_transient_def Let_def by (intro sound_rules)

lemma sound_mark_used [sound_rules]: "fails_soundly (mark_used L s c x check public)"
  unfolding mark_used_def Let_def by (intro sound_rules)

lemma sound_mark_document [sound_rules]: "fails_soundly (mark_document L s c x doc public)"
  unfolding mark_document_def Let_def by (intro sound_rules)

lemma sound_claim_eligibility [sound_rules]: "fails_soundly (claim_eligibility x c doc v)"
  unfolding claim_eligibility_def Let_def by (intro sound_rules)

lemma sound_claim_purchase [sound_rules]: "fails_soundly (claim_purchase b doc v)"
  unfolding claim_purchase_def Let_def by (intro sound_rules)

lemma sound_claim_notification [sound_rules]: "fails_soundly (claim_notification b doc v)"
  unfolding claim_notification_def Let_def by (intro sound_rules)

lemma sound_claim_manifest [sound_rules]: "fails_soundly (claim_manifest b doc v)"
  unfolding claim_manifest_def Let_def by (intro sound_rules)

lemma sound_claim_freight [sound_rules]: "fails_soundly (claim_freight L t x c b doc v)"
  unfolding claim_freight_def Let_def by (intro sound_rules)

lemma sound_document_claim [sound_rules]: "fails_soundly (document_claim L t x c b doc v)"
  unfolding document_claim_def Let_def by (intro sound_rules)

lemma sound_prepare_document [sound_rules]: "fails_soundly (prepare_document L s t x c b doc acc)"
  unfolding prepare_document_def Let_def by (intro sound_rules)

lemma sound_prepare_report [sound_rules]: "fails_soundly (prepare_report L P s t x config c b refs v)"
  unfolding prepare_report_def Let_def by (intro sound_rules)

lemma sound_prepare [sound_rules]: "fails_soundly (prepare L P s t x c b refs)"
  unfolding prepare_def Let_def by (intro sound_rules)

subsection \<open>Queries\<close>

lemma sound_page_bookmark [sound_rules]: "fails_soundly (page_bookmark E kind attrs token)"
  unfolding page_bookmark_def Let_def by (intro sound_rules)

lemma sound_fabric_page [sound_rules]: "fails_soundly (l_page (fabricLedger stub) s kind attrs limit token)"
  unfolding fabricLedger_def ledger.simps fabric_page_def by (intro sound_rules)

lemma sound_analysisQuery [sound_rules]:
  "fails_soundly (analysisQuery (fabricLedger stub) P s actor role fn arg)"
  unfolding analysisQuery_def Let_def by (intro sound_rules)

lemma sound_privateQuery [sound_rules]:
  "fails_soundly (privateQuery (fabricLedger stub) P s actor role fn arg)"
  unfolding privateQuery_def Let_def by (intro sound_rules)

lemma sound_verifyOpening [sound_rules]: "fails_soundly (verifyOpening L s actor role arg t)"
  unfolding verifyOpening_def Let_def by (intro sound_rules)

lemma sound_health [sound_rules]: "fails_soundly (health L s args)"
  unfolding health_def Let_def by (intro sound_rules) (metis sound_Inl sound_getConfig)

lemma sound_page_record [sound_rules]: "fails_soundly (page_record L s kind item records)"
  unfolding page_record_def Let_def by (intro sound_rules)

lemma sound_page_kind [sound_rules]: "fails_soundly (page_kind fn filt)"
  unfolding page_kind_def by (intro sound_rules)

lemma sound_page_query [sound_rules]: "fails_soundly (page_query (fabricLedger stub) s fn arg)"
  unfolding page_query_def by (intro sound_rules)

lemma sound_query [sound_rules]: "fails_soundly (query (fabricLedger stub) s actor fn args)"
  unfolding query_def Let_def by (intro sound_rules)

subsection \<open>Writing\<close>

named_theorems run_rules \<open>the same for a result that comes with a state\<close>

lemma run_soundly_rules [run_rules]:
  "fails_soundly r \<Longrightarrow> run_soundly (r, s)"
  "run_soundly a \<Longrightarrow> run_soundly b \<Longrightarrow> run_soundly (if c then a else b)"
  by simp_all

lemma run_soundly_pair [run_rules]:
  "run_soundly p \<Longrightarrow> (\<And>r s. fails_soundly r \<Longrightarrow> run_soundly (f r s)) \<Longrightarrow> run_soundly (case p of (r, s) \<Rightarrow> f r s)"
  by (cases p) simp

lemma run_soundly_sum [run_rules]:
  "fails_soundly r \<Longrightarrow> (\<And>e. sound e \<Longrightarrow> run_soundly (g e)) \<Longrightarrow> (\<And>x. run_soundly (f x)) \<Longrightarrow>
     run_soundly (case r of Inl e \<Rightarrow> g e | Inr x \<Rightarrow> f x)"
  by (cases r) (simp_all add: fails_soundly_def)

lemma run_soundly_option [run_rules]:
  "run_soundly a \<Longrightarrow> (\<And>x. run_soundly (f x)) \<Longrightarrow> run_soundly (case m of None \<Rightarrow> a | Some x \<Rightarrow> f x)"
  by (cases m) simp_all

lemma run_flush_keys [run_rules]: "run_soundly (flush_keys L p ks s)"
  by (induction L p ks s rule: flush_keys.induct) (auto intro: sound_rules split: option.split)

lemma run_write_keys [run_rules]: "run_soundly (write_keys L p ks s)"
  by (induction L p ks s rule: write_keys.induct) (auto intro: sound_rules split: option.split)

lemma run_write_private_all [run_rules]: "run_soundly (write_private_all P ws s)"
  by (induction P ws s rule: write_private_all.induct) (auto intro: sound_rules split: option.split)

lemma run_write_private [run_rules]: "run_soundly (write_private L ws s)"
  unfolding write_private_def by (intro run_rules sound_rules)

lemma run_flush [run_rules]: "run_soundly (flush L p event s)"
  unfolding flush_def by (intro run_rules sound_rules) assumption+

lemma sound_apply_plan [sound_rules]: "fails_soundly (apply_plan L (prepare L P s t x) c x s)"
  unfolding apply_plan_def by (intro sound_rules)

lemma run_engine_apply [run_rules]: "run_soundly (engine_apply L (prepare L P s t x) c x s)"
proof -
  have "run_soundly (case q of (receipt, plan, event, private) \<Rightarrow>
         case write_private L private s of
           (Inl e, s1) \<Rightarrow> (Inl e, s1)
         | (Inr _, s1) \<Rightarrow>
             case flush L plan event s1 of
               (Inl e, s2) \<Rightarrow> (Inl e, s2)
             | (Inr _, s2) \<Rightarrow> (Inr receipt, s2))" for q :: "Receipt \<times> writePlan \<times> Event \<times> privateWrite list"
    by (cases q) (simp, intro run_rules sound_rules, assumption+)
  then show ?thesis
    unfolding engine_apply_def by (intro run_rules sound_rules) assumption
qed

lemma run_bootstrap [run_rules]: "run_soundly (bootstrap L x raw s)"
proof -
  have "run_soundly (case q of (c, plan) \<Rightarrow>
         case write_keys L plan (sort (map fst plan)) s of
           (Inl e, s1) \<Rightarrow> (Inl e, s1)
         | (Inr _, s1) \<Rightarrow> (Inr c, s1))" for q :: "configuration \<times> writePlan"
    by (cases q) (simp, intro run_rules sound_rules, assumption+)
  then show ?thesis
    unfolding bootstrap_def by (intro run_rules sound_rules) assumption
qed

subsection \<open>Dispatch and reply\<close>

lemma sound_GetDocument [sound_rules]: "fails_soundly (GetDocument L s args)"
  unfolding GetDocument_def by (intro sound_rules)

lemma sound_dispatch_private [sound_rules]:
  "fails_soundly (dispatch_private (fabricLedger stub) s msp role fn args request)"
  unfolding dispatch_private_def Let_def by (intro sound_rules)

lemma run_dispatch_command [run_rules]: "run_soundly (dispatch_command L fn args request s)"
  unfolding dispatch_command_def Let_def by (intro run_rules sound_rules) assumption+

lemma run_dispatch [run_rules]: "run_soundly (dispatch (fabricLedger stub) msp role fn args request s)"
  unfolding dispatch_unfold by (intro run_rules sound_rules) assumption+

text \<open>What a client can be told.\<close>

definition lawful_response :: "response \<Rightarrow> bool" where
  "lawful_response r \<longleftrightarrow> (case r of
       Success bs \<Rightarrow> True
     | Failure text \<Rightarrow> (\<exists>e. text = Error e \<and> map_of messages (de_Code e) = Some (de_Message e)
         \<and> de_Retryable e = False \<and> de_SchemaVersion e = ''agrochain.error.v1'')
     | Crash m \<Rightarrow> True)"

lemma lawful_respond: "sound e \<Longrightarrow> lawful_response (respond e)"
proof -
  assume "sound e"
  then consider c where "e = fail c" | m where "e = Panic m" by (auto simp: sound_def)
  then show ?thesis
  proof cases
    case (1 c)
    then show ?thesis using fail_shape [of c] by (auto simp: respond_def lawful_response_def)
  qed (simp add: respond_def lawful_response_def)
qed

lemma lawful_reply: "fails_soundly r \<Longrightarrow> lawful_response (reply r)"
  using sound_canonical lawful_respond
  by (auto simp: reply_def fails_soundly_def lawful_response_def [of "Success _"] split: sum.split)

lemma lawful_case_sum:
  "fails_soundly r \<Longrightarrow> (\<And>x. lawful_response (fst (f x))) \<Longrightarrow>
     lawful_response (fst (case r of Inl e \<Rightarrow> (respond e, s) | Inr x \<Rightarrow> f x))"
  by (cases r) (simp_all add: fails_soundly_def lawful_respond)

lemma lawful_Invoke: "lawful_response (fst (Invoke stub i s))"
proof -
  have c: "fails_soundly (caller i)" unfolding caller_def by (intro sound_rules)
  have x: "fails_soundly (invoke_context i msp role)" for msp role
    unfolding invoke_context_def executionFromStub_def by (intro sound_rules)
  have d: "lawful_response (fst (case dispatch (fabricLedger stub) msp role (inv_Function i) (inv_Parameters i)
      request s of (result, s') \<Rightarrow> (reply result, s')))" for msp role request
    using run_dispatch [of stub msp role "inv_Function i" "inv_Parameters i" request s] lawful_reply
    by (cases "dispatch (fabricLedger stub) msp role (inv_Function i) (inv_Parameters i) request s") simp
  show ?thesis
    unfolding Invoke_def
    by (intro lawful_case_sum c)
      (auto simp: d lawful_respond sound_leaves intro!: lawful_case_sum x split: prod.split option.split)
qed

end
