(* ===== verification/Formats.thy ===== *)
theory Formats
  imports Ordering Contract Encoding
begin

text \<open>
  The texts the chaincode takes in and keys it builds: how large, deep and wide an accepted
  document can be, which texts are dates, timestamps, keys and bookmarks, and that the canonical
  form of a value does not depend on the order in which its members were written.
\<close>

subsection \<open>Bounds of strict JSON\<close>

text \<open>How deep a value is, and what every level of it satisfies.\<close>

fun nesting :: "jv \<Rightarrow> nat" where
  "nesting (JArr vs) = (if vs = [] then 0 else Suc (Max (set (map nesting vs))))"
| "nesting (JObj ms) = (if ms = [] then 0 else Suc (Max (set (map (\<lambda>(k, v). nesting v) ms))))"
| "nesting v = 0"

fun tidy :: "jv \<Rightarrow> bool" where
  "tidy (JArr vs) \<longleftrightarrow> len vs \<le> 16 \<and> list_all tidy vs"
| "tidy (JObj ms) \<longleftrightarrow> len ms \<le> 32 \<and> distinct (map fst ms)
     \<and> list_all (\<lambda>(k, v). k \<notin> set [''__proto__'', ''constructor'', ''prototype''] \<and> tidy v) ms"
| "tidy (JNum t) \<longleftrightarrow> (\<exists>n. ParseInt 64 t = Some n)"
| "tidy JNull \<longleftrightarrow> False"
| "tidy v \<longleftrightarrow> True"

lemma Max_plus_le:
  assumes "finite A" "A \<noteq> {}" "\<And>x. x \<in> A \<Longrightarrow> f x + d \<le> (n::nat)"
  shows "Max (f ` A) + d \<le> n"
proof -
  have "Max (f ` A) \<in> f ` A" using assms by (intro Max_in) simp_all
  then show ?thesis using assms(3) by auto
qed

lemma tokenValue_tidy: "tokenValue d v \<Longrightarrow> tidy v \<and> nesting v + d \<le> 9"
proof (induction d v rule: tokenValue.induct)
  case (1 depth vs)
  have each: "tidy v \<and> nesting v + Suc depth \<le> 9" if "v \<in> set vs" for v
    using 1 that by (simp add: list_all_iff)
  have "Max (nesting ` set vs) + depth \<le> 8" if "vs \<noteq> []"
    by (rule Max_plus_le) (use that each in fastforce)+
  then show ?case using 1(2) each by (auto simp: list_all_iff)
next
  case (2 depth ms)
  have each: "tidy v \<and> nesting v + Suc depth \<le> 9" if "(k, v) \<in> set ms" for k v
  proof -
    have m: "if k = ''explanation'' then (case v of JStr s \<Rightarrow> validExplanation s | _ \<Rightarrow> False)
        else tokenValue (Suc depth) v" and d: "depth \<le> 8"
      using 2(2) that by (simp_all only: tokenValue.simps list_all_iff not_less) fast
    show ?thesis
    proof (cases "k = ''explanation''")
      case True
      then show ?thesis using m d by (cases v) simp_all
    next
      case False
      then show ?thesis using 2(1) [OF that refl False] m by simp
    qed
  qed
  have "Max ((\<lambda>(k, v). nesting v) ` set ms) + depth \<le> 8" if "ms \<noteq> []"
    by (rule Max_plus_le) (use that each in fastforce)+
  then show ?case using 2(2) each by (auto simp: list_all_iff)
qed auto

text \<open>
  C36.  What strict decoding accepts is bounded: a document of at most 64 KiB of well-formed UTF-8,
  nested at most nine levels deep, with at most 32 members an object and 16 elements an array, no
  member twice, none that names a JavaScript prototype, no null, and integers of 64 bits only.
\<close>

theorem strictJSON_bounds:
  assumes "strictJSON raw = Inr v"
  shows "0 < len raw \<and> len raw \<le> 65536 \<and> utf8_valid raw \<and> nesting v \<le> 9 \<and> tidy v"
  using assms tokenValue_tidy [of 0 v]
  by (auto simp: strictJSON_def len_def split: if_splits option.splits)

theorem strictJSON_bounds_witness: "nesting (JNum ''7'') \<le> 9 \<and> tidy (JNum ''7'')"
proof -
  have "strictJSON ''7'' = Inr (JNum ''7'')" by code_simp
  from strictJSON_bounds [OF this] show ?thesis by blast
qed

subsection \<open>Canonical form\<close>

text \<open>
  The canonical form of an object does not depend on the order of its members: two objects
  with the same members, in whatever order they were sent, are signed, hashed and stored as the
  same bytes.
\<close>

theorem canonical_order:
  assumes "distinct (map fst ms)" "distinct (map fst ns)" "set ns = set ms"
  shows "canonical (Some (JObj ns)) = canonical (Some (JObj ms))"
proof -
  let ?sort = "\<lambda>ms. sort_key fst (map (map_prod id json_sort) ms)"
  have keys: "distinct (map fst (?sort xs)) \<and> sorted (map fst (?sort xs))" if "distinct (map fst xs)" for xs :: "(bytes \<times> jv) list"
  proof -
    have "distinct (map fst (map (map_prod id json_sort) xs))" using that by (simp add: comp_def)
    then show ?thesis by (metis distinct_map distinct_sort set_sort sorted_sort_key)
  qed
  have inj: "inj_on fst (set (?sort ns) \<union> set (?sort ms))"
    using keys [OF assms(1)] assms(3) by (simp add: distinct_map)
  have "?sort ns = ?sort ms"
    by (rule map_sorted_distinct_set_unique [OF inj])
      (use keys [OF assms(1)] keys [OF assms(2)] assms(3) in simp_all)
  then show ?thesis by (simp add: canonical_def)
qed

theorem canonical_order_witness:
  "canonical (Some (JObj [(''b'', JNum ''1''), (''a'', JNum ''2'')]))
     = canonical (Some (JObj [(''a'', JNum ''2''), (''b'', JNum ''1'')]))"
  by (rule canonical_order) auto

text \<open>
  Sorting a list of identifiers leaves exactly its elements, each once, in strictly
  ascending order, so the lists of changed records in receipts and events are canonical too.
\<close>

theorem sortedUnique_exact:
  "sorted_wrt (<) (sortedUnique ids) \<and> set (sortedUnique ids) = set ids"
proof -
  have "sorted (sortedUnique ids)" by (simp add: sortedUnique_def)
  moreover have "distinct (remdups_adj xs)" if "sorted xs" for xs :: "bytes list"
    using that by (induction xs rule: remdups_adj.induct) (auto split: if_splits)
  ultimately show ?thesis by (simp add: strict_sorted_iff sortedUnique_def)
qed

subsection \<open>Dates, keys and bookmarks\<close>

text \<open>
  A harvest date is accepted exactly when it is the text of a day of the Gregorian calendar,
  and a document's timestamp exactly when it is the text of a day and a time of it with
  milliseconds, in UTC: no other spelling of a moment is accepted, and none that does not exist.
\<close>

theorem dates_exact:
  "(validHarvestDate s \<longleftrightarrow> (\<exists>t. date_ok t \<and> s = format_date t))
   \<and> (validDateTime s \<longleftrightarrow> (\<exists>t. date_ok t \<and> time_ok t \<and> s = format_datetime t))"
  by (simp add: validHarvestDate_iff validDateTime_iff)

text \<open>
  A text is accepted as a key or a signature of a given size exactly when it is the unpadded
  base64url text of bytes of that size, so every key and signature has one spelling.
\<close>

theorem rawURL_exact: "rawURL v n = Inr b \<longleftrightarrow> len b = n \<and> encode64 b = v"
  by (auto simp: rawURL_def decode64_encode64 encode64_inject split: option.splits if_splits)

text \<open>
  C39.  A bookmark is accepted exactly when the chaincode made it for the same listing, or is
  empty: it opens to the position it was made from, and a bookmark of one kind of record or of
  one batch is refused for another.
\<close>

theorem page_bookmark_exact:
  "page_bookmark E kind attrs token = Inr b \<longleftrightarrow>
     (token = [] \<and> b = []) \<or> (\<exists>k. CreateCompositeKey E kind attrs = Some k \<and> HasPrefix b k
        \<and> token = encode64 (page_prefix kind attrs @ b))"
proof -
  have ne: "encode64 (page_prefix kind attrs @ b) \<noteq> []"
  proof
    assume "encode64 (page_prefix kind attrs @ b) = []"
    then have "encode64 (page_prefix kind attrs @ b) = encode64 []" by simp
    then have "page_prefix kind attrs @ b = []" by (simp only: encode64_inject)
    then show False by (simp add: page_prefix_def)
  qed
  have pre: "HasPrefix (p @ x) p" for p x by (simp add: HasPrefix_iff)
  show ?thesis
  proof (cases "token = []")
    case True
    then show ?thesis using ne by (auto simp: page_bookmark_def)
  next
    case False
    show ?thesis
    proof (cases "\<exists>x. token = encode64 (page_prefix kind attrs @ x)")
      case True
      then obtain x where x: "token = encode64 (page_prefix kind attrs @ x)" by blast
      then show ?thesis
        using False pre by (auto simp: page_bookmark_def decode64_encode64 encode64_inject rbind_eq_Inr key_eq_Inr)
    next
      case no: False
      then have "\<not> (\<exists>d. decode64 False token = Some d \<and> encode64 d = token \<and> HasPrefix d (page_prefix kind attrs))"
        by (auto simp: HasPrefix_iff)
      then show ?thesis using False no by (auto simp: page_bookmark_def split: option.splits)
    qed
  qed
qed

text \<open>
  The keys of a batch's history sort as its versions do, for every version of up to ten
  digits, so that a range query lists the history in the order in which it happened.
\<close>

theorem history_keys_ordered:
  assumes "0 \<le> m" "m < 10 ^ 10" "0 \<le> n" "n < 10 ^ 10"
  shows "format_padded m < format_padded n \<longleftrightarrow> m < n"
  using assms by (rule format_padded_less)

theorem history_keys_ordered_witness: "format_padded 9 < format_padded 10 \<longleftrightarrow> (9::int) < 10"
  by (rule history_keys_ordered) simp_all

end
