(* ===== verification/Trust.thy ===== *)
theory Trust
  imports Evidence
begin

text \<open>
  What the signed evidence of a command establishes: the salted commitment binds the body of a
  document, a verified bundle is signed by a registered source, and a list of bundles has no
  document twice.
\<close>

subsection \<open>Commitments\<close>

lemma hex_nibble_inject:
  assumes "is_hex a" "is_hex b"
  shows "hex_nibble a < 16" "hex_nibble a = hex_nibble b \<longleftrightarrow> a = b"
proof -
  show "hex_nibble a < 16" using assms(1) by (auto simp: hex_nibble_def is_hex_def is_digit_def)
  have nat: "(if 48 \<le> m \<and> m \<le> 57 then m - 48 else m - 87) = (if 48 \<le> n \<and> n \<le> 57 then n - 48 else n - 87)
      \<longleftrightarrow> m = n"
    if "48 \<le> m \<and> m \<le> 57 \<or> 97 \<le> m \<and> m \<le> 102" "48 \<le> n \<and> n \<le> 57 \<or> 97 \<le> n \<and> n \<le> 102" for m n :: nat
    using that by auto
  have "hex_nibble a = hex_nibble b \<longleftrightarrow> byte a = byte b"
    using assms unfolding hex_nibble_def is_hex_def is_digit_def by (intro nat) auto
  then show "hex_nibble a = hex_nibble b \<longleftrightarrow> a = b" by simp
qed

lemma hex_encode_inject: "hex_encode s = hex_encode t \<Longrightarrow> s = t"
proof (induction s arbitrary: t)
  case Nil
  then show ?case by (cases t) (simp_all add: hex_encode_def)
next
  case (Cons a s)
  then obtain b u where t: "t = b # u" by (cases t) (auto simp: hex_encode_def)
  let ?d = "''0123456789abcdef''"
  have d: "?d ! i = ?d ! j \<longleftrightarrow> i = j" if "i < 16" "j < 16" for i j
    using nth_eq_iff_index_eq [of ?d i j] that by simp
  have "?d ! (byte a div 16) = ?d ! (byte b div 16)" "?d ! (byte a mod 16) = ?d ! (byte b mod 16)"
    "hex_encode s = hex_encode u"
    using Cons.prems t by (simp_all add: hex_encode_def)
  moreover have "byte c div 16 < 16" "byte c mod 16 < 16" for c :: char
    using byte_parts(2) by simp_all
  ultimately have "byte a div 16 = byte b div 16" "byte a mod 16 = byte b mod 16" "s = u"
    using d Cons.IH by metis+
  then have "byte a = byte b" by (metis div_mod_decomp)
  then show ?case using t \<open>s = u\<close> by simp
qed

lemma hex_decode_inject:
  "list_all is_hex s \<Longrightarrow> list_all is_hex t \<Longrightarrow> length s = length t \<Longrightarrow> even (length s) \<Longrightarrow>
     hex_decode s = hex_decode t \<Longrightarrow> s = t"
proof (induction s arbitrary: t rule: hex_decode.induct)
  case (1 a b s)
  then obtain c d u where t: "t = c # d # u" by (cases t; cases "tl t") auto
  have h: "is_hex a" "is_hex b" "is_hex c" "is_hex d" using 1 t by simp_all
  have less: "hex_nibble a * 16 + hex_nibble b < 256" "hex_nibble c * 16 + hex_nibble d < 256"
    using pack_less [of "hex_nibble a" 16 "hex_nibble b" 16] pack_less [of "hex_nibble c" 16 "hex_nibble d" 16]
      hex_nibble_inject(1) h by simp_all
  have "char_of (hex_nibble a * 16 + hex_nibble b) = (char_of (hex_nibble c * 16 + hex_nibble d) :: char)"
    using 1(6) t by simp
  then have "hex_nibble a * 16 + hex_nibble b = hex_nibble c * 16 + hex_nibble d"
    using less by (metis of_char_of mod_less)
  then have "hex_nibble a = hex_nibble c" "hex_nibble b = hex_nibble d"
    using hex_nibble_inject(1) h pack by metis+
  then show ?case using 1 t hex_nibble_inject(2) h by auto
qed (use length_0_conv in auto)

lemma hex_decode_length: "even (length s) \<Longrightarrow> length (hex_decode s) = length s div 2"
  by (induction s rule: hex_decode.induct) auto

lemma be64_length: "length (be64 n) = 8"
  by (simp add: be64_def)

text \<open>
  C27.  Commitments are binding: two openings with the same commitment have the same salt and
  the same canonical body, or exhibit a collision of the hash function.
\<close>

theorem commitment_binding:
  assumes "commitment L body salt = Inr h" "commitment L body' salt' = Inr h"
  shows "(salt = salt' \<and> rbind (strictJSON body) (\<lambda>v. canonical (Some v)) = rbind (strictJSON body') (\<lambda>v. canonical (Some v)))
    \<or> (\<exists>m m'. m \<noteq> m' \<and> Sha256 L m = Sha256 L m')"
proof -
  let ?m = "\<lambda>salt b. ''AgroChain/document/v1'' @ [CHR 0x00] @ hex_decode salt @ be64 (len b) @ b"
  obtain b where b: "rbind (strictJSON body) (\<lambda>v. canonical (Some v)) = Inr b" "match_hexID salt"
    "h = hex_encode (Sha256 L (?m salt b))"
    using assms(1) by (auto simp: commitment_def rbind_eq_Inr split: if_splits)
  obtain b' where b': "rbind (strictJSON body') (\<lambda>v. canonical (Some v)) = Inr b'" "match_hexID salt'"
    "h = hex_encode (Sha256 L (?m salt' b'))"
    using assms(2) by (auto simp: commitment_def rbind_eq_Inr split: if_splits)
  have sha: "Sha256 L (?m salt b) = Sha256 L (?m salt' b')"
    using hex_encode_inject b(3) b'(3) by metis
  show ?thesis
  proof (cases "?m salt b = ?m salt' b'")
    case True
    have l: "length salt = 64" "length salt' = 64" "list_all is_hex salt" "list_all is_hex salt'"
      using b(2) b'(2) by (simp_all add: match_hexID_def len_def)
    have "hex_decode salt @ be64 (len b) @ b = hex_decode salt' @ be64 (len b') @ b'" using True by simp
    then have "hex_decode salt = hex_decode salt' \<and> be64 (len b) @ b = be64 (len b') @ b'"
      using l by (simp add: hex_decode_length append_eq_append_conv)
    then have "salt = salt'" "b = b'"
      using hex_decode_inject [OF l(3,4)] l by (simp_all add: append_eq_append_conv be64_length)
    then show ?thesis using b(1) b'(1) by simp
  next
    case False
    show ?thesis by (intro disjI2 exI [of _ "?m salt b"] exI [of _ "?m salt' b'"] conjI False sha)
  qed
qed

theorem commitment_binding_witness:
  "\<forall>L :: nat ledger. \<exists>h. commitment L ''7'' (replicate 64 (CHR ''0'')) = Inr h
    \<and> commitment L '' 7'' (replicate 64 (CHR ''0'')) = Inr h
    \<and> (rbind (strictJSON ''7'') (\<lambda>v. canonical (Some v)) = rbind (strictJSON '' 7'') (\<lambda>v. canonical (Some v))
       \<or> (\<exists>m m'. m \<noteq> m' \<and> Sha256 L m = Sha256 L m'))"
proof
  fix L :: "nat ledger"
  let ?salt = "replicate 64 (CHR ''0'')"
  have salt: "match_hexID ?salt" by (simp add: match_hexID_def len_def is_hex_def is_digit_def list_all_iff)
  have body: "strictJSON ''7'' = Inr (JNum ''7'')" "strictJSON '' 7'' = Inr (JNum ''7'')" by code_simp+
  obtain b where "canonical (Some (JNum ''7'')) = Inr b" by (simp add: canonical_def)
  then obtain h where h: "commitment L ''7'' ?salt = Inr h" "commitment L '' 7'' ?salt = Inr h"
    using salt body by (simp add: commitment_def)
  then show "\<exists>h. commitment L ''7'' ?salt = Inr h \<and> commitment L '' 7'' ?salt = Inr h
    \<and> (rbind (strictJSON ''7'') (\<lambda>v. canonical (Some v)) = rbind (strictJSON '' 7'') (\<lambda>v. canonical (Some v))
       \<or> (\<exists>m m'. m \<noteq> m' \<and> Sha256 L m = Sha256 L m'))"
    using commitment_binding [OF h] by blast
qed

subsection \<open>Bundles\<close>

text \<open>
  C26.  What a verified bundle is: well formed, from a registered and enabled key of the source
  system it names that may sign its type of document, with a signature of that key over the
  domain-separated canonical header, and with a body and a salt that open the commitment in the
  header.  A bundle is verified exactly when all of this holds.
\<close>

theorem verifyBundle_exact:
  "verifyBundle L s b = Inr () \<longleftrightarrow>
    (let h = env_Header (bu_Envelope b) in
     header_well_formed h \<and>
     (\<exists>k source. CreateCompositeKey L ''sourceKey'' [h_IssuerID h, h_KeyID h] = Some k
      \<and> load L s k (struct_codec sourceKey_fields) sourceKey_zero = Inr (True, source)
      \<and> sk_Enabled source \<and> sk_SourceSystem source = h_SourceSystem h
      \<and> h_DocumentType h \<in> set (sk_DocumentTypes source)
      \<and> (\<exists>pub sig msg. len pub = 32 \<and> sk_PublicKey source = encode64 pub
          \<and> len sig = 64 \<and> env_Signature (bu_Envelope b) = encode64 sig
          \<and> canonical (Some (marshal header_fields h)) = Inr msg
          \<and> Ed25519Verify L pub (signed_message msg) sig))
     \<and> commitment L (bu_Body b) (bu_Salt b) = Inr (h_Commitment h))"
proof -
  have raw: "rawURL v n = Inr x \<longleftrightarrow> len x = n \<and> v = encode64 x" for v n x
    by (auto simp: rawURL_def decode64_encode64 encode64_inject split: option.splits if_splits)
  have match: "(case rawURL v n of Inl _ \<Rightarrow> Inl e | Inr x \<Rightarrow> f x) = Inr ()
      \<longleftrightarrow> (\<exists>x. len x = n \<and> v = encode64 x \<and> f x = Inr ())" for v n e and f :: "bytes \<Rightarrow> unit res"
  proof (cases "rawURL v n")
    case (Inl e')
    then have "\<not> (len x = n \<and> v = encode64 x)" for x using raw [of v n x] by simp
    then show ?thesis using Inl by auto
  next
    case (Inr y)
    then have "len x = n \<and> v = encode64 x \<longleftrightarrow> x = y" for x using raw [of v n x] by auto
    then show ?thesis using Inr by (simp add: conj_assoc [symmetric])
  qed
  define h where "h = env_Header (bu_Envelope b)"
  have signed: "rbind (canonical (Some (marshal header_fields h))) (\<lambda>msg.
       if \<not> Ed25519Verify L pub (signed_message msg) sig then Inl e
       else rbind (commitment L (bu_Body b) (bu_Salt b)) (\<lambda>c. if c \<noteq> h_Commitment h then Inl e' else Inr ())) = Inr ()
     \<longleftrightarrow> (\<exists>msg. canonical (Some (marshal header_fields h)) = Inr msg \<and> Ed25519Verify L pub (signed_message msg) sig)
       \<and> commitment L (bu_Body b) (bu_Salt b) = Inr (h_Commitment h)" for pub sig e e'
    by (auto simp: rbind_eq_Inr)
  show ?thesis
    unfolding verifyBundle_def Let_def h_def [symmetric]
    by (auto simp only: rbind_eq_Inr key_eq_Inr if_Inl_eq_Inr match signed split_paired_Ex prod.case not_not de_Morgan_disj) blast+
qed

lemma decode_item_next:
  assumes "decode_item item a = Inr a'"
  obtains b where "a' = (fst a @ [b], h_DocumentID (env_Header (bu_Envelope b)))"
    "\<not> h_DocumentID (env_Header (bu_Envelope b)) \<le> snd a"
proof -
  obtain obj where o: "item = JObj obj" using assms by (cases item) (auto simp: decode_item_def rbind_eq_Inr)
  obtain env where e: "map_of obj ''envelope'' = Some (JObj env)"
    using assms unfolding o
    by (cases "map_of obj ''envelope''"; cases "the (map_of obj ''envelope'')") (auto simp: decode_item_def rbind_eq_Inr)
  show thesis
    using assms that unfolding o by (auto simp: decode_item_def e rbind_eq_Inr Let_def split: if_splits)
qed

text \<open>
  An accepted list of bundles is in strictly ascending order of the identifiers of its
  documents: no document occurs twice, and a list has only one accepted order.
\<close>

theorem decodeBundles_ordered:
  "case decodeBundles raw of Inl e \<Rightarrow> True
   | Inr bs \<Rightarrow> sorted_wrt (<) (map (\<lambda>b. h_DocumentID (env_Header (bu_Envelope b))) bs)"
proof (cases "decodeBundles raw")
  case (Inr bs)
  let ?id = "\<lambda>b. h_DocumentID (env_Header (bu_Envelope b))"
  obtain arr acc where acc: "fold_result decode_item arr ([], []) = Inr acc" "bs = fst acc"
  proof -
    obtain v where "(case v of JArr arr \<Rightarrow> rbind (fold_result decode_item arr ([], [])) (\<lambda>acc. Inr (fst acc))
        | _ \<Rightarrow> Inl (fail ''INVALID_SCHEMA'')) = Inr bs"
      using Inr by (auto simp: decodeBundles_def rbind_eq_Inr)
    then show thesis using that by (cases v) (auto simp: rbind_eq_Inr)
  qed
  let ?P = "\<lambda>(bs, last). sorted_wrt (<) (map ?id bs) \<and> (\<forall>b \<in> set bs. ?id b \<le> last)"
  have "?P acc"
  proof (rule fold_result_invariant [OF acc(1)])
    fix item a a'
    assume item: "decode_item item a = Inr a'" "?P a"
    obtain b where "a' = (fst a @ [b], ?id b)" "\<not> ?id b \<le> snd a" by (rule decode_item_next [OF item(1)])
    moreover from this have "\<forall>c \<in> set (fst a). ?id c < ?id b" using item(2) by (fastforce simp: case_prod_beta)
    ultimately show "?P a'" using item(2) by (cases a) (auto simp: sorted_wrt_append less_imp_le)
  qed simp
  then show ?thesis using Inr acc(2) by (cases acc) simp
qed simp

end
