(* ===== verification/Access.thy ===== *)
theory Access
  imports Peer
begin

text \<open>
  Who may do and see what: every command has one organization and role that may call it, and a
  private query answers from the collections its caller may read and from nothing else.
\<close>

text \<open>
  C35.  Separation of duties: every command can be called by exactly one pair of organization and
  role.
\<close>

theorem mutation_single_caller:
  assumes "isMutation fn"
  shows "\<exists>!p. authorize (fst p) (snd p) fn = Inr ()"
proof -
  have fn: "fn \<noteq> ''Health''" "fst (expected_caller fn) \<noteq> []" "member (fst (expected_caller fn))"
    using assms by (auto simp: isMutation_def expected_caller_def member_def)
  have "authorize (fst p) (snd p) fn = Inr () \<longleftrightarrow> p = expected_caller fn" for p
    using fn unfolding authorize_permitted permitted_def by (cases p; cases "expected_caller fn") auto
  then show ?thesis by (intro ex1I [of _ "expected_caller fn"]) simp_all
qed

theorem mutation_single_caller_witness: "\<exists>!p. authorize (fst p) (snd p) ''AcceptPickup'' = Inr ()"
  by (rule mutation_single_caller) (simp add: isMutation_def)

subsection \<open>Writers\<close>

text \<open>What was checked before an invocation changes the state.\<close>

lemma dispatch_writes:
  assumes "dispatch L msp role fn args request s = (r, s')" "s' \<noteq> s"
  shows "permitted msp role fn" "len args = 1" "fn = ''Bootstrap'' \<Longrightarrow> len (pr_transient (hd request)) = 0"
    "fn \<noteq> ''Bootstrap'' \<Longrightarrow> isMutation fn \<and> (\<exists>c. parseCommand fn (hd args) = Inr c)"
proof -
  obtain u where u: "authorize msp role fn = Inr u"
    using assms by (cases "authorize msp role fn") (auto simp: dispatch_def)
  then show "permitted msp role fn" by (simp add: authorize_permitted)
  have command: "isMutation fn \<and> dispatch_command L fn args request s = (r, s')" if "fn \<noteq> ''Bootstrap''"
    using assms u that by (auto simp: dispatch_unfold split: if_splits)
  have parsed: "len args = 1 \<and> (\<exists>c. parseCommand fn (hd args) = Inr c)"
    if "dispatch_command L fn args request s = (r, s')"
    using that assms(2) by (auto simp: dispatch_command_def split: if_splits sum.splits)
  show "fn \<noteq> ''Bootstrap'' \<Longrightarrow> isMutation fn \<and> (\<exists>c. parseCommand fn (hd args) = Inr c)"
    using command parsed by blast
  have boot: "len args = 1 \<and> len (pr_transient (hd request)) = 0" if "fn = ''Bootstrap''"
    using assms u that by (auto simp: dispatch_def split: if_splits)
  then show "fn = ''Bootstrap'' \<Longrightarrow> len (pr_transient (hd request)) = 0" by blast
  show "len args = 1" using boot command parsed by (cases "fn = ''Bootstrap''") auto
qed

lemma Invoke_writes:
  assumes "Invoke stub i s = (r, s')" "s' \<noteq> s"
  obtains msp role raw seconds nanos where "caller i = Inr (msp, role)" "permitted msp role (inv_Function i)"
    "inv_TxTimestamp i = Some (seconds, nanos)" "0 \<le> seconds" "0 \<le> nanos" "nanos \<le> 999999999"
    "match_hexID (inv_TxID i)" "inv_Parameters i = [raw]"
    "if inv_Function i = ''Bootstrap'' then inv_Transient i = Some []
     else isMutation (inv_Function i) \<and> (\<exists>c. parseCommand (inv_Function i) raw = Inr c)"
proof -
  obtain msp role x t q where run: "caller i = Inr (msp, role)" "invoke_context i msp role = Inr x" "inv_Transient i = Some t"
    "dispatch (fabricLedger stub) msp role (inv_Function i) (inv_Parameters i) [\<lparr> pr_x = x, pr_transient = t \<rparr>] s = (q, s')"
    using assms by (auto simp: Invoke_def split: sum.splits option.splits prod.splits)
  note w = dispatch_writes [OF run(4) assms(2)]
  have "isMutation (inv_Function i) \<or> inv_Function i = ''Bootstrap''" using w(4) by blast
  then have x: "executionFromStub i msp role = Inr x" using run(2) by (simp add: invoke_context_def)
  obtain raw where raw: "inv_Parameters i = [raw]"
    using w(2) by (cases "inv_Parameters i") (auto simp: len_def)
  from x obtain seconds nanos where "inv_TxTimestamp i = Some (seconds, nanos)" "0 \<le> seconds" "0 \<le> nanos"
    "nanos \<le> 999999999" "match_hexID (inv_TxID i)"
    by (auto simp: executionFromStub_def split: option.splits if_splits)
  then show thesis by (rule that [OF run(1) w(1) _ _ _ _ _ raw]) (use w(3,4) raw run(3) in \<open>auto simp: len_def\<close>)
qed

subsection \<open>Private queries\<close>

text \<open>Two private stores that agree on the collections the caller may read.\<close>

definition same_readable :: "'s privateOps \<Rightarrow> 's privateOps \<Rightarrow> bytes \<Rightarrow> bytes \<Rightarrow> bool" where
  "same_readable P Q actor role \<longleftrightarrow>
     (\<forall>c. mayRead actor role c \<longrightarrow> (\<forall>s k. p_read P s c k = p_read Q s c k))"

lemma privateLoad_cong:
  "same_readable P Q actor role \<Longrightarrow> mayRead actor role c \<Longrightarrow> privateLoad P s c k cd dst = privateLoad Q s c k cd dst"
  by (simp add: privateLoad_def same_readable_def)

lemma load_action_cong:
  "same_readable P Q actor role \<Longrightarrow> mayRead actor role audit \<Longrightarrow> load_action L P s a e acts = load_action L Q s a e acts"
  by (simp add: load_action_def privateLoad_cong split: option.split)

text \<open>
  C25.  Non-interference: the answer to a private query does not depend on any collection the
  caller may not read.  Two private stores that agree on the readable collections give the same
  answer, errors included, whatever else they hold.
\<close>

theorem private_query_isolated:
  assumes "same_readable P Q actor role"
  shows "privateQuery L P s actor role fn arg = privateQuery L Q s actor role fn arg"
proof -
  have audit: "analysisQuery L P s actor role fn arg = analysisQuery L Q s actor role fn arg" for fn arg
  proof (cases "mayRead actor role audit")
    case True
    then have "load_action L P s a = load_action L Q s a" for a
      using load_action_cong [OF assms] by (simp add: fun_eq_iff)
    then show ?thesis by (simp add: analysisQuery_def privateLoad_cong [OF assms True] cong: if_cong)
  qed (simp add: analysisQuery_def)
  show ?thesis
    unfolding privateQuery_def Let_def by (simp add: audit privateLoad_cong [OF assms] cong: if_cong)
qed

theorem private_query_isolated_witness:
  "\<forall>L s arg. privateQuery L \<lparr> p_read = (\<lambda>s c k. None), p_write = (\<lambda>c k v s. None) \<rparr> (s :: nat)
      Logistics ''carrier'' ''GetFreightCost'' arg
    = privateQuery L \<lparr> p_read = (\<lambda>s c k. if c = trade then Some ''secret'' else None), p_write = (\<lambda>c k v s. None) \<rparr> s
      Logistics ''carrier'' ''GetFreightCost'' arg"
  by (intro allI private_query_isolated)
    (simp add: same_readable_def mayRead_def trade_def freight_def Logistics_def Regulator_def Retailer_def Producer_def)

end
