(* ===== verification/Listing.thy ===== *)
theory Listing
  imports Commit
begin

text \<open>
  The entries a client reads through pages: the two indexes, the history, the references to
  evaluations and to review actions.  Every such key has the attributes the code builds it from,
  and every reference names what it stands for.
\<close>

subsection \<open>Entries and plans\<close>

definition entry_listed :: "bytes \<Rightarrow> bytes list \<Rightarrow> bytes \<Rightarrow> bool" where
  "entry_listed kind attrs w \<longleftrightarrow>
     (kind \<in> {''owner'', ''state'', ''history''} \<longrightarrow> length attrs = 2)
   \<and> (kind = ''evaluation'' \<longrightarrow>
        (\<exists>r. evaluationReference_ok r \<and> validID (er_AnomalyID r) ''ANM''
           \<and> attrs = [er_BatchID r] \<and> w = encoded (marshal evaluationReference_fields r)))
   \<and> (kind = ''reviewActionReference'' \<longrightarrow>
        (\<exists>a op. attrs = [a, op] \<and> validID op ''OP'' \<and> w = encoded (JStr op)))"

definition listed :: "public \<Rightarrow> bool" where
  "listed f \<longleftrightarrow> (\<forall>kind attrs. f kind attrs \<noteq> [] \<longrightarrow> entry_listed kind attrs (f kind attrs))"

text \<open>A write of such an entry; references are not deleted.\<close>

definition write_listed :: "('e) externals_scheme \<Rightarrow> bytes \<Rightarrow> bytes option \<Rightarrow> bool" where
  "write_listed L k v \<longleftrightarrow> (\<exists>kind attrs. CreateCompositeKey L kind attrs = Some k
     \<and> (\<forall>w. v = Some w \<longrightarrow> entry_listed kind attrs w) \<and> (kind = ''reviewActionReference'' \<longrightarrow> v \<noteq> None))"

definition plan_listed :: "('e) externals_scheme \<Rightarrow> writePlan \<Rightarrow> bool" where
  "plan_listed L p \<longleftrightarrow> (\<forall>(k, v) \<in> set p. write_listed L k v)"

lemma listed_empty: "listed (\<lambda>kind attrs. [])"
  by (simp add: listed_def)

lemma plan_listed_empty [simp]: "plan_listed L []"
  by (simp add: plan_listed_def)

lemma set_put_entry: "set (put_entry k v p) \<subseteq> insert (k, v) (set p)"
  by (induction p) (auto split: if_splits)

lemma plan_listed_put:
  assumes "plan_listed L p" "CreateCompositeKey L kind attrs = Some k"
    and "\<And>w. v = Some w \<Longrightarrow> entry_listed kind attrs w" "kind = ''reviewActionReference'' \<Longrightarrow> v \<noteq> None"
  shows "plan_listed L (put_entry k v p)"
proof -
  have "write_listed L k v" using assms(2-4) by (auto simp: write_listed_def)
  then show ?thesis using assms(1) set_put_entry [of k v p] by (auto simp: plan_listed_def)
qed

lemma set_merge_plan: "set (merge_plan q p) \<subseteq> set q \<union> set p"
proof (induction q arbitrary: p)
  case (Cons e q)
  obtain k v where e: "e = (k, v)" by force
  have "merge_plan (e # q) p = merge_plan q (put_entry k v p)" by (simp add: merge_plan_def e)
  then show ?case using Cons [of "put_entry k v p"] set_put_entry [of k v p] e by auto
qed (simp add: merge_plan_def)

lemma plan_listed_merge: "plan_listed L q \<Longrightarrow> plan_listed L p \<Longrightarrow> plan_listed L (merge_plan q p)"
  using set_merge_plan [of q p] by (auto simp: plan_listed_def)

text \<open>Most kinds of key are not listed anywhere.\<close>

definition listed_kinds :: "bytes list" where
  "listed_kinds = [''owner'', ''state'', ''history'', ''evaluation'', ''reviewActionReference'']"

lemma entry_unlisted: "kind \<notin> set listed_kinds \<Longrightarrow> entry_listed kind attrs w"
  by (simp add: entry_listed_def listed_kinds_def)

lemma plan_listed_within:
  "plan_within L kinds p \<Longrightarrow> set kinds \<inter> set listed_kinds = {} \<Longrightarrow> plan_listed L p"
  by (fastforce simp: plan_listed_def plan_within_def write_listed_def listed_kinds_def
      intro: entry_unlisted [unfolded listed_kinds_def])

subsection \<open>The shared end of a command\<close>

lemma put_record_listed:
  assumes "put_record L (kind, attrs, v) p = Inr q" "plan_listed L p" "entry_listed kind attrs (encoded v)"
  shows "plan_listed L q"
  using assms by (auto simp: put_record_def rbind_eq_Inr key_eq_Inr simp del: put_entry.simps intro!: plan_listed_put)

lemma drop_stale_listed:
  assumes "drop_stale L stale kind attrs p = Inr q" "plan_listed L p" "kind \<in> {''owner'', ''state''}"
  shows "plan_listed L q"
  using assms
  by (auto simp: drop_stale_def rbind_eq_Inr key_eq_Inr delete_key_def simp del: put_entry.simps
      intro!: plan_listed_put split: if_splits)

lemma finish_listed:
  assumes "finish L c x exists old d public = Inr (receipt, plan, event)"
    and d: "plan_listed L (d_plan d)" and public: "plan_listed L public"
  shows "plan_listed L plan"
proof -
  let ?b = "advance x old (d_batch d)"
  obtain q q1 q2 where q: "fold_result (put_record L)
       [(''batch'', [c_BatchID c], marshal Batch_fields ?b),
        (''batchEvidence'', [c_BatchID c], marshal EvidenceRefs_fields (d_refs d)),
        (''operation'', [x_Actor x, c_OperationID c], marshal Receipt_fields receipt),
        (''history'', [c_BatchID c, format_padded (b_Version ?b)], marshal Receipt_fields receipt),
        (''owner'', [b_OwnerMSP ?b, b_BatchID ?b], JStr (b_BatchID ?b)),
        (''state'', [b_State ?b, b_BatchID ?b], JStr (b_BatchID ?b))] (d_plan d) = Inr q"
    "drop_stale L (exists \<and> b_OwnerMSP old \<noteq> b_OwnerMSP ?b) ''owner'' [b_OwnerMSP old, b_BatchID ?b] q = Inr q1"
    "drop_stale L (exists \<and> b_State old \<noteq> b_State ?b) ''state'' [b_State old, b_BatchID ?b] q1 = Inr q2"
    and plan: "plan = merge_plan public q2"
    using assms(1) by (auto simp: finish_def Let_def rbind_eq_Inr simp del: fold_result.simps)
  have "plan_listed L q"
    by (rule fold_result_invariant [OF q(1), where P = "plan_listed L"])
      (use d in \<open>auto simp: entry_listed_def elim!: put_record_listed\<close>)
  then have "plan_listed L q2" by (intro drop_stale_listed [OF q(3)] drop_stale_listed [OF q(2)]) simp_all
  then show ?thesis unfolding plan by (intro plan_listed_merge public)
qed

subsection \<open>The evidence of a command\<close>

definition use_kinds :: "bytes list" where
  "use_kinds = [''document'', ''sourceUse'', ''nonceUse'']"

lemma mark_used_within:
  assumes "mark_used L s c x (k, code) p = Inr q" "plan_within L use_kinds p"
    and "CreateCompositeKey L kind attrs = Some k" "kind \<in> set use_kinds"
  shows "plan_within L use_kinds q"
  using assms
  by (auto simp: mark_used_def rbind_eq_Inr simp del: put_entry.simps intro!: plan_within_put split: if_splits)

lemma mark_document_within:
  assumes "mark_document L s c x doc public = Inr public'" "plan_within L use_kinds public"
  shows "plan_within L use_kinds public'"
proof -
  let ?h = "env_Header (bu_Envelope doc)"
  obtain k1 k2 k3 p1 p2 p3 where k: "CreateCompositeKey L ''document'' [h_DocumentID ?h] = Some k1"
      "CreateCompositeKey L ''sourceUse'' [h_IssuerID ?h, h_SourceDocumentID ?h] = Some k2"
      "CreateCompositeKey L ''nonceUse'' [h_IssuerID ?h, h_Nonce ?h] = Some k3"
    and m: "mark_used L s c x (k1, ''DOCUMENT_ALREADY_USED'') public = Inr p1"
      "mark_used L s c x (k2, ''DOCUMENT_ALREADY_USED'') p1 = Inr p2"
      "mark_used L s c x (k3, ''SOURCE_NONCE_ALREADY_USED'') p2 = Inr p3"
    and p: "public' = put_entry k1 (Some (encoded (marshal envelope_fields (bu_Envelope doc)))) p3"
    using assms(1) by (auto simp: mark_document_def Let_def rbind_eq_Inr key_eq_Inr)
  have "plan_within L use_kinds p3"
    by (intro mark_used_within [OF m(3) _ k(3)] mark_used_within [OF m(2) _ k(2)] mark_used_within [OF m(1) _ k(1)] assms(2))
      (simp_all add: use_kinds_def)
  then show ?thesis unfolding p by (rule plan_within_put [OF _ k(1)]) (simp add: use_kinds_def)
qed

lemma prepare_document_within:
  assumes "prepare_document L s t x c b doc acc = Inr acc'" "plan_within L use_kinds (v_Public (snd acc))"
  shows "plan_within L use_kinds (v_Public (snd acc'))"
proof -
  obtain required v where acc: "acc = (required, v)" by force
  obtain public v1 collection where m: "mark_document L s c x doc (v_Public v) = Inr public"
    and v1: "document_claim L t x c b doc (v \<lparr> v_Public := public \<rparr>) = Inr (v1, collection)"
    and acc': "v_Public (snd acc') = v_Public v1"
    using assms(1) unfolding acc
    by (auto simp: prepare_document_def Let_def rbind_eq_Inr split: if_splits dest: add_private_public)
  show ?thesis using mark_document_within [OF m] document_claim_public [OF v1] assms(2) acc acc' by simp
qed

lemma analysis_listed:
  assumes run: "analysis L P s t x c b refs = Inr v"
    and cmd: "c_Command c \<in> {''EvaluatePrice'', ''OpenReview'', ''ResolveReview''}"
    and facts: "validatePayload c = Inr ()" "match_hexID (x_TxID x)" "validID (b_BatchID b) ''BAT''"
      "validID (c_OperationID c) ''OP''"
  shows "plan_listed L (v_Public v)"
proof -
  let ?p = "payload_of analysisInput_fields analysisInput_zero c"
  have p: "validID (ai_AnomalyID ?p) ''ANM''" "c_Command c = ''EvaluatePrice'' \<Longrightarrow> validID (ai_ReportID ?p) ''RPT''"
    using validate_analysis [OF facts(1) cmd] payload_of_eq by metis+
  obtain a v0 where v0: "(if c_Command c = ''EvaluatePrice'' then analysis_evaluate L P s t x c b refs ?p
       else analysis_review L P s t x c b ?p) = Inr (a, v0)" and v: "v_Public v = v_Public v0"
    using run by (auto simp: analysis_def Let_def rbind_eq_Inr split: if_splits dest: add_private_public)
  show ?thesis
  proof (cases "c_Command c = ''EvaluatePrice''")
    case True
    let ?r = "\<lparr> er_SchemaVersion = ''agrochain.evaluation-reference.v1'', er_BatchID = b_BatchID b,
      er_ReportID = ai_ReportID ?p, er_AnomalyID = ai_AnomalyID ?p, er_TxID = x_TxID x \<rparr>"
    obtain k1 k2 where k: "CreateCompositeKey L ''evaluation'' [b_BatchID b] = Some k1"
      "CreateCompositeKey L ''anomalyReference'' [ai_AnomalyID ?p] = Some k2"
      and p0: "v_Public v0 = put_entry k2 (Some (encoded (marshal evaluationReference_fields ?r)))
        (put_entry k1 (Some (encoded (marshal evaluationReference_fields ?r))) [])"
      using v0 True
      by (auto simp: analysis_evaluate_def Let_def rbind_eq_Inr key_eq_Inr split: if_splits
          simp del: put_entry.simps)
    have ok: "evaluationReference_ok ?r"
      using p True facts(2,3) by (simp add: evaluationReference_ok_def validID_text hexID_text)
    have "entry_listed ''evaluation'' [b_BatchID b] (encoded (marshal evaluationReference_fields ?r))"
      unfolding entry_listed_def using ok p(1) by (auto intro!: exI [of _ ?r])
    moreover have "entry_listed ''anomalyReference'' [ai_AnomalyID ?p] w" for w
      by (rule entry_unlisted) (simp add: listed_kinds_def)
    ultimately show ?thesis
      unfolding v p0 by (intro plan_listed_put [OF _ k(2)] plan_listed_put [OF _ k(1)]) simp_all
  next
    case False
    obtain k1 where k: "CreateCompositeKey L ''reviewActionReference'' [ai_AnomalyID ?p, c_OperationID c] = Some k1"
      "v_Public v0 = put_entry k1 (Some (encoded (JStr (c_OperationID c)))) []"
      using v0 False
      by (auto simp: analysis_review_def Let_def rbind_eq_Inr key_eq_Inr verified_zero_def
          split: if_splits simp del: put_entry.simps dest!: add_private_public)
    have "entry_listed ''reviewActionReference'' [ai_AnomalyID ?p, c_OperationID c] (encoded (JStr (c_OperationID c)))"
      unfolding entry_listed_def using facts(4) by auto
    then show ?thesis unfolding v k(2) by (intro plan_listed_put [OF _ k(1)]) simp_all
  qed
qed

lemma prepare_listed:
  assumes run: "prepare L P s t x c b refs = Inr v"
    and facts: "validatePayload c = Inr ()" "match_hexID (x_TxID x)" "validID (c_OperationID c) ''OP''"
    and batch: "b_State b = RetailReported \<Longrightarrow> validID (b_BatchID b) ''BAT''"
  shows "plan_listed L (v_Public v)"
proof (cases "c_Command c \<in> {''EvaluatePrice'', ''OpenReview'', ''ResolveReview''}")
  case True
  have run': "analysis L P s t x c b refs = Inr v" using run by (simp add: prepare_analysis [OF True])
  then have "b_State b = RetailReported" by (simp add: analysis_def split: if_splits)
  then show ?thesis by (intro analysis_listed [OF run' True facts(1,2) batch facts(3)])
next
  case False
  show ?thesis
  proof (rule prepare_stages [OF run False])
    fix config required extra documents required' v1
    assume docs: "fold_result (prepare_document L s t x c b) documents (required, verified_zero) = Inr (required', v1)"
      and v: "if c_Command c = ''ReportRetailPrice'' then prepare_report L P s t x config c b refs v1 = Inr v
        else v = v1"
    have "plan_within L use_kinds (v_Public (snd (required', v1)))"
      by (rule fold_result_invariant [OF docs, where P = "\<lambda>a. plan_within L use_kinds (v_Public (snd a))"])
        (auto simp: verified_zero_def intro: prepare_document_within)
    then have "plan_within L use_kinds (v_Public v)" using v by (auto split: if_splits dest!: prepare_report_public)
    then show ?thesis by (rule plan_listed_within) (simp add: use_kinds_def listed_kinds_def)
  qed
qed

text \<open>The kinds of key that hold current state.\<close>

definition mutable_kinds :: "bytes list" where
  "mutable_kinds = [''batch'', ''batchEvidence'', ''owner'', ''state'', ''transfer'', ''pendingTransfer'']"

subsection \<open>The invariant\<close>

lemma listed_outcome:
  assumes L: "\<And>kind as kind' as' k. CreateCompositeKey L kind as = Some k \<Longrightarrow>
      CreateCompositeKey L kind' as' = Some k \<Longrightarrow> kind = kind' \<and> as = as'"
    and w: "listed (at L w)" and p: "plan_listed L p"
  shows "listed (at L (outcome (map_of p) w))"
  unfolding listed_def
proof (intro allI impI)
  fix kind attrs
  assume n: "at L (outcome (map_of p) w) kind attrs \<noteq> []"
  then obtain k where k: "CreateCompositeKey L kind attrs = Some k" by (auto simp: at_def split: option.splits)
  show "entry_listed kind attrs (at L (outcome (map_of p) w) kind attrs)"
  proof (cases "map_of p k")
    case None
    then have "at L (outcome (map_of p) w) kind attrs = at L w kind attrs" by (simp add: at_def k outcome_def)
    then show ?thesis using w n by (simp add: listed_def)
  next
    case (Some v)
    then obtain u where u: "v = Some u" "at L (outcome (map_of p) w) kind attrs = u"
      using n by (cases v) (auto simp: at_def k outcome_def)
    have "write_listed L k (Some u)" using p map_of_SomeD [OF Some] u(1) by (auto simp: plan_listed_def)
    then show ?thesis unfolding u(2) write_listed_def using L [OF k] by blast
  qed
qed

text \<open>A reference to a review action stays what it is: its key determines its value.\<close>

lemma review_entry: "entry_listed ''reviewActionReference'' attrs v \<Longrightarrow> entry_listed ''reviewActionReference'' attrs w \<Longrightarrow> v = w"
  by (auto simp: entry_listed_def)

lemma kept_outcome:
  assumes L: "\<And>kind as kind' as' k. CreateCompositeKey L kind as = Some k \<Longrightarrow>
      CreateCompositeKey L kind' as' = Some k \<Longrightarrow> kind = kind' \<and> as = as'"
    and w: "listed (at L w)" and p: "plan_listed L p"
    and here: "at L w ''reviewActionReference'' attrs \<noteq> []"
  shows "at L (outcome (map_of p) w) ''reviewActionReference'' attrs = at L w ''reviewActionReference'' attrs"
proof -
  obtain k where k: "CreateCompositeKey L ''reviewActionReference'' attrs = Some k"
    using here by (auto simp: at_def split: option.splits)
  show ?thesis
  proof (cases "map_of p k")
    case None
    then show ?thesis by (simp add: at_def k outcome_def)
  next
    case (Some v)
    have "write_listed L k v" using p map_of_SomeD [OF Some] by (auto simp: plan_listed_def)
    then obtain kind attrs' where k': "CreateCompositeKey L kind attrs' = Some k"
      "\<forall>w. v = Some w \<longrightarrow> entry_listed kind attrs' w" "kind = ''reviewActionReference'' \<longrightarrow> v \<noteq> None"
      by (auto simp: write_listed_def)
    then have "kind = ''reviewActionReference''" "attrs' = attrs" using L [OF k k'(1)] by simp_all
    then obtain u where u: "v = Some u" "entry_listed ''reviewActionReference'' attrs u" using k'(2,3) by auto
    have "at L (outcome (map_of p) w) ''reviewActionReference'' attrs = u"
      using Some u(1) by (simp add: at_def k outcome_def)
    then show ?thesis using review_entry [OF u(2)] w here by (simp add: listed_def)
  qed
qed

context ledger_store begin

lemma engine_apply_listed:
  assumes s: "fresh s" and world: "world_ok (at L (view s))" and listed: "listed (at L (view s))"
    and run: "engine_apply L (prepare L P s t x) c x s = (Inr receipt, s')"
    and ids: "validID (c_BatchID c) ''BAT''" "validID (c_OperationID c) ''OP''"
  shows "listed (at L (view s')) \<and> (at L (view s) ''reviewActionReference'' attrs \<noteq> [] \<longrightarrow>
    at L (view s') ''reviewActionReference'' attrs = at L (view s) ''reviewActionReference'' attrs)"
proof -
  from engine_apply_view [OF run] obtain exists old refs v d plan event where
    checks: "apply_checks L s c x = Inr (exists, old, refs)" and ev: "prepare L P s t x c old refs = Inr v"
    and draft: "apply_command L s c x old refs v = Inr d"
    and fin: "finish L c x exists old d (v_Public v) = Inr (receipt, plan, event)"
    and view: "view s' = outcome (map_of plan) (view s)" .
  note facts = apply_checks_facts [OF checks s world]
  have "validID (b_BatchID old) ''BAT''" if "b_State old = RetailReported"
    using facts(9) that by (auto simp: batch_here_def batch_shape_def Batch_zero_def state_defs split: if_splits)
  then have "plan_listed L (v_Public v)" by (rule prepare_listed [OF ev facts(2,3) ids(2)])
  moreover have "plan_listed L (d_plan d)"
    by (rule plan_listed_within [OF draft_within [OF draft]]) (simp add: draft_kinds_def listed_kinds_def)
  ultimately have "plan_listed L plan" by (intro finish_listed [OF fin])
  then show ?thesis
    unfolding view by (intro conjI impI listed_outcome [OF key_inject listed] kept_outcome [OF key_inject listed])
qed

lemma bootstrap_listed:
  assumes "listed (at L (view s))" "bootstrap L x raw s = (Inr c, s')"
  shows "listed (at L (view s')) \<and> (at L (view s) ''reviewActionReference'' attrs \<noteq> [] \<longrightarrow>
    at L (view s') ''reviewActionReference'' attrs = at L (view s) ''reviewActionReference'' attrs)"
proof -
  obtain plan where plan: "bootstrap_plan L s x raw = Inr (c, plan)" "view s' = outcome (map_of plan) (view s)"
    using bootstrap_view [OF assms(2)] by blast
  have "plan_listed L plan"
    by (rule plan_listed_within [OF bootstrap_plan_within [OF plan(1)]]) (simp add: trust_kinds_def listed_kinds_def)
  then show ?thesis
    unfolding plan(2) by (intro conjI impI listed_outcome [OF key_inject assms(1)] kept_outcome [OF key_inject assms(1)])
qed

end

context shim_stub begin

lemma dispatch_listed:
  assumes run: "dispatch (fabricLedger stub) msp role fn args request s = (Inr r, s')"
    and s: "fresh s" and world: "world_ok (at stub (view s))" and listed: "listed (at stub (view s))"
  shows "listed (at stub (view s')) \<and> (at stub (view s) ''reviewActionReference'' attrs \<noteq> [] \<longrightarrow>
    at stub (view s') ''reviewActionReference'' attrs = at stub (view s) ''reviewActionReference'' attrs)"
  using run
proof (cases rule: dispatch_cases)
  case read
  then show ?thesis using listed by simp
next
  case (boot x raw c)
  then show ?thesis using fabric.bootstrap_listed [OF _ boot(3), of attrs] listed by simp
next
  case command
  from command(2) show ?thesis
  proof (rule dispatch_command_success)
    fix c P pr receipt
    assume c: "parseCommand fn (hd args) = Inr c"
      and run: "engine_apply (fabricLedger stub) (prepare (fabricLedger stub) P s (pr_transient pr) (pr_x pr))
          c (pr_x pr) s = (Inr receipt, s')"
    show ?thesis
      using fabric.engine_apply_listed [OF s _ _ run parseCommand_ids(2,3) [OF c], of attrs] world listed by simp
  qed
qed

lemma later_kept:
  assumes s: "fresh s" "consistent (at stub (view s))" "listed (at stub (view s))"
    and later: "reachable stub commit s s'"
  shows "listed (at stub (view s')) \<and> (at stub (view s) ''reviewActionReference'' attrs \<noteq> [] \<longrightarrow>
    at stub (view s') ''reviewActionReference'' attrs = at stub (view s) ''reviewActionReference'' attrs)"
  using later
proof (induction rule: reachable.induct)
  case start
  then show ?case using s(3) by simp
next
  case (transaction s1 i b s2)
  have s1: "fresh s1" "world_ok (at stub (view s1))"
    using later_consistent [OF s(1,2) transaction(1)] by (simp_all add: consistent_def)
  have "listed (at stub (view s2)) \<and> (at stub (view s1) ''reviewActionReference'' attrs \<noteq> [] \<longrightarrow>
      at stub (view s2) ''reviewActionReference'' attrs = at stub (view s1) ''reviewActionReference'' attrs)"
    using transaction(2) by (rule Invoke_Success) (use s1 transaction.IH dispatch_listed in blast)
  then show ?case using transaction.IH by (simp add: commit)
qed

lemmas later_listed = later_kept [THEN conjunct1]

text \<open>Whatever does not hold current state is never changed.\<close>

lemma records_kept:
  assumes s: "fresh s" "consistent (at stub (view s))" and later: "reachable stub commit s s'"
    and kind: "kind \<notin> set mutable_kinds" "kind = ''reviewActionReference'' \<Longrightarrow> listed (at stub (view s))"
    and here: "at stub (view s) kind attrs \<noteq> []"
  shows "at stub (view s') kind attrs = at stub (view s) kind attrs"
proof (cases "kind = ''reviewActionReference''")
  case True
  then show ?thesis using later_kept [OF s kind(2) later, of attrs] here by simp
next
  case False
  then have "kind \<notin> set rewritten_kinds" using kind(1) by (auto simp: rewritten_kinds_def mutable_kinds_def)
  then show ?thesis using later_additive [OF s later, of kind attrs] here by simp
qed

end

end
