(* ===== verification/Pages.thy ===== *)
theory Pages
  imports Listing
begin

text \<open>
  What a page answers: the batches an index page lists are stored batches that have the owner or
  state asked for, and the receipts of a history page are those of the batch.
\<close>

text \<open>A record that stands for a batch of the owner, or in the state, asked for; and one of its history.\<close>

definition batch_record :: "public \<Rightarrow> bytes \<Rightarrow> bytes \<Rightarrow> bytes \<Rightarrow> bool" where
  "batch_record f fn filt r \<longleftrightarrow> (\<exists>i b refs. batch_here f i b refs \<and> r = encoded (marshal Batch_fields b)
     \<and> (if fn = ''QueryBatchesByOwner'' then b_OwnerMSP b else b_State b) = filt)"

definition history_record :: "public \<Rightarrow> bytes \<Rightarrow> bytes \<Rightarrow> bool" where
  "history_record f i r \<longleftrightarrow> (\<exists>n receipt. f ''history'' [i, n] \<noteq> []
     \<and> Unmarshal Receipt_fields (f ''history'' [i, n]) Receipt_zero = Some receipt
     \<and> r = encoded (marshal Receipt_fields receipt))"

subsection \<open>One record\<close>

lemma page_record_facts:
  assumes "page_record L s kind e acc = Inr acc'"
  shows "kind = ''history'' \<Longrightarrow> \<exists>r. Unmarshal Receipt_fields (en_Value e) Receipt_zero = Some r
      \<and> acc' = acc @ [encoded (marshal Receipt_fields r)]"
    and "kind \<noteq> ''history'' \<Longrightarrow> \<exists>name k b. decoded string_codec [] (en_Value e) = Some name
      \<and> CreateCompositeKey L ''batch'' [name] = Some k
      \<and> load L s k (struct_codec Batch_fields) Batch_zero = Inr (True, b)
      \<and> acc' = acc @ [encoded (marshal Batch_fields b)]"
  using assms
  by (auto simp: page_record_def rbind_eq_Inr key_eq_Inr canonical_def decoded_def if_Inl_eq_Inr
      split: option.splits)

text \<open>All records of a page: each comes from one entry.\<close>

lemma page_records_from:
  assumes "fold_result (page_record L s kind) items acc = Inr records"
    and "\<And>e acc acc'. e \<in> set items \<Longrightarrow> page_record L s kind e acc = Inr acc' \<Longrightarrow> \<exists>r. acc' = acc @ [r] \<and> Q r"
    and "\<forall>r \<in> set acc. Q r"
  shows "\<forall>r \<in> set records. Q r"
  by (rule fold_result_invariant [OF assms(1), where P = "\<lambda>a. \<forall>r \<in> set a. Q r"])
    (use assms(2,3) in fastforce)+

lemma page_query_facts:
  assumes "page_query L s fn arg = Inr v"
  obtains p kind items nxt records where
    "decode pageInput_fields arg pageInput_zero [''schemaVersion'', ''filter'', ''pageSize'', ''bookmark''] = Inr p"
    "1 \<le> pi_PageSize p" "pi_PageSize p \<le> 100" "page_kind fn (pi_Filter p) = Inr kind"
    "l_page L s kind [pi_Filter p] (pi_PageSize p) (pi_Bookmark p) = Inr (items, nxt)"
    "fold_result (page_record L s kind) items [] = Inr records"
    "v = Some (marshal Page_fields
       \<lparr> pg_SchemaVersion = ''agrochain.page.v1'', pg_Records = records, pg_Bookmark = nxt \<rparr>)"
  using assms by (auto simp: page_query_def rbind_eq_Inr split: if_splits)

context paging_stub begin

lemma page_bookmark_within:
  "page_bookmark E kind attrs token = Inr b \<Longrightarrow>
     b = [] \<or> (\<exists>k. CreateCompositeKey E kind attrs = Some k \<and> HasPrefix b k)"
  by (auto simp: page_bookmark_def Let_def rbind_eq_Inr key_eq_Inr split: if_splits option.splits)

lemma page_entry:
  assumes "fresh s" "l_page (fabricLedger stub) s kind attrs limit token = Inr (items, nxt)" "e \<in> set items"
  shows "\<exists>rest. at stub (view s) kind (attrs @ rest) = en_Value e \<and> en_Value e \<noteq> []"
proof -
  obtain bookmark it meta where start: "page_bookmark stub kind attrs token = Inr bookmark" and
    it: "GetStateByPartialCompositeKeyWithPagination stub s kind attrs limit bookmark = Some (it, meta)" "those it = Some items"
    using assms(2) by (auto simp: fabricLedger_def fabric_page_def rbind_eq_Inr of_option_eq_Inr split: option.splits)
  have "Some e \<in> set it" using it(2) assms(3)
    by (induction it arbitrary: items) (auto split: option.splits)
  from page_law [OF assms(1) page_bookmark_within [OF start] it(1) this] obtain rest where
    "CreateCompositeKey stub kind (attrs @ rest) = Some (en_Key e)" "en_Value e = view s (en_Key e)" "en_Value e \<noteq> []"
    by blast
  then show ?thesis by (intro exI [of _ rest]) (simp add: at_def)
qed

lemma loaded_batch:
  assumes s: "fresh s" and here: "batch_here (at stub (view s)) i b refs"
    and k: "CreateCompositeKey (fabricLedger stub) ''batch'' [i] = Some k"
    and l: "load (fabricLedger stub) s k (struct_codec Batch_fields) Batch_zero = Inr (True, b')"
  shows "b' = b"
  using fabric.load_view(2) [OF l s] here k
  by (simp add: batch_here_def at_def fabricLedger_def batch_decoded)

lemma indexed_batch:
  assumes s: "fresh s" and world: "world_ok (at stub (view s))" and listed: "listed (at stub (view s))"
    and page: "l_page (fabricLedger stub) s kind [filt] limit token = Inr (items, nxt)" "e \<in> set items"
    and kind: "kind = ''owner'' \<or> kind = ''state''"
  obtains i b refs where "batch_here (at stub (view s)) i b refs" "decoded string_codec [] (en_Value e) = Some i"
    "filt = (if kind = ''owner'' then b_OwnerMSP b else b_State b)"
proof -
  let ?f = "at stub (view s)"
  obtain rest where e: "?f kind ([filt] @ rest) = en_Value e" "en_Value e \<noteq> []"
    using page_entry [OF s page] by blast
  then have "entry_listed kind ([filt] @ rest) (en_Value e)" using listed by (metis listed_def)
  then have "length ([filt] @ rest) = 2" using kind by (auto simp: entry_listed_def)
  then obtain i where i: "rest = [i]" by (cases rest) auto
  have "\<not> no_batch ?f i" using e kind by (auto simp: no_batch_def i)
  then obtain b refs where here: "batch_here ?f i b refs" using world by (auto simp: world_ok_def)
  then have b: "index_world ?f b" "b_BatchID b = i" "text_ok i"
    by (auto simp: batch_here_def batch_shape_def validID_text)
  have "?f ''owner'' [filt, i] = (if filt = b_OwnerMSP b then encoded (JStr i) else [])"
    "?f ''state'' [filt, i] = (if filt = b_State b then encoded (JStr i) else [])"
    using b(1) unfolding index_world_def b(2) by blast+
  then have v: "filt = (if kind = ''owner'' then b_OwnerMSP b else b_State b)" "en_Value e = encoded (JStr i)"
    using e kind by (auto simp: i simp del: json_print.simps split: if_splits)
  show thesis by (rule that [OF here _ v(1)], unfold v(2), rule decoded_string [OF b(3)])
qed

lemma page_batches:
  assumes s: "fresh s" and world: "world_ok (at stub (view s))" and listed: "listed (at stub (view s))"
    and run: "page_query (fabricLedger stub) s fn arg = Inr v"
    and fn: "fn = ''QueryBatchesByOwner'' \<or> fn = ''QueryBatchesByState''"
  shows "\<exists>p pg. decode pageInput_fields arg pageInput_zero
       [''schemaVersion'', ''filter'', ''pageSize'', ''bookmark''] = Inr p
   \<and> v = Some (marshal Page_fields pg)
   \<and> (\<forall>r \<in> set (pg_Records pg). batch_record (at stub (view s)) fn (pi_Filter p) r)"
proof (rule page_query_facts [OF run])
  fix p kind items nxt records
  assume p: "decode pageInput_fields arg pageInput_zero
       [''schemaVersion'', ''filter'', ''pageSize'', ''bookmark''] = Inr p"
    and k: "page_kind fn (pi_Filter p) = Inr kind"
    and page: "l_page (fabricLedger stub) s kind [pi_Filter p] (pi_PageSize p) (pi_Bookmark p) = Inr (items, nxt)"
    and records: "fold_result (page_record (fabricLedger stub) s kind) items [] = Inr records"
    and v: "v = Some (marshal Page_fields
       \<lparr> pg_SchemaVersion = ''agrochain.page.v1'', pg_Records = records, pg_Bookmark = nxt \<rparr>)"
  have kind: "kind = (if fn = ''QueryBatchesByOwner'' then ''owner'' else ''state'')"
    using k fn by (auto simp: page_kind_def split: if_splits)
  have "\<forall>r \<in> set records. batch_record (at stub (view s)) fn (pi_Filter p) r"
  proof (rule page_records_from [OF records])
    fix e acc acc'
    assume e: "e \<in> set items" and r: "page_record (fabricLedger stub) s kind e acc = Inr acc'"
    have "kind \<noteq> ''history''" using kind by simp
    then obtain name k b where b: "decoded string_codec [] (en_Value e) = Some name"
      "CreateCompositeKey (fabricLedger stub) ''batch'' [name] = Some k"
      "load (fabricLedger stub) s k (struct_codec Batch_fields) Batch_zero = Inr (True, b)"
      "acc' = acc @ [encoded (marshal Batch_fields b)]"
      using page_record_facts(2) [OF r] by blast
    have "kind = ''owner'' \<or> kind = ''state''" using kind by simp
    then obtain i b0 refs where here: "batch_here (at stub (view s)) i b0 refs"
      "decoded string_codec [] (en_Value e) = Some i"
      "pi_Filter p = (if kind = ''owner'' then b_OwnerMSP b0 else b_State b0)"
      using indexed_batch [OF s world listed page e] by metis
    have "name = i" using here(2) b(1) by simp
    then have "b = b0" using loaded_batch [OF s here(1)] b(2,3) by blast
    then have "batch_record (at stub (view s)) fn (pi_Filter p) (encoded (marshal Batch_fields b))"
      unfolding batch_record_def using here kind by (intro exI [of _ i] exI [of _ b] exI [of _ refs]) simp
    then show "\<exists>r. acc' = acc @ [r] \<and> batch_record (at stub (view s)) fn (pi_Filter p) r"
      using b(4) by blast
  qed simp
  then show ?thesis
    by (intro exI [of _ p] exI [of _ "\<lparr> pg_SchemaVersion = ''agrochain.page.v1'', pg_Records = records, pg_Bookmark = nxt \<rparr>"])
      (simp add: p v)
qed

lemma page_history:
  assumes s: "fresh s" and listed: "listed (at stub (view s))"
    and run: "page_query (fabricLedger stub) s ''GetBatchHistory'' arg = Inr v"
  shows "\<exists>p pg. decode pageInput_fields arg pageInput_zero
       [''schemaVersion'', ''filter'', ''pageSize'', ''bookmark''] = Inr p
   \<and> v = Some (marshal Page_fields pg)
   \<and> (\<forall>r \<in> set (pg_Records pg). history_record (at stub (view s)) (pi_Filter p) r)"
proof (rule page_query_facts [OF run])
  fix p kind items nxt records
  assume p: "decode pageInput_fields arg pageInput_zero
       [''schemaVersion'', ''filter'', ''pageSize'', ''bookmark''] = Inr p"
    and k: "page_kind ''GetBatchHistory'' (pi_Filter p) = Inr kind"
    and page: "l_page (fabricLedger stub) s kind [pi_Filter p] (pi_PageSize p) (pi_Bookmark p) = Inr (items, nxt)"
    and records: "fold_result (page_record (fabricLedger stub) s kind) items [] = Inr records"
    and v: "v = Some (marshal Page_fields
       \<lparr> pg_SchemaVersion = ''agrochain.page.v1'', pg_Records = records, pg_Bookmark = nxt \<rparr>)"
  have kind: "kind = ''history''" using k by (simp add: page_kind_def split: if_splits)
  let ?f = "at stub (view s)"
  have "\<forall>r \<in> set records. history_record ?f (pi_Filter p) r"
  proof (rule page_records_from [OF records])
    fix e acc acc'
    assume e: "e \<in> set items" and r: "page_record (fabricLedger stub) s kind e acc = Inr acc'"
    obtain receipt where receipt: "Unmarshal Receipt_fields (en_Value e) Receipt_zero = Some receipt"
      "acc' = acc @ [encoded (marshal Receipt_fields receipt)]"
      using page_record_facts(1) [OF r kind] by blast
    obtain rest where rest: "?f ''history'' ([pi_Filter p] @ rest) = en_Value e" "en_Value e \<noteq> []"
      using page_entry [OF s page e] unfolding kind by blast
    then have "entry_listed ''history'' ([pi_Filter p] @ rest) (en_Value e)" using listed by (metis listed_def)
    then have "length ([pi_Filter p] @ rest) = 2" by (simp add: entry_listed_def)
    then obtain n where "rest = [n]" by (cases rest) auto
    then have "history_record ?f (pi_Filter p) (encoded (marshal Receipt_fields receipt))"
      unfolding history_record_def using rest receipt(1)
      by (intro exI [of _ n] exI [of _ receipt]) simp
    then show "\<exists>r. acc' = acc @ [r] \<and> history_record ?f (pi_Filter p) r" using receipt(2) by blast
  qed simp
  then show ?thesis
    by (intro exI [of _ p] exI [of _ "\<lparr> pg_SchemaVersion = ''agrochain.page.v1'', pg_Records = records, pg_Bookmark = nxt \<rparr>"])
      (simp add: p v)
qed

end

end
