(* ===== verification/Robust.thy ===== *)
theory Robust
  imports Strict Genesis Pages
begin

text \<open>
  The chaincode does not crash.  The only panics of the code are the one in \<open>key\<close>, for a text the
  shim does not make a key of, and the two type assertions of the evidence decoders.  Everything a
  key is made of has been checked before or comes from a well-formed ledger, and strict decoding has
  settled the shape that the assertions assert.
\<close>

named_theorems calm_rules \<open>rules and facts: this computation does not panic\<close>

definition calm :: "'a res \<Rightarrow> bool" where
  "calm r \<longleftrightarrow> (\<forall>m. r \<noteq> Inl (Panic m))"

lemma calm_leaves [calm_rules]: "calm (Inr x)" "calm (Inl (fail c))"
  by (simp_all add: calm_def)

lemma calm_rbind [calm_rules]: "calm m \<Longrightarrow> (\<And>x. m = Inr x \<Longrightarrow> calm (f x)) \<Longrightarrow> calm (rbind m f)"
  by (cases m) (simp_all add: calm_def)

lemma calm_if [calm_rules]: "(c \<Longrightarrow> calm a) \<Longrightarrow> (\<not> c \<Longrightarrow> calm b) \<Longrightarrow> calm (if c then a else b)"
  by simp

lemma calm_pair [calm_rules]: "(\<And>a b. p = (a, b) \<Longrightarrow> calm (f a b)) \<Longrightarrow> calm (case p of (a, b) \<Rightarrow> f a b)"
  by (cases p) simp

lemma calm_option [calm_rules]:
  "calm a \<Longrightarrow> (\<And>x. m = Some x \<Longrightarrow> calm (f x)) \<Longrightarrow> calm (case m of None \<Rightarrow> a | Some x \<Rightarrow> f x)"
  by (cases m) simp_all

lemma calm_of_option [calm_rules]: "calm (of_option (fail c) m)"
  by (cases m) (simp_all add: calm_def)

lemma calm_jv [calm_rules]:
  "\<lbrakk> \<And>x. v = JObj x \<Longrightarrow> calm (fo x); \<And>x. v = JArr x \<Longrightarrow> calm (fa x); \<And>x. calm (fs x); \<And>x. calm (fn x);
     \<And>x. calm (fb x); calm z \<rbrakk> \<Longrightarrow>
   calm (case v of JObj x \<Rightarrow> fo x | JArr x \<Rightarrow> fa x | JStr x \<Rightarrow> fs x | JNum x \<Rightarrow> fn x | JBool x \<Rightarrow> fb x | JNull \<Rightarrow> z)"
  by (cases v) simp_all

lemma calm_sum [calm_rules]:
  "(\<And>e. r = Inl e \<Longrightarrow> calm (g e)) \<Longrightarrow> (\<And>x. r = Inr x \<Longrightarrow> calm (f x)) \<Longrightarrow>
     calm (case r of Inl e \<Rightarrow> g e | Inr x \<Rightarrow> f x)"
  by (cases r) simp_all

lemma calm_Inl: "calm r \<Longrightarrow> r = Inl e \<Longrightarrow> calm (Inl e)"
  by (simp add: calm_def)

lemma calm_fold:
  assumes "\<And>x s. x \<in> set xs \<Longrightarrow> P s \<Longrightarrow> calm (f x s)"
    and "\<And>x s s'. x \<in> set xs \<Longrightarrow> P s \<Longrightarrow> f x s = Inr s' \<Longrightarrow> P s'" and "P s"
  shows "calm (fold_result f xs s)"
  using assms
proof (induction xs arbitrary: s)
  case (Cons x xs)
  show ?case
    unfolding fold_result.simps
  proof (rule calm_rbind)
    show "calm (f x s)" using Cons.prems(1,3) by simp
    show "calm (fold_result f xs s')" if "f x s = Inr s'" for s'
    proof -
      have "P s'" by (rule Cons.prems(2) [OF _ Cons.prems(3) that]) simp
      then show ?thesis using Cons.prems(1,2) by (intro Cons.IH) (simp_all, blast)
    qed
  qed
qed (simp add: calm_rules)

lemma calm_fold_all: "(\<And>x s. x \<in> set xs \<Longrightarrow> calm (f x s)) \<Longrightarrow> calm (fold_result f xs s)"
  by (rule calm_fold [where P = "\<lambda>_. True"]) auto

subsection \<open>Without keys\<close>

lemma calm_strictJSON [calm_rules]: "calm (strictJSON raw)"
  unfolding strictJSON_def by (intro calm_rules)

lemma calm_decode [calm_rules]: "calm (decode fs raw dst names)"
  unfolding decode_def by (intro calm_rules)

lemma calm_exact [calm_rules]: "calm (exact fs raw dst)"
  unfolding exact_def by (intro calm_rules)

lemma calm_canonical [calm_rules]: "calm (canonical v)"
  unfolding canonical_def by (intro calm_rules)

lemma calm_encodedExact [calm_rules]: "calm (encodedExact fs v dst)"
  unfolding encodedExact_def by (intro calm_rules)

lemma calm_validatePayload [calm_rules]: "calm (validatePayload c)"
  unfolding validatePayload_def Let_def by (intro calm_rules)

lemma calm_parseCommand [calm_rules]: "calm (parseCommand fn raw)"
  unfolding parseCommand_def by (intro calm_rules)

lemma calm_authorize [calm_rules]: "calm (authorize actor role fn)"
  unfolding authorize_def Let_def by (intro calm_rules)

lemma calm_load [calm_rules]: "calm (load L s k c dst)"
  unfolding load_def by (intro calm_rules)

lemma calm_absent [calm_rules]: "calm (absent L s k code)"
  unfolding absent_def Let_def by (intro calm_rules)

lemma calm_put [calm_rules]: "calm (put p k v)"
  unfolding put_def by (intro calm_rules)

lemma calm_rawURL [calm_rules]: "calm (rawURL v n)"
  unfolding rawURL_def by (intro calm_rules)

lemma calm_commitment [calm_rules]: "calm (commitment L body salt)"
  unfolding commitment_def by (intro calm_rules)

lemma calm_privateLoad [calm_rules]: "calm (privateLoad P s collection k c dst)"
  unfolding privateLoad_def by (intro calm_rules)

lemma calm_add_private [calm_rules]: "calm (add_private v collection k value)"
  unfolding add_private_def by (intro calm_rules)

lemma calm_priceScore [calm_rules]: "calm (priceScore purchase retail threshold)"
  unfolding priceScore_def Let_def by (intro calm_rules)

lemma calm_readSalt [calm_rules]: "calm (readSalt t name)"
  unfolding readSalt_def by (intro calm_rules)

lemma calm_review_transition [calm_rules]: "calm (review_transition cmd i a)"
  unfolding review_transition_def by (intro calm_rules)

lemma calm_check_transient [calm_rules]: "calm (check_transient t required extra)"
  unfolding check_transient_def Let_def by (intro calm_rules)

lemma calm_mark_used [calm_rules]: "calm (mark_used L s c x check public)"
  unfolding mark_used_def by (intro calm_rules)

lemma calm_claims [calm_rules]:
  "calm (claim_eligibility x c doc v)" "calm (claim_purchase b doc v)"
  "calm (claim_notification b doc v)" "calm (claim_manifest b doc v)"
  unfolding claim_eligibility_def claim_purchase_def claim_notification_def claim_manifest_def Let_def
  by (intro calm_rules)+

lemma calm_apply_analysis [calm_rules]: "calm (apply_analysis c b refs)"
  unfolding apply_analysis_def Let_def by (intro calm_rules)

subsection \<open>The type assertions\<close>

lemma calm_decode_item:
  assumes ok: "json_ok item"
  shows "calm (decode_item item acc)"
  unfolding decode_item_def
proof (rule calm_rbind [OF calm_encodedExact], goal_cases)
  case (1 b)
  have f: "\<exists>f \<in> set bundle_fields. tag f = ''envelope''" "\<exists>f \<in> set envelope_fields. tag f = ''header''"
    by (simp_all add: bundle_fields_def envelope_fields_def)
  obtain obj e where obj: "item = JObj obj" "map_of obj ''envelope'' = Some e" "json_ok e"
    using f(1) encodedExact_object [OF ok 1] by metis
  show ?case
    unfolding obj(1) jv.case obj(2)
  proof (rule calm_rbind [OF calm_encodedExact], goal_cases)
    case (1 env)
    then obtain ms where "e = JObj ms" using f(2) encodedExact_object [OF obj(3)] by metis
    then show ?case by (auto simp: Let_def intro!: calm_rules)
  qed
qed

lemma calm_decodeBundles [calm_rules]: "calm (decodeBundles raw)"
  unfolding decodeBundles_def
proof (intro calm_rules)
  fix v arr
  assume "strictJSON raw = Inr v" "v = JArr arr"
  then have "\<forall>item \<in> set arr. json_ok item" using strictJSON_facts(3) [of raw v] by (simp add: list_all_iff)
  then show "calm (fold_result decode_item arr ([], []))" by (intro calm_fold_all calm_decode_item) simp
qed

subsection \<open>What the keys are made of\<close>

lemma payload_names:
  assumes "validatePayload c = Inr ()"
  shows "c_Command c \<in> {''OfferPickup'', ''AcceptPickup'', ''OfferDelivery'', ''AcceptDelivery''} \<Longrightarrow>
      list_all printable (hi_TransferID (payload_of handoffInput_fields handoffInput_zero c))"
    and "c_Command c = ''RecordFreightCost'' \<Longrightarrow>
      list_all printable (fi_CostID (payload_of freightInput_fields freightInput_zero c))"
    and "c_Command c = ''ReportRetailPrice'' \<Longrightarrow>
      list_all printable (ri_RetailLotID (payload_of reportInput_fields reportInput_zero c))
      \<and> list_all printable (ri_ReportID (payload_of reportInput_fields reportInput_zero c))"
    and "c_Command c \<in> {''EvaluatePrice'', ''OpenReview'', ''ResolveReview''} \<Longrightarrow>
      list_all printable (ai_AnomalyID (payload_of analysisInput_fields analysisInput_zero c))"
  using validate_handoff [OF assms] validate_freight [OF assms] validate_report [OF assms]
    validate_analysis [OF assms] payload_of_eq validID_printable
  by metis+

text \<open>A batch, its references and a transfer whose identifiers are printable.\<close>

definition named_batch :: "Batch \<Rightarrow> bool" where
  "named_batch b \<longleftrightarrow> list_all (list_all printable) [b_BatchID b, b_OwnerMSP b, b_State b]"

definition named_refs :: "EvidenceRefs \<Rightarrow> bool" where
  "named_refs r \<longleftrightarrow>
     list_all (list_all printable) [e_PurchaseDocumentID r, e_FreightCostID r, e_RetailReportID r]"

lemma named_zero: "named_batch Batch_zero"
  "named_refs (EvidenceRefs_zero \<lparr> e_SchemaVersion := v, e_BatchID := i \<rparr>)"
  by (simp_all add: named_batch_def named_refs_def Batch_zero_def EvidenceRefs_zero_def)

lemma named_here: "batch_here f i b r \<Longrightarrow> named_batch b \<and> named_refs r"
  using shape_printable [of i b]
  by (simp add: named_batch_def named_refs_def batch_here_def refs_shape_def)

lemma header_names:
  "header_well_formed h \<Longrightarrow> list_all (list_all printable)
     [h_DocumentID h, h_SourceDocumentID h, h_IssuerID h, h_KeyID h, h_Nonce h]"
  using header_printable [of h]
  by (auto simp: header_well_formed_def match_reference_def list_all_iff upnum_printable printable_code)

lemma verified_names:
  "verifyBundle L s d = Inr u \<Longrightarrow> list_all printable (h_DocumentID (document_header d))"
  using verified_well_formed header_names by fastforce

subsection \<open>Writing\<close>

text \<open>A result that comes with a state.\<close>

named_theorems calm_run_rules \<open>the same for a result that comes with a state\<close>

definition calm_run :: "'a res \<times> 'b \<Rightarrow> bool" where
  "calm_run p \<longleftrightarrow> calm (fst p)"

lemma calm_run_leaf [calm_run_rules]: "calm r \<Longrightarrow> calm_run (r, s)"
  by (simp add: calm_run_def)

lemma calm_run_if [calm_run_rules]:
  "(c \<Longrightarrow> calm_run a) \<Longrightarrow> (\<not> c \<Longrightarrow> calm_run b) \<Longrightarrow> calm_run (if c then a else b)"
  by simp

lemma calm_run_pair [calm_run_rules]:
  "calm_run p \<Longrightarrow> (\<And>r s. calm r \<Longrightarrow> calm_run (f r s)) \<Longrightarrow> calm_run (case p of (r, s) \<Rightarrow> f r s)"
  by (cases p) (simp add: calm_run_def)

lemma calm_run_sum [calm_run_rules]:
  "calm r \<Longrightarrow> (\<And>e. r = Inl e \<Longrightarrow> calm (Inl e) \<Longrightarrow> calm_run (g e)) \<Longrightarrow> (\<And>x. r = Inr x \<Longrightarrow> calm_run (f x)) \<Longrightarrow>
     calm_run (case r of Inl e \<Rightarrow> g e | Inr x \<Rightarrow> f x)"
  by (cases r) (simp_all add: calm_def)

lemma calm_run_option [calm_run_rules]:
  "calm_run a \<Longrightarrow> (\<And>x. m = Some x \<Longrightarrow> calm_run (f x)) \<Longrightarrow> calm_run (case m of None \<Rightarrow> a | Some x \<Rightarrow> f x)"
  by (cases m) simp_all

lemma calm_flush_keys [calm_run_rules]: "calm_run (flush_keys L p ks s)"
  by (induction L p ks s rule: flush_keys.induct) (auto simp: calm_run_def intro: calm_rules split: option.split)

lemma calm_write_keys [calm_run_rules]: "calm_run (write_keys L p ks s)"
  by (induction L p ks s rule: write_keys.induct) (auto simp: calm_run_def intro: calm_rules split: option.split)

lemma calm_write_private_all [calm_run_rules]: "calm_run (write_private_all P ws s)"
  by (induction P ws s rule: write_private_all.induct) (auto simp: calm_run_def intro: calm_rules split: option.split)

lemma calm_write_private [calm_run_rules]: "calm_run (write_private L ws s)"
  unfolding write_private_def by (intro calm_run_rules calm_rules)

lemma calm_flush [calm_run_rules]: "calm_run (flush L p event s)"
  unfolding flush_def by (intro calm_run_rules calm_rules) assumption+

lemma calm_engine_apply: "calm (apply_plan L evidence c x s) \<Longrightarrow> calm_run (engine_apply L evidence c x s)"
proof (cases "apply_plan L evidence c x s")
  case (Inr q)
  obtain receipt plan event ws where "q = (receipt, plan, event, ws)" by (cases q)
  then show ?thesis
    by (simp add: engine_apply_def Inr) (intro calm_run_rules calm_rules, assumption+)
qed (simp add: engine_apply_def calm_run_def calm_def)

lemma calm_bootstrap: "calm (bootstrap_plan L s x raw) \<Longrightarrow> calm_run (bootstrap L x raw s)"
proof (cases "bootstrap_plan L s x raw")
  case (Inr q)
  obtain c plan where "q = (c, plan)" by force
  then show ?thesis
    by (simp add: bootstrap_def Inr) (intro calm_run_rules calm_rules, assumption+)
qed (simp add: bootstrap_def calm_run_def calm_def)

subsection \<open>With keys\<close>

context naming_stub begin

lemma calm_key [calm_rules]: "list_all (list_all printable) (kind # as) \<Longrightarrow> calm (key (fabricLedger stub) kind as)"
  using composite_exists [of kind as] by (auto simp: key_def fabricLedger_def calm_def)

lemma calm_verifyBundle [calm_rules]: "calm (verifyBundle (fabricLedger stub) s b)"
  unfolding verifyBundle_def Let_def
  by (intro calm_rules) (use header_names in \<open>auto simp: printable_code\<close>)

lemma calm_getConfig [calm_rules]: "calm (getConfig (fabricLedger stub) s)"
  unfolding getConfig_def by (intro calm_rules) (simp add: printable_code)

lemma calm_consumeDocument [calm_rules]: "calm (consumeDocument (fabricLedger stub) s doc c p)"
  unfolding consumeDocument_def by (intro calm_rules) (auto simp: printable_code dest: validID_printable)

lemma calm_mark_document:
  "header_well_formed (document_header doc) \<Longrightarrow> calm (mark_document (fabricLedger stub) s c x doc public)"
  unfolding mark_document_def Let_def
  by (intro calm_rules calm_fold_all) (use header_names in \<open>auto simp: printable_code\<close>)

lemma calm_apply_create [calm_rules]: "calm (apply_create (fabricLedger stub) s c x refs v)"
  unfolding apply_create_def Let_def by (intro calm_rules)

lemma calm_offer_pickup_evidence [calm_rules]: "calm (offer_pickup_evidence (fabricLedger stub) s c b refs v)"
  unfolding offer_pickup_evidence_def consume_and_note_def by (intro calm_rules calm_fold_all)

lemma calm_apply_offer:
  assumes "validatePayload c = Inr ()" "c_Command c = ''OfferPickup'' \<or> c_Command c = ''OfferDelivery''"
    and "named_batch b"
  shows "calm (apply_offer (fabricLedger stub) s c x b refs v)"
proof -
  have t: "list_all printable (hi_TransferID (payload_of handoffInput_fields handoffInput_zero c))"
    using payload_names(1) [OF assms(1)] assms(2) by blast
  show ?thesis
    unfolding apply_offer_def Let_def
    by (intro calm_rules) (use t assms(3) in \<open>simp_all add: printable_code named_batch_def\<close>)
qed

lemma calm_apply_freight:
  assumes "validatePayload c = Inr ()" "c_Command c = ''RecordFreightCost''"
  shows "calm (apply_freight (fabricLedger stub) s c x b refs v)"
  unfolding apply_freight_def Let_def
  by (intro calm_rules) (use payload_names(2) [OF assms] in \<open>simp_all add: printable_code\<close>)

lemma calm_apply_report:
  assumes "validatePayload c = Inr ()" "c_Command c = ''ReportRetailPrice''"
  shows "calm (apply_report (fabricLedger stub) s c x b refs v)"
  unfolding apply_report_def Let_def
  by (intro calm_rules) (use payload_names(3) [OF assms] in \<open>simp_all add: printable_code\<close>)

text \<open>The transfer an acceptance finds is the one its payload names.\<close>

lemma calm_apply_accept:
  assumes "validatePayload c = Inr ()" "c_Command c = ''AcceptPickup'' \<or> c_Command c = ''AcceptDelivery''"
    and "named_batch b" and s: "fresh s" and world: "world_ok (at stub (view s))"
  shows "calm (apply_accept (fabricLedger stub) s c x b refs)"
proof -
  let ?j = "hi_TransferID (payload_of handoffInput_fields handoffInput_zero c)"
  have j: "list_all printable ?j" using payload_names(1) [OF assms(1)] assms(2) by blast
  have found: "list_all printable (t_TransferID t)"
    if k: "key (fabricLedger stub) ''transfer'' [?j] = Inr k" and l: "load (fabricLedger stub) s k (struct_codec Transfer_fields) Transfer_zero = Inr (True, t)"
    for k t
  proof -
    have k': "CreateCompositeKey stub ''transfer'' [?j] = Some k" using k by (simp add: key_eq_Inr fabricLedger_def)
    have "at stub (view s) ''transfer'' [?j] \<noteq> []" using fabric.load_view(1) [OF l s] k' by (simp add: at_def)
    then obtain t0 where t0: "stored_transfer (at stub (view s)) t0" "t_TransferID t0 = ?j"
      using world unfolding world_ok_def by blast
    then have "view s k = encoded (marshal Transfer_fields t0)" "Transfer_ok t0"
      using k' by (simp_all add: stored_transfer_def at_def)
    then have "t = t0" using fabric.load_view(2) [OF l s] by (simp add: transfer_decoded)
    then show ?thesis using j t0(2) by simp
  qed
  show ?thesis
    unfolding apply_accept_def Let_def
    by (intro calm_rules) (use j found assms(3) in \<open>auto simp: printable_code named_batch_def\<close>)
qed

lemma calm_apply_command:
  assumes "validatePayload c = Inr ()" "named_batch b" "fresh s" "world_ok (at stub (view s))"
  shows "calm (apply_command (fabricLedger stub) s c x b refs v)"
  unfolding apply_command_def Let_def
  by (intro calm_rules calm_apply_offer calm_apply_accept calm_apply_freight calm_apply_report assms)
    assumption+


subsection \<open>The rest of the engine\<close>

lemma calm_apply_checks:
  assumes "validID (c_BatchID c) ''BAT''" "validID (c_OperationID c) ''OP''"
  shows "calm (apply_checks (fabricLedger stub) s c x)"
proof -
  have "list_all printable (x_Actor x)" if "authorize (x_Actor x) (x_Role x) (c_Command c) = Inr u" for u
    using that by (auto simp: authorize_permitted permitted_def member_printable)
  then show ?thesis
    unfolding apply_checks_def Let_def
    by (intro calm_rules) (use assms validID_printable in \<open>auto simp: printable_code\<close>)
qed

lemma calm_finish:
  assumes "list_all (list_all printable) [c_BatchID c, c_OperationID c, x_Actor x]"
    and "named_batch old" "named_batch (d_batch d)"
  shows "calm (finish (fabricLedger stub) c x exists old d public)"
proof -
  have padded: "list_all printable (format_padded n)" for n
    using format_uint_digits [of "\<bar>n\<bar>"]
    by (auto simp: format_padded_def Let_def printable_code list_all_iff is_digit_printable)
  show ?thesis
    unfolding finish_def Let_def put_record_def drop_stale_def
    by (intro calm_rules calm_fold_all)
      (use assms padded in \<open>auto simp: printable_code named_batch_def\<close>)
qed

subsection \<open>Preparing the evidence\<close>

lemma calm_claim_freight:
  assumes "validatePayload c = Inr ()" "c_Command c = ''RecordFreightCost''"
  shows "calm (claim_freight (fabricLedger stub) t x c b doc v)"
  unfolding claim_freight_def Let_def
  by (intro calm_rules) (use payload_names(2) [OF assms] in \<open>simp_all add: printable_code\<close>)

lemma calm_document_claim:
  assumes "validatePayload c = Inr ()"
    and "h_DocumentType (document_header doc) = ''FREIGHT_INVOICE'' \<Longrightarrow> c_Command c = ''RecordFreightCost''"
  shows "calm (document_claim (fabricLedger stub) t x c b doc v)"
  unfolding document_claim_def Let_def by (intro calm_rules calm_claim_freight assms) assumption

lemma freight_required: "(''FREIGHT_INVOICE'', system) \<in> set (fst (required_evidence cmd)) \<Longrightarrow> cmd = ''RecordFreightCost''"
  by (auto simp: required_evidence_def split: if_splits)

lemma calm_prepare_document:
  assumes "validatePayload c = Inr ()" "set required \<subseteq> set (fst (required_evidence (c_Command c)))"
  shows "calm (prepare_document (fabricLedger stub) s t x c b doc (required, v))"
proof -
  have freight: "c_Command c = ''RecordFreightCost''"
    if "\<not> (entry_of required (h_DocumentType (document_header doc)) \<noteq> sys
        \<or> entry_of required (h_DocumentType (document_header doc)) = [])"
      "h_DocumentType (document_header doc) = ''FREIGHT_INVOICE''" for sys
  proof -
    have "''FREIGHT_INVOICE'' \<in> fst ` set required" using that entry_of_member by metis
    then show ?thesis using assms(2) freight_required by fastforce
  qed
  show ?thesis
    unfolding prepare_document_def Let_def prod.case
    by (intro calm_rules calm_mark_document calm_document_claim assms(1))
      (use freight verified_well_formed verified_names in \<open>auto simp: printable_code\<close>)
qed

lemma prepare_document_required:
  "prepare_document (fabricLedger stub) s t x c b doc (required, v) = Inr (required', v') \<Longrightarrow> set required' \<subseteq> set required"
  by (auto simp: prepare_document_def Let_def rbind_eq_Inr split: if_splits)

lemma calm_prepare_report:
  assumes "validatePayload c = Inr ()" "c_Command c = ''ReportRetailPrice''" "named_refs refs"
  shows "calm (prepare_report (fabricLedger stub) P s t x config c b refs v)"
  unfolding prepare_report_def Let_def
  by (intro calm_rules)
    (use payload_names(3) [OF assms(1,2)] assms(3) in \<open>simp_all add: printable_code named_refs_def\<close>)

lemma calm_load_prices [calm_rules]: "named_refs refs \<Longrightarrow> calm (load_prices (fabricLedger stub) P s refs)"
  unfolding load_prices_def by (intro calm_rules) (simp_all add: printable_code named_refs_def)

lemma calm_analysis:
  assumes "validatePayload c = Inr ()" "c_Command c \<in> {''EvaluatePrice'', ''OpenReview'', ''ResolveReview''}"
    and "named_batch b" "named_refs refs" "validID (c_OperationID c) ''OP''"
  shows "calm (analysis (fabricLedger stub) P s t x c b refs)"
proof -
  let ?p = "payload_of analysisInput_fields analysisInput_zero c"
  have a: "list_all printable (ai_AnomalyID ?p)" using payload_names(4) [OF assms(1,2)] .
  have "calm (analysis_evaluate (fabricLedger stub) P s t x c b refs ?p)"
    unfolding analysis_evaluate_def Let_def
    by (intro calm_rules assms(4)) (use a assms(3) in \<open>simp_all add: printable_code named_batch_def\<close>)
  moreover have "calm (analysis_review (fabricLedger stub) P s t x c b ?p)"
    unfolding analysis_review_def Let_def
    by (intro calm_rules)
      (use a assms(3) validID_printable [OF assms(5)] in \<open>simp_all add: printable_code named_batch_def\<close>)
  ultimately show ?thesis
    unfolding analysis_def Let_def by (intro calm_rules) (use a in \<open>simp_all add: printable_code\<close>)
qed

lemma calm_prepare:
  assumes "validatePayload c = Inr ()" "named_batch b" "named_refs refs" "validID (c_OperationID c) ''OP''"
  shows "calm (prepare (fabricLedger stub) P s t x c b refs)"
proof (cases "c_Command c \<in> {''EvaluatePrice'', ''OpenReview'', ''ResolveReview''}")
  case True
  then show ?thesis using calm_analysis [OF assms(1) True assms(2-4)] by (simp add: prepare_analysis)
next
  case False
  have docs: "calm (fold_result (prepare_document (fabricLedger stub) s t x c b) documents (required, verified_zero))"
    if "required_evidence (c_Command c) = (required, extra)" for documents required extra
  proof (rule calm_fold [where P = "\<lambda>a. set (fst a) \<subseteq> set required"])
    show "calm (prepare_document (fabricLedger stub) s t x c b doc a)" if "set (fst a) \<subseteq> set required" for doc a
      using calm_prepare_document [OF assms(1), of "fst a" s t x b doc "snd a"] that
        \<open>required_evidence _ = _\<close> by simp
    show "set (fst a') \<subseteq> set required"
      if "set (fst a) \<subseteq> set required" "prepare_document (fabricLedger stub) s t x c b doc a = Inr a'" for doc a a'
      using that prepare_document_required [of s t x c b doc "fst a" "snd a" "fst a'" "snd a'"] by auto
  qed simp
  show ?thesis
    unfolding prepare_def Let_def
    by (intro calm_rules calm_prepare_report docs assms) (use False in auto)
qed


subsection \<open>Bootstrap\<close>

lemma calm_register_sources:
  assumes "exact configuration_fields raw configuration_zero = Inr c"
  shows "calm (fold_result (register_source (fabricLedger stub) x) (cf_Sources c) st)"
proof -
  have "list_all named_source (cf_Sources c)" using configuration_accepted [OF assms] by blast
  then show ?thesis
    unfolding register_source_def
    by (intro calm_fold_all calm_rules) (simp_all add: printable_code list_all_iff named_source_def)
qed

lemma calm_source_items:
  "exact configuration_fields raw configuration_zero = Inr c \<Longrightarrow> calm (source_items (strictJSON raw))"
  by (erule configuration_accepted) (simp add: source_items_def calm_def)

lemma calm_bootstrap_plan [calm_rules]: "calm (bootstrap_plan (fabricLedger stub) s x raw)"
  unfolding bootstrap_plan_def check_source_item_def
  by (intro calm_rules calm_register_sources calm_source_items calm_fold_all)
    (assumption | auto simp: printable_code dest: validID_printable)+


subsection \<open>The engine\<close>

lemma calm_apply_plan:
  assumes ids: "validID (c_BatchID c) ''BAT''" "validID (c_OperationID c) ''OP''"
    and s: "fresh s" and world: "world_ok (at stub (view s))"
  shows "calm (apply_plan (fabricLedger stub) (prepare (fabricLedger stub) P s t x) c x s)"
  unfolding apply_plan_def
proof (intro calm_rules)
  show "calm (apply_checks (fabricLedger stub) s c x)" by (rule calm_apply_checks [OF ids])
next
  fix q exists p b refs
  assume "apply_checks (fabricLedger stub) s c x = Inr q" "q = (exists, p)" "p = (b, refs)"
  then have checks: "apply_checks (fabricLedger stub) s c x = Inr (exists, b, refs)" by simp
  have w: "world_ok (at (fabricLedger stub) (view s))" using world by simp
  note facts = fabric.apply_checks_facts [OF checks s w]
  have named: "named_batch b" "named_refs refs"
    using facts(9) named_here named_zero by (auto split: if_splits)
  show "calm (prepare (fabricLedger stub) P s t x c b refs)"
    by (rule calm_prepare [OF facts(2) named ids(2)])
  show "calm (apply_command (fabricLedger stub) s c x b refs v)" for v
    by (rule calm_apply_command [OF facts(2) named(1) s world])
  fix v d
  assume draft: "apply_command (fabricLedger stub) s c x b refs v = Inr d"
  have "batch_shape (c_BatchID c) (advance x b (d_batch d))"
    using fabric.command_draft [OF checks s w draft ids] by (simp add: draft_ok_def)
  then have "named_batch (d_batch d)" using shape_printable by (fastforce simp: named_batch_def)
  moreover have "list_all (list_all printable) [c_BatchID c, c_OperationID c, x_Actor x]"
    using ids facts(1) by (auto simp: permitted_def member_printable dest: validID_printable)
  ultimately show "calm (finish (fabricLedger stub) c x exists b d (v_Public v))"
    by (intro calm_finish named(1))
qed

lemma calm_dispatch_command:
  assumes s: "fresh s" and world: "world_ok (at stub (view s))"
  shows "calm_run (dispatch_command (fabricLedger stub) fn args request s)"
  unfolding dispatch_command_def Let_def
proof (intro calm_run_rules calm_rules)
  show "calm_run (engine_apply (fabricLedger stub)
      (prepare (fabricLedger stub) P s (pr_transient (hd request)) (pr_x (hd request))) c (pr_x (hd request)) s)"
    if "parseCommand fn (hd args) = Inr c" for c P
    by (intro calm_engine_apply calm_apply_plan s world parseCommand_ids(2,3) [OF that])
qed assumption

end

subsection \<open>Queries\<close>

lemma calm_page_kind [calm_rules]: "calm (page_kind fn filt)"
  unfolding page_kind_def by (intro calm_rules)

lemma page_kind_printable:
  "page_kind fn filt = Inr kind \<Longrightarrow> list_all printable kind \<and> list_all printable filt"
  by (auto simp: page_kind_def printable_code member_printable validState_def state_defs dest: validID_printable
      split: if_splits)

lemma calm_health: "calm (getConfig L s) \<Longrightarrow> calm (health L s args)"
  unfolding health_def Let_def by (intro calm_rules) (auto simp: calm_def)

context naming_stub begin

lemma calm_fabric_page:
  assumes "list_all (list_all printable) (kind # attrs)"
  shows "calm (l_page (fabricLedger stub) s kind attrs limit token)"
proof -
  have "calm (key stub kind attrs)" using composite_exists [OF assms] by (auto simp: key_def calm_def)
  then show ?thesis
    unfolding fabricLedger_def ledger.simps fabric_page_def page_bookmark_def Let_def by (intro calm_rules)
qed

lemma calm_page_record [calm_rules]: "calm (page_record (fabricLedger stub) s kind e acc)"
  unfolding page_record_def Let_def by (intro calm_rules) (auto simp: printable_code dest: validID_printable)

lemma calm_page_query [calm_rules]: "calm (page_query (fabricLedger stub) s fn arg)"
  unfolding page_query_def
  by (intro calm_rules calm_fabric_page calm_fold_all) (auto dest: page_kind_printable)

lemma calm_query:
  assumes "list_all printable actor"
  shows "calm (query (fabricLedger stub) s actor fn args)"
  unfolding query_def Let_def
  by (intro calm_rules calm_health) (use assms in \<open>auto simp: printable_code dest: validID_printable\<close>)

lemma calm_GetDocument [calm_rules]: "calm (GetDocument (fabricLedger stub) s args)"
  unfolding GetDocument_def by (intro calm_rules) (auto simp: printable_code dest: validID_printable)

lemma calm_verifyOpening [calm_rules]: "calm (verifyOpening (fabricLedger stub) s actor role arg t)"
  unfolding verifyOpening_def Let_def by (intro calm_rules) (auto simp: printable_code dest: validID_printable)

text \<open>The references of a stored batch are printable, and those of no batch are empty.\<close>

lemma loaded_refs:
  assumes s: "fresh s" and world: "world_ok (at stub (view s))"
    and k: "key (fabricLedger stub) ''batchEvidence'' [i] = Inr k"
    and l: "load (fabricLedger stub) s k (struct_codec EvidenceRefs_fields) EvidenceRefs_zero = Inr (found, refs)"
  shows "named_refs refs"
proof (cases "no_batch (at stub (view s)) i")
  case True
  have "view s k = []" using True k by (simp add: no_batch_def at_def key_eq_Inr fabricLedger_def)
  then have "refs = EvidenceRefs_zero" using fabric.load_view(1,3) [OF l s] by simp
  then show ?thesis by (simp add: named_refs_def EvidenceRefs_zero_def)
next
  case False
  then obtain b r where here: "batch_here (at stub (view s)) i b r" using world by (auto simp: world_ok_def)
  then have "view s k = encoded (marshal EvidenceRefs_fields r)" "EvidenceRefs_ok r"
    using k by (simp_all add: batch_here_def at_def key_eq_Inr fabricLedger_def)
  moreover have "EvidenceRefs_zero = EvidenceRefs_zero \<lparr> e_SchemaVersion := [], e_BatchID := [] \<rparr>"
    by (simp add: EvidenceRefs_zero_def)
  ultimately have "refs = r"
    using fabric.load_view(1,2) [OF l s] refs_decoded [of r "[]" "[]"] by simp
  then show ?thesis using named_here [OF here] by simp
qed

end

context paging_stub begin

lemma calm_analysisQuery:
  assumes s: "fresh s" and listed: "listed (at stub (view s))"
  shows "calm (analysisQuery (fabricLedger stub) P s actor role fn arg)"
proof -
  let ?f = "at stub (view s)"
  have reference: "list_all printable (er_AnomalyID ref)"
    if "key (fabricLedger stub) ''evaluation'' [arg] = Inr k"
      "load (fabricLedger stub) s k (struct_codec evaluationReference_fields) evaluationReference_zero = Inr (True, ref)"
    for k ref
  proof -
    have v: "?f ''evaluation'' [arg] = view s k" using that(1) by (simp add: at_def key_eq_Inr fabricLedger_def)
    then have "entry_listed ''evaluation'' [arg] (view s k)"
      using fabric.load_view(1) [OF that(2) s] listed unfolding listed_def by metis
    then obtain r where r: "evaluationReference_ok r" "validID (er_AnomalyID r) ''ANM''"
      "view s k = encoded (marshal evaluationReference_fields r)"
      by (auto simp: entry_listed_def)
    have "Unmarshal evaluationReference_fields (encoded (marshal evaluationReference_fields r)) evaluationReference_zero = Some r"
      by (rule evaluation_reference.Unmarshal_print [OF r(1)]) (auto simp: evaluationReference_fields_def)
    then have "ref = r" using fabric.load_view(2) [OF that(2) s] r(3) by simp
    then show ?thesis using r(2) by (simp add: validID_printable)
  qed
  have action: "calm (load_action (fabricLedger stub) P s a e actions)"
    if page: "l_page (fabricLedger stub) s ''reviewActionReference'' [a] 10 [] = Inr (items, nxt)" "e \<in> set items"
      and a: "list_all printable a" for a items nxt e actions
  proof -
    obtain rest where rest: "?f ''reviewActionReference'' ([a] @ rest) = en_Value e" "en_Value e \<noteq> []"
      using page_entry [OF s page] by blast
    then have "entry_listed ''reviewActionReference'' ([a] @ rest) (en_Value e)" using listed by (metis listed_def)
    then obtain op where op: "validID op ''OP''" "en_Value e = encoded (JStr op)" by (auto simp: entry_listed_def)
    have "decoded string_codec [] (en_Value e) = Some op"
      unfolding op(2) by (rule decoded_string [OF validID_text [OF op(1)]])
    then show ?thesis
      unfolding load_action_def
      by (intro calm_rules) (use a validID_printable [OF op(1)] in \<open>auto simp: printable_code decoded_def\<close>)
  qed
  show ?thesis
    unfolding analysisQuery_def
    by (intro calm_rules calm_fabric_page calm_fold_all)
      (use reference action in \<open>auto simp: printable_code dest: validID_printable\<close>)
qed

lemma calm_privateQuery:
  assumes s: "fresh s" and world: "world_ok (at stub (view s))" and listed: "listed (at stub (view s))"
  shows "calm (privateQuery (fabricLedger stub) P s actor role fn arg)"
  unfolding privateQuery_def Let_def
  by (intro calm_rules calm_analysisQuery s listed)
    (auto simp: printable_code named_refs_def dest: validID_printable loaded_refs [OF s world])

subsection \<open>Dispatch and reply\<close>

lemma calm_dispatch:
  assumes s: "fresh s" and world: "world_ok (at stub (view s))" and listed: "listed (at stub (view s))"
  shows "calm_run (dispatch (fabricLedger stub) msp role fn args request s)"
proof -
  have msp: "list_all printable msp" if "authorize msp role fn = Inr u" for u
    using that by (auto simp: authorize_permitted permitted_def member_printable)
  show ?thesis
    unfolding dispatch_unfold dispatch_private_def Let_def
    by (intro calm_run_rules calm_rules calm_bootstrap calm_dispatch_command calm_privateQuery calm_query
        s world listed) (auto dest: msp)
qed

lemma calm_reply: "calm r \<Longrightarrow> reply r \<noteq> Crash m"
  by (auto simp: reply_def canonical_def respond_def calm_def split: sum.splits option.splits failure.splits)

lemma calm_respond: "calm r \<Longrightarrow> r = Inl e \<Longrightarrow> respond e \<noteq> Crash m"
  by (auto simp: respond_def calm_def split: failure.splits)

lemma Invoke_calm:
  assumes s: "fresh s" and world: "world_ok (at stub (view s))" and listed: "listed (at stub (view s))"
  shows "fst (Invoke stub i s) \<noteq> Crash m"
proof -
  have c: "calm (caller i)" unfolding caller_def by (intro calm_rules)
  have x: "calm (invoke_context i msp role)" for msp role
    unfolding invoke_context_def executionFromStub_def by (intro calm_rules)
  have d: "reply (fst (dispatch (fabricLedger stub) msp role (inv_Function i) (inv_Parameters i) request s)) \<noteq> Crash m"
    for msp role request
    by (rule calm_reply) (use calm_dispatch [OF assms] in \<open>simp add: calm_run_def\<close>)
  have f: "respond (fail code) \<noteq> Crash m" for code
    by (rule calm_respond [OF calm_leaves(2) refl])
  show ?thesis
    unfolding Invoke_def
    using calm_respond [OF c] calm_respond [OF x] d f
    by (auto split: sum.split prod.split option.split) (metis fst_conv)+
qed

end

end
