(* ===== verification/Catalog.thy ===== *)
theory Catalog
  imports Robust Reads Demo
begin

text \<open>
  Complete pages: on a peer that lists everything it holds, a first page of the batches of an owner
  or in a state is always answered, and one that has no continuation lists exactly those batches.
\<close>

subsection \<open>A peer that lists what it holds\<close>

text \<open>
  The two promises of a paginated range query the package relies on: a first page of a valid partial
  key is answered, and when it comes without a bookmark nothing was left out.
\<close>

locale listing_stub = paging_stub + reliable_stub +
  assumes page_total: "CreateCompositeKey stub kind attrs = Some k \<Longrightarrow> 0 < limit \<Longrightarrow>
      \<exists>entries meta. GetStateByPartialCompositeKeyWithPagination stub s kind attrs limit []
        = Some (map Some entries, meta)"
    and page_complete: "fresh s \<Longrightarrow>
      GetStateByPartialCompositeKeyWithPagination stub s kind attrs limit [] = Some (entries, []) \<Longrightarrow>
      CreateCompositeKey stub kind (attrs @ rest) = Some k \<Longrightarrow> view s k \<noteq> [] \<Longrightarrow>
      Some \<lparr> en_Key = k, en_Value = view s k \<rparr> \<in> set entries"

text \<open>The keys a first page of the peer in memory can list.\<close>

definition page_keys :: "memory \<Rightarrow> bytes \<Rightarrow> bytes list" where
  "page_keys m prefix = sort (filter (\<lambda>k. continues prefix k \<and> [] \<le> k \<and> lookup (m_committed m) k \<noteq> [])
     (remdups (map fst (m_committed m))))"

lemma memory_page_first:
  assumes "memory_key kind attrs = Some prefix"
  shows "memory_page m kind attrs limit [] = Some
     (map Some (map (\<lambda>k. \<lparr> en_Key = k, en_Value = lookup (m_committed m) k \<rparr>) (take (nat limit) (page_keys m prefix))),
      case drop (nat limit) (page_keys m prefix) of [] \<Rightarrow> [] | k # _ \<Rightarrow> k)"
  unfolding memory_page_def Let_def page_keys_def by (simp add: assms comp_def)

lemma page_keys_iff:
  "k \<in> set (page_keys m prefix) \<longleftrightarrow> k \<in> fst ` set (m_committed m) \<and> continues prefix k \<and> lookup (m_committed m) k \<noteq> []"
  by (auto simp: page_keys_def)

lemma lookup_listed: "lookup m k \<noteq> [] \<Longrightarrow> k \<in> fst ` set m"
  by (auto simp: lookup_def split: option.splits dest!: map_of_SomeD intro: rev_image_eqI)

lemma memory_page_whole:
  assumes "memory_key kind attrs = Some prefix" "memory_page m kind attrs limit [] = Some (entries, [])"
    and "k \<in> set (page_keys m prefix)"
  shows "Some \<lparr> en_Key = k, en_Value = lookup (m_committed m) k \<rparr> \<in> set entries"
proof -
  let ?keys = "page_keys m prefix"
  let ?e = "\<lambda>k. \<lparr> en_Key = k, en_Value = lookup (m_committed m) k \<rparr>"
  have entries: "entries = map Some (map ?e (take (nat limit) ?keys))"
    and rest: "(case drop (nat limit) ?keys of [] \<Rightarrow> [] | a # _ \<Rightarrow> a) = []"
    using assms(2) unfolding memory_page_first [OF assms(1)] by blast+
  have "drop (nat limit) ?keys = []"
  proof (cases "drop (nat limit) ?keys")
    case (Cons a as)
    then have "a \<in> set ?keys" by (metis in_set_dropD list.set_intros(1))
    moreover have "prefix \<noteq> []" using assms(1) by (auto simp: memory_key_eq)
    ultimately have "a \<noteq> []" by (auto simp: page_keys_iff continues_def HasPrefix_iff)
    moreover have "a = []" using rest unfolding Cons by simp
    ultimately show ?thesis by blast
  qed simp
  then have "take (nat limit) ?keys = ?keys" by simp
  then show ?thesis unfolding entries using assms(3) by simp
qed

interpretation listing_memory: listing_stub memory_stub memory_fresh memory_view memory_private memory_commit
proof (unfold_locales, goal_cases)
  case (1 kind attrs k limit s)
  then have "memory_key kind attrs = Some k" by (simp add: memory_stub_def)
  from memory_page_first [OF this, of s limit] show ?case unfolding memory_stub_def stub.simps by blast
next
  case (2 m kind attrs limit entries rest k)
  have key: "memory_key kind (attrs @ rest) = Some k" using 2(3) by (simp add: memory_stub_def)
  then obtain prefix where prefix: "memory_key kind attrs = Some prefix" "k = prefix @ segments rest"
    by (auto simp: memory_key_eq segments_append)
  have v: "memory_view m k = lookup (m_committed m) k"
    using 2(1) by (simp add: memory_fresh_def memory_view_def fun_eq_iff)
  have "segments rest = [] \<or> last (segments rest) = CHR 0x00"
    by (induction rest) (auto simp: last_append)
  then have "continues prefix k" unfolding prefix(2) by (simp add: continues_def HasPrefix_iff)
  then have "k \<in> set (page_keys m prefix)"
    using lookup_listed [of "m_committed m" k] 2(4) by (simp add: page_keys_iff v)
  then show ?case
    unfolding v using 2(2) by (intro memory_page_whole [OF prefix(1)]) (simp_all add: memory_stub_def)
qed

subsection \<open>The page\<close>

lemma fold_result_map:
  "(\<And>x acc. x \<in> set xs \<Longrightarrow> f x acc = Inr (acc @ [g x])) \<Longrightarrow> fold_result f xs acc = Inr (acc @ map g xs)"
  by (induction xs arbitrary: acc) auto

context paging_stub begin

text \<open>Whatever page a client gets, from whatever bookmark, its records are true.\<close>

lemma page_answered:
  assumes s: "fresh s" and world: "world_ok (at stub (view s))" and listed: "listed (at stub (view s))"
    and run: "Invoke stub j s = (Success bs, s')"
    and fn: "inv_Function j \<in> {''QueryBatchesByOwner'', ''QueryBatchesByState'', ''GetBatchHistory''}"
  shows "\<exists>arg p pg. inv_Parameters j = [arg] \<and> decode pageInput_fields arg pageInput_zero
       [''schemaVersion'', ''filter'', ''pageSize'', ''bookmark''] = Inr p
     \<and> bs = encoded (marshal Page_fields pg)
     \<and> (\<forall>r \<in> set (pg_Records pg). if inv_Function j = ''GetBatchHistory''
           then history_record (at stub (view s)) (pi_Filter p) r
           else batch_record (at stub (view s)) (inv_Function j) (pi_Filter p) r)"
proof -
  obtain msp role x t r where c: "caller j = Inr (msp, role)" "inv_Transient j = Some t"
    and d: "dispatch (fabricLedger stub) msp role (inv_Function j) (inv_Parameters j) [\<lparr> pr_x = x, pr_transient = t \<rparr>] s
      = (Inr r, s')"
    by (rule Invoke_Success [OF run])
  have "inv_Function j \<in> set lookup_functions" using fn by (auto simp: lookup_functions_def)
  then have "reply (query (fabricLedger stub) s msp (inv_Function j) (inv_Parameters j)) = Success bs"
    using run Invoke_query [OF c(1) dispatch_authorized [OF d] c(2), of stub s] by auto
  then obtain v where v: "query (fabricLedger stub) s msp (inv_Function j) (inv_Parameters j) = Inr v"
      "reply (Inr v) = Success bs"
    by (cases "query (fabricLedger stub) s msp (inv_Function j) (inv_Parameters j)")
      (auto simp: reply_def respond_def split: failure.splits)
  then obtain arg where arg: "inv_Parameters j = [arg]" "page_query (fabricLedger stub) s (inv_Function j) arg = Inr v"
    using fn by (cases "inv_Parameters j") (auto simp: query_def len_def split: if_splits)
  obtain p pg where p: "decode pageInput_fields arg pageInput_zero
       [''schemaVersion'', ''filter'', ''pageSize'', ''bookmark''] = Inr p" "v = Some (marshal Page_fields pg)"
    "\<forall>r \<in> set (pg_Records pg). if inv_Function j = ''GetBatchHistory''
           then history_record (at stub (view s)) (pi_Filter p) r
           else batch_record (at stub (view s)) (inv_Function j) (pi_Filter p) r"
  proof (cases "inv_Function j = ''GetBatchHistory''")
    case True
    then show ?thesis using page_history [OF s listed arg(2) [unfolded True]] that by auto
  next
    case False
    then have "inv_Function j = ''QueryBatchesByOwner'' \<or> inv_Function j = ''QueryBatchesByState''" using fn by blast
    from page_batches [OF s world listed arg(2) this] show ?thesis using that False by auto
  qed
  have "bs = encoded (marshal Page_fields pg)" using v(2) p(2) by (simp add: reply_def canonical_def)
  then show ?thesis using arg(1) p(1,3) by blast
qed

end

context listing_stub begin

lemma first_page:
  assumes "list_all (list_all printable) (kind # attrs)" "0 < limit"
  obtains items nxt where "l_page (fabricLedger stub) s kind attrs limit [] = Inr (items, nxt)"
    "\<And>rest k. fresh s \<Longrightarrow> nxt = [] \<Longrightarrow> CreateCompositeKey stub kind (attrs @ rest) = Some k \<Longrightarrow> view s k \<noteq> []
      \<Longrightarrow> \<lparr> en_Key = k, en_Value = view s k \<rparr> \<in> set items"
proof -
  obtain k where k: "CreateCompositeKey stub kind attrs = Some k" using composite_exists [OF assms(1)] by blast
  obtain entries meta where page:
    "GetStateByPartialCompositeKeyWithPagination stub s kind attrs limit [] = Some (map Some entries, meta)"
    using page_total [OF k assms(2), of s] by blast
  let ?nxt = "if meta \<noteq> [] then encode64 (page_prefix kind attrs @ meta) else []"
  have those: "those (map Some entries) = Some entries" by (induction entries) auto
  have ne: "encode64 (page_prefix kind attrs @ meta) \<noteq> []"
  proof
    assume "encode64 (page_prefix kind attrs @ meta) = []"
    then have "encode64 (page_prefix kind attrs @ meta) = encode64 []" by simp
    then show False unfolding encode64_inject by (simp add: page_prefix_def)
  qed
  show thesis
  proof (rule that)
    show "l_page (fabricLedger stub) s kind attrs limit [] = Inr (entries, ?nxt)"
      using page those by (simp add: fabricLedger_def fabric_page_def page_bookmark_def)
    fix rest k'
    assume "fresh s" "?nxt = []" "CreateCompositeKey stub kind (attrs @ rest) = Some k'" "view s k' \<noteq> []"
    then show "\<lparr> en_Key = k', en_Value = view s k' \<rparr> \<in> set entries"
      using page_complete [of s kind attrs limit "map Some entries" rest k'] page ne by (auto split: if_splits)
  qed
qed

text \<open>An index entry is always answered with the stored batch it names.\<close>

lemma entry_answered:
  assumes s: "fresh s" and world: "world_ok (at stub (view s))" and listed: "listed (at stub (view s))"
    and page: "l_page (fabricLedger stub) s kind [filt] limit token = Inr (items, nxt)" "e \<in> set items"
    and kind: "kind = ''owner'' \<or> kind = ''state''"
  obtains i b refs where "batch_here (at stub (view s)) i b refs" "decoded string_codec [] (en_Value e) = Some i"
    "filt = (if kind = ''owner'' then b_OwnerMSP b else b_State b)"
    "\<And>acc. page_record (fabricLedger stub) s kind e acc = Inr (acc @ [at stub (view s) ''batch'' [i]])"
proof (rule indexed_batch [OF assms])
  fix i b refs
  assume here: "batch_here (at stub (view s)) i b refs" and i: "decoded string_codec [] (en_Value e) = Some i"
    and filt: "filt = (if kind = ''owner'' then b_OwnerMSP b else b_State b)"
  have id: "validID i ''BAT''" and b: "at stub (view s) ''batch'' [i] = encoded (marshal Batch_fields b)" "Batch_ok b"
    using here by (auto simp: batch_here_def batch_shape_def)
  have names: "list_all printable ''batch''" "list_all (list_all printable) [i]"
    using validID_printable [OF id] by (simp_all add: printable_code)
  have nonempty: "at stub (view s) ''batch'' [i] \<noteq> []"
    unfolding b by (rule encoded_nonempty [OF batch.marshal_ok [OF b(2)]])
  have same: "at (fabricLedger stub) = at stub" by (simp add: fun_eq_iff at_def fabricLedger_def)
  have dec: "decoded (struct_codec Batch_fields) Batch_zero (at stub (view s) ''batch'' [i]) = Some b"
    unfolding b decoded_struct by (rule batch_decoded [OF b(2)])
  obtain k where k: "key (fabricLedger stub) ''batch'' [i] = Inr k"
    "load (fabricLedger stub) s k (struct_codec Batch_fields) Batch_zero = Inr (True, b)"
    using reliable.lookup_record [OF s names, where r = b] nonempty dec unfolding same by metis
  have "page_record (fabricLedger stub) s kind e acc = Inr (acc @ [at stub (view s) ''batch'' [i]])" for acc
    using kind i id k b(1) by (auto simp: page_record_def decoded_def canonical_def)
  then show thesis by (rule that [OF here i filt])
qed

lemma batches_page:
  assumes s: "fresh s" and world: "world_ok (at stub (view s))" and listed: "listed (at stub (view s))"
    and fn: "fn = ''QueryBatchesByOwner'' \<or> fn = ''QueryBatchesByState''"
    and p: "decode pageInput_fields arg pageInput_zero
        [''schemaVersion'', ''filter'', ''pageSize'', ''bookmark''] = Inr p"
      "pi_SchemaVersion p = ''agrochain.page-request.v1''" "1 \<le> pi_PageSize p" "pi_PageSize p \<le> 100"
      "page_kind fn (pi_Filter p) = Inr kind" "pi_Bookmark p = []"
  shows "\<exists>pg. page_query (fabricLedger stub) s fn arg = Inr (Some (marshal Page_fields pg))
     \<and> (\<forall>r \<in> set (pg_Records pg). batch_record (at stub (view s)) fn (pi_Filter p) r)
     \<and> (pg_Bookmark pg = [] \<longrightarrow>
          (\<forall>r. batch_record (at stub (view s)) fn (pi_Filter p) r \<longrightarrow> r \<in> set (pg_Records pg)))"
proof -
  let ?f = "at stub (view s)" and ?L = "fabricLedger stub"
  let ?g = "\<lambda>e. ?f ''batch'' [the (decoded string_codec [] (en_Value e))]"
  let ?here = "\<lambda>b. if fn = ''QueryBatchesByOwner'' then b_OwnerMSP b else b_State b"
  have kind: "kind = (if fn = ''QueryBatchesByOwner'' then ''owner'' else ''state'')"
    using p(5) fn by (auto simp: page_kind_def split: if_splits)
  have names: "list_all printable kind" "list_all printable (pi_Filter p)"
    using page_kind_printable [OF p(5)] by simp_all
  obtain items nxt where page: "l_page ?L s kind [pi_Filter p] (pi_PageSize p) [] = Inr (items, nxt)"
    and complete: "\<And>rest k. nxt = [] \<Longrightarrow> CreateCompositeKey stub kind ([pi_Filter p] @ rest) = Some k \<Longrightarrow> view s k \<noteq> []
      \<Longrightarrow> \<lparr> en_Key = k, en_Value = view s k \<rparr> \<in> set items"
    using first_page [of kind "[pi_Filter p]" "pi_PageSize p" s] names p(3) s by auto
  have kinds: "kind = ''owner'' \<or> kind = ''state''" using kind by simp
  have entry: "(\<forall>acc. page_record ?L s kind e acc = Inr (acc @ [?g e])) \<and> batch_record ?f fn (pi_Filter p) (?g e)"
    if "e \<in> set items" for e
  proof (rule entry_answered [OF s world listed page that kinds])
    fix i b refs
    assume here: "batch_here ?f i b refs" and i: "decoded string_codec [] (en_Value e) = Some i"
      and filt: "pi_Filter p = (if kind = ''owner'' then b_OwnerMSP b else b_State b)"
      and answer: "\<And>acc. page_record ?L s kind e acc = Inr (acc @ [?f ''batch'' [i]])"
    have "?f ''batch'' [i] = encoded (marshal Batch_fields b)" using here by (simp add: batch_here_def)
    then have "batch_record ?f fn (pi_Filter p) (?f ''batch'' [i])"
      unfolding batch_record_def using here filt kind
      by (intro exI [of _ i] exI [of _ b] exI [of _ refs]) simp
    then show ?thesis using answer i by simp
  qed
  let ?records = "map ?g items"
  let ?pg = "\<lparr> pg_SchemaVersion = ''agrochain.page.v1'', pg_Records = ?records, pg_Bookmark = nxt \<rparr>"
  have "fold_result (page_record ?L s kind) items [] = Inr ([] @ ?records)"
    by (rule fold_result_map) (use entry in blast)
  then have "page_query ?L s fn arg = Inr (Some (marshal Page_fields ?pg))"
    using p page by (simp add: page_query_def)
  moreover have "\<forall>r \<in> set (pg_Records ?pg). batch_record ?f fn (pi_Filter p) r"
    using entry by auto
  moreover have "r \<in> set ?records" if "nxt = []" "batch_record ?f fn (pi_Filter p) r" for r
  proof -
    obtain i b refs where here: "batch_here ?f i b refs" "r = encoded (marshal Batch_fields b)" "?here b = pi_Filter p"
      using \<open>batch_record ?f fn (pi_Filter p) r\<close> unfolding batch_record_def by blast
    have b: "b_BatchID b = i" "index_world ?f b" "?f ''batch'' [i] = r" "text_ok i" "validID i ''BAT''"
      using here by (auto simp: batch_here_def batch_shape_def validID_text)
    have "?f kind [pi_Filter p, i] = encoded (JStr i)"
    proof (cases "fn = ''QueryBatchesByOwner''")
      case True
      then have "kind = ''owner''" "pi_Filter p = b_OwnerMSP b" using kind here(3) by simp_all
      then show ?thesis using b(2) unfolding index_world_def b(1) by (simp del: json_print.simps)
    next
      case False
      then have "kind = ''state''" "pi_Filter p = b_State b" using kind here(3) by simp_all
      then show ?thesis using b(2) unfolding index_world_def b(1) by (simp del: json_print.simps)
    qed
    moreover have "list_all (list_all printable) (kind # [pi_Filter p, i])"
      using names validID_printable [OF b(5)] by simp
    then obtain k where k: "CreateCompositeKey stub kind [pi_Filter p, i] = Some k"
      using composite_exists by blast
    ultimately have v: "view s k = encoded (JStr i)" by (simp add: at_def del: json_print.simps)
    have "json_ok (JStr i)" using b(4) by simp
    then have "view s k \<noteq> []" unfolding v by (rule encoded_nonempty)
    then have "\<lparr> en_Key = k, en_Value = view s k \<rparr> \<in> set items"
      using complete [OF \<open>nxt = []\<close>, of "[i]" k] k by simp
    moreover have "?g \<lparr> en_Key = k, en_Value = view s k \<rparr> = r"
      unfolding v entry.simps by (simp only: decoded_string [OF b(4)] option.sel b(3))
    ultimately show ?thesis by (metis (no_types, lifting) image_eqI set_map)
  qed
  ultimately show ?thesis by (intro exI [of _ ?pg]) simp
qed

lemma first_batches:
  assumes s: "fresh s" and world: "world_ok (at stub (view s))" and listed: "listed (at stub (view s))"
    and who: "caller j = Inr (msp, role)" "permitted msp role (inv_Function j)"
    and j: "inv_Function j = ''QueryBatchesByOwner'' \<or> inv_Function j = ''QueryBatchesByState''"
      "inv_Parameters j = [arg]" "inv_Transient j = Some t"
    and p: "decode pageInput_fields arg pageInput_zero
        [''schemaVersion'', ''filter'', ''pageSize'', ''bookmark''] = Inr p"
      "pi_SchemaVersion p = ''agrochain.page-request.v1''" "1 \<le> pi_PageSize p" "pi_PageSize p \<le> 100"
      "page_kind (inv_Function j) (pi_Filter p) = Inr kind" "pi_Bookmark p = []"
  shows "\<exists>pg. Invoke stub j s = (Success (encoded (marshal Page_fields pg)), s)
     \<and> (\<forall>r \<in> set (pg_Records pg). batch_record (at stub (view s)) (inv_Function j) (pi_Filter p) r)
     \<and> (pg_Bookmark pg = [] \<longrightarrow>
          (\<forall>r. batch_record (at stub (view s)) (inv_Function j) (pi_Filter p) r \<longrightarrow> r \<in> set (pg_Records pg)))"
proof -
  obtain pg where pg: "page_query (fabricLedger stub) s (inv_Function j) arg = Inr (Some (marshal Page_fields pg))"
    "\<forall>r \<in> set (pg_Records pg). batch_record (at stub (view s)) (inv_Function j) (pi_Filter p) r"
    "pg_Bookmark pg = [] \<longrightarrow>
       (\<forall>r. batch_record (at stub (view s)) (inv_Function j) (pi_Filter p) r \<longrightarrow> r \<in> set (pg_Records pg))"
    using batches_page [OF s world listed j(1) p] by blast
  have "query (fabricLedger stub) s msp (inv_Function j) [arg] = Inr (Some (marshal Page_fields pg))"
    using j(1) pg(1) by (auto simp: query_def)
  moreover have "Invoke stub j s = (reply (query (fabricLedger stub) s msp (inv_Function j) [arg]), s)"
    using Invoke_query [OF who j(3)] j(1,2) by (auto simp: lookup_functions_def)
  ultimately have "Invoke stub j s = (Success (encoded (marshal Page_fields pg)), s)"
    by (simp add: reply_def canonical_def)
  then show ?thesis using pg(2,3) by blast
qed

end

subsection \<open>A page of the producer's batches\<close>

definition demo_page :: pageInput where
  "demo_page = \<lparr> pi_SchemaVersion = ''agrochain.page-request.v1'', pi_Filter = Producer, pi_PageSize = 10, pi_Bookmark = [] \<rparr>"

lemma demo_page_read:
  "decode pageInput_fields (encoded (marshal pageInput_fields demo_page)) pageInput_zero
     [''schemaVersion'', ''filter'', ''pageSize'', ''bookmark''] = Inr demo_page"
proof -
  have ok: "pageInput_ok demo_page" by code_simp
  have fields: "map tag pageInput_fields = [''schemaVersion'', ''filter'', ''pageSize'', ''bookmark'']"
    by (simp add: pageInput_fields_def)
  have "exact pageInput_fields (encoded (marshal pageInput_fields demo_page)) pageInput_zero = Inr demo_page"
    by (rule struct.exact_encoded [OF page_input.struct_axioms ok]) (auto simp: pageInput_fields_def, code_simp+)
  then show ?thesis by (simp add: exact_def fields)
qed

lemma demo_listed: "listed (at memory_stub (memory_view demo))"
proof -
  have "list_all (\<lambda>(kind, attrs, v). kind \<noteq> ''evaluation'' \<and> kind \<noteq> ''reviewActionReference''
      \<and> (kind \<in> {''owner'', ''state'', ''history''} \<longrightarrow> length attrs = 2)) demo_records"
    by (simp add: demo_records_def)
  moreover have "table es kind attrs \<noteq> [] \<Longrightarrow> (kind, attrs, table es kind attrs) \<in> set es" for es kind attrs
    by (induction es) (auto simp: table_simps split: if_splits)
  ultimately show ?thesis
    unfolding listed_def entry_listed_def demo_at by (fastforce simp: list_all_iff)
qed

lemma demo_page_facts:
  "permitted Logistics ''carrier'' ''QueryBatchesByOwner''"
  "page_kind ''QueryBatchesByOwner'' (pi_Filter demo_page) = Inr ''owner''"
  "batch_record (at memory_stub (memory_view demo)) ''QueryBatchesByOwner'' Producer (encoded (marshal Batch_fields demo_batch))"
proof -
  show "permitted Logistics ''carrier'' ''QueryBatchesByOwner''"
    by (simp add: permitted_def member_def expected_caller_def allowed_roles_def)
  show "page_kind ''QueryBatchesByOwner'' (pi_Filter demo_page) = Inr ''owner''"
    by (simp add: page_kind_def demo_page_def member_def)
  show "batch_record (at memory_stub (memory_view demo)) ''QueryBatchesByOwner'' Producer (encoded (marshal Batch_fields demo_batch))"
    unfolding batch_record_def demo_at
    by (intro exI [of _ demo_id] exI [of _ demo_batch] exI [of _ demo_refs]) (simp add: demo_here, simp add: demo_batch_def)
qed

lemma demo_page_answered:
  "\<exists>bs. Invoke memory_stub (demo_lookup ''QueryBatchesByOwner'' (encoded (marshal pageInput_fields demo_page))) demo
     = (Success bs, demo)"
proof -
  have "world_ok (at memory_stub (memory_view demo))" using demo_consistent by (simp add: consistent_def)
  from listing_memory.first_batches [OF demo_fresh this demo_listed, where msp = Logistics and role = "''carrier''"
      and arg = "encoded (marshal pageInput_fields demo_page)" and p = demo_page
      and j = "demo_lookup ''QueryBatchesByOwner'' (encoded (marshal pageInput_fields demo_page))" and kind = "''owner''" and t = "[]"]
  show ?thesis using demo_page_facts demo_page_read by (auto simp: demo_page_def)
qed

end
