(* ===== verification/Spec2Isabelle.thy ===== *)
theory Spec2Isabelle
  imports Scenario Priced Failures Formats Trust Access Review Catalog
begin

text \<open>
  AgroChain chaincode: a verification development of the Go package
  \<open>src/chaincode/agrochain/internal/agrochain\<close>, the smart contract of a Hyperledger Fabric channel
  on which four organizations hand a batch of produce from producer over carrier to retailer, prove
  its paperwork with signed documents and let a regulator compare the prices at both ends.

  \<^bold>\<open>The program and its theories.\<close>  The theories follow the files of the package, in the order
  in which they call each other; every Go function has a definition of its name, and every early
  return is a branch of it.

  \<^item> \<open>Prelude\<close>, \<open>Text\<close>, \<open>Utf8\<close>, \<open>Json\<close>, \<open>Dates\<close>, \<open>Base64\<close>, \<open>Errors\<close>, \<open>Struct\<close>: what the package uses of
    Go's standard library, namely byte strings, decimal integers of a width, valid UTF-8, the JSON parser and
    printer, reflection on struct tags (\<open>encoding/json\<close> of a struct is a list of fields with a codec
    each), \<open>time.Parse\<close> of two layouts, base64url, and \<open>DomainError\<close> as the left summand of a result.
  \<^item> \<open>Models\<close> is \<open>models.go\<close>: the constants and the records with their JSON field lists.
  \<^item> \<open>Validation\<close> is \<open>validation.go\<close>: \<open>strictJSON\<close>, \<open>decode\<close>, \<open>parseCommand\<close>, \<open>validatePayload\<close>,
    \<open>authorize\<close>, \<open>canonical\<close>, \<open>sortedUnique\<close>.
  \<^item> \<open>Ledger\<close> is \<open>ledger.go\<close>: keys, \<open>load\<close>, \<open>absent\<close>, the write plan and its flush; the \<open>ledger\<close>
    interface is a record of operations on an abstract state.
  \<^item> \<open>Domain\<close> is \<open>domain.go\<close>: \<open>engine.apply\<close> with every case of its switch.
  \<^item> \<open>Evidence\<close>, \<open>PrivateData\<close> and \<open>Private\<close> are \<open>evidence.go\<close> and \<open>private.go\<close>: bootstrap,
    commitments, \<open>verifyBundle\<close>, \<open>decodeBundles\<close>, \<open>realEvidence.prepare\<close>, the private queries.
  \<^item> \<open>Analysis\<close> is \<open>analysis.go\<close>: \<open>priceScore\<close>, the evaluation and the review.
  \<^item> \<open>Queries\<close> and \<open>Contract\<close> are \<open>queries.go\<close> and \<open>contract.go\<close>: \<open>query\<close>, \<open>dispatch\<close>, \<open>Invoke\<close>
    and the Fabric adapter \<open>fabricLedger\<close>.

  \<^bold>\<open>State and interfaces.\<close>  The package keeps its state in the ledger, reached through the shim.  The
  shim is code outside the repository: a \<open>stub\<close> is a record of its operations on an abstract peer
  state, with the hash function and the signature check, and the laws the package relies on are the
  assumptions of locales.  \<open>ledger_store\<close> (in \<open>Ledger\<close>): keys are injective, a read sees the committed
  value, a write changes one key.  \<open>evidence_provider\<close> (in \<open>Domain\<close>): what an evidence provider promises
  the engine; \<open>prepare\<close> is its model.  \<open>shim_stub\<close> (in \<open>Peer\<close>): reads answer from the committed state
  and writes go to a write set; every shim gives a \<open>ledger_store\<close> by \<open>sublocale\<close>.  \<open>reliable_ledger\<close>
  and \<open>reliable_stub\<close> (in \<open>Progress\<close>) add that operations with well-formed keys do not fail; only
  statements that something is committed or that nothing was written need it.  \<open>naming_stub\<close> says that
  printable attributes make a key, \<open>paging_stub\<close> that a page without a bookmark, or from one that extends
  the partial key asked for, lists committed states under that key (both in \<open>Progress\<close>; from any other
  bookmark the peer in memory lists other keys, as Fabric does), and \<open>listing_stub\<close> (in \<open>Catalog\<close>)
  that a first page is answered and, without a continuation, complete.  \<open>struct\<close> (in \<open>Struct\<close>) is the contract of a JSON field list, interpreted for every struct.  Each locale is interpreted on
  the model, and the shim on a peer in memory that makes keys the way Fabric does.

  \<^bold>\<open>The argument.\<close>  \<open>World\<close> states the invariant of the public ledger (\<open>world_ok\<close>: records, indexes,
  history and pending transfer of every batch agree) and \<open>Commands\<close> shows that every case of the
  engine keeps it.  \<open>Lifecycle\<close> and \<open>Refinement\<close> give the abstract specification, a map from batch
  identifiers to custody with the rules of \<open>custody_step\<close>, and the simulation.  \<open>Peer\<close> and
  \<open>Transactions\<close> lift both to sequences of committed transactions (\<open>reachable\<close>) and show what is
  append-only.  \<open>Records\<close> and \<open>Consumption\<close> describe what a committed command leaves behind, its
  receipt and its used documents; \<open>Reads\<close> and \<open>Commit\<close> the queries and atomicity; \<open>Progress\<close>,
  \<open>Creation\<close>, \<open>Freight\<close> and \<open>Genesis\<close> that acceptances, creations, freight costs and the bootstrap go
  through.  \<open>Vault\<close> is about the private collections: every opening they keep is that of a document
  that was verified and whose record is public (\<open>anchored\<close>), and \<open>GetPurchase\<close> answers with it.
  \<open>Pricing\<close> follows an evaluation from the prices in the collections to the record it stores.  \<open>Listing\<close>
  extends the invariant to every entry a page may list (\<open>listed\<close>), \<open>Pages\<close> and \<open>Catalog\<close> show what pages
  answer, \<open>Strict\<close> what strict decoding guarantees of the texts it accepts, and \<open>Robust\<close> follows every
  key the code builds back to them, so that no request panics.  \<open>Failures\<close> follows
  every error to the table.  \<open>Encoding\<close>, \<open>Ordering\<close>, \<open>Formats\<close>, \<open>Trust\<close>, \<open>Scoring\<close>, \<open>Review\<close> and
  \<open>Access\<close> are about single components: parsers and encodings, bundles and commitments, the price score
  and the review, who may call and read what.  \<open>Demo\<close>, \<open>Scenario\<close>, \<open>Deal\<close> and \<open>Priced\<close> run the model: a
  handover, a channel from its empty ledger over the bootstrap to its first batch, a batch whose sale
  is read back and whose freight is invoiced, and one whose price is evaluated; \<open>Samples\<close> holds the
  signed documents they use.

  \<^bold>\<open>Bounds and fuel.\<close>  The JSON parser takes fuel, one more than the length of the text, which is
  enough for every text (\<open>json_parse_complete\<close>).  Every other function is structurally recursive or has
  a measure.  Integers are Go's \<open>int64\<close>: arithmetic that could overflow is written with \<open>wrap64\<close> and
  Go's truncating division, and shown to be exact where the checks before it bound it.

  \<^bold>\<open>Decisions of the model.\<close>  A panic is a value (\<open>Panic\<close>, answered by \<open>Crash\<close>): what the process
  does after one is outside the package, and \<open>never_crashes\<close> shows that none occurs.  Queries are
  functions of the state: their code calls only the reading operations of the ledger.  A raw JSON
  message is kept as its printed text.  A nil and an empty slice are one list, except in \<open>source_types\<close>, where \<open>reflect.DeepEqual\<close> tells them apart.  An ignored error of
  \<open>json.Unmarshal\<close> leaves the zero value (\<open>payload_of\<close>); it cannot occur after validation.  Rejections of
  \<open>tokenValue\<close> share one error code, so it is checked on the parsed tree, level by level.

  \<^bold>\<open>Not modelled.\<close>  \<open>cmd/server/main.go\<close>: it reads environment variables and TLS files and starts the
  shim's server, and takes no decision of the program.  Fabric's endorsement, ordering and
  version checks between concurrent transactions: a channel commits transactions one after the other.
  The nesting limit of 10000 of Go's JSON decoder, far beyond the nine levels and 64 KiB that strict
  decoding accepts.  The order, the limit and the bookmarks of the shim's range queries are
  its own: of a page that continues, it is proved that its records are true, not which ones it
  holds.  The Java backend, the scripts and the network configuration are other programs.
\<close>

section \<open>The ledger\<close>



text \<open>
  C2.  Refinement: the batches on the ledger, read as a map from identifiers to custody, move as
  the abstract channel does.  A successful invocation is one step of it for its function and its
  caller: a query or a bootstrap changes no batch, \<open>CreateBatch\<close> adds one in its initial state,
  any other command takes one batch along one rule of \<open>custody_step\<close>, and no other batch moves.
\<close>

theorem transaction_refines:
  assumes "shim_stub stub fresh view private_view commit"
    and "fresh s" "consistent (at stub (view s))" "Invoke stub i s = (Success bs, s')"
  shows "\<exists>msp role. caller i = Inr (msp, role) \<and>
    channel_step (inv_Function i) msp (custody_map (at stub (view s))) (custody_map (at stub (view s')))"
  using shim_stub.transaction_channel [OF assms(1,2) _ assms(4)] assms(3)
  unfolding consistent_def by metis

theorem transaction_refines_witness:
  "Invoke memory_stub demo_invocation demo = (Success demo_reply, demo_next) \<and>
     (\<exists>msp role. caller demo_invocation = Inr (msp, role) \<and>
       channel_step (inv_Function demo_invocation) msp (custody_map (at memory_stub (memory_view demo)))
         (custody_map (at memory_stub (memory_view demo_next))))"
  using transaction_refines [OF memory.shim_stub_axioms demo_fresh demo_consistent demo_accepts(1)]
    demo_accepts(1) by simp

text \<open>
  C3.  The whole history of the channel is a run of the abstract channel: however many
  transactions are committed, the batches have come to where they are by its steps alone.
\<close>

theorem channel_refines:
  assumes "shim_stub stub fresh view private_view commit"
    and "fresh s0" "consistent (at stub (view s0))" "reachable stub commit s0 s"
  shows "\<exists>acts. channel_run (custody_map (at stub (view s0))) acts (custody_map (at stub (view s)))"
  by (rule shim_stub.reachable_channel [OF assms])

theorem channel_refines_witness:
  "\<exists>acts. channel_run (custody_map (at memory_stub (memory_view demo))) acts
     (custody_map (at memory_stub (memory_view (memory_commit demo_next))))"
  by (rule channel_refines [OF memory.shim_stub_axioms demo_fresh demo_consistent demo_later])

text \<open>
  C17.  A batch is never lost, never goes back to an earlier phase, never changes its quantity
  and never loses a version, however many transactions are committed after it was seen.
\<close>

theorem batch_never_regresses:
  assumes "shim_stub stub fresh view private_view commit"
    and "fresh s" "consistent (at stub (view s))" "reachable stub commit s s'"
    and "batch_here (at stub (view s)) i b r"
  shows "\<exists>b' r'. batch_here (at stub (view s')) i b' r' \<and> b_QuantityGrams b' = b_QuantityGrams b
    \<and> phase_of (b_State b) \<le> phase_of (b_State b') \<and> b_Version b \<le> b_Version b'"
proof -
  obtain acts where run: "channel_run (custody_map (at stub (view s))) acts (custody_map (at stub (view s')))"
    using shim_stub.reachable_channel [OF assms(1-4)] by blast
  have world: "world_ok (at stub (view s'))"
    using shim_stub.later_consistent [OF assms(1-4)] by (simp add: consistent_def)
  show ?thesis
  proof (rule channel_run_order)
    show "channel_run (custody_map (at stub (view s))) acts (custody_map (at stub (view s')))" by (rule run)
    show "custody_map (at stub (view s)) i = Some (custody_of b r)" by (rule custody_map_here [OF assms(5)])
    fix v
    assume v: "custody_map (at stub (view s')) i = Some v" "cu_quantity v = cu_quantity (custody_of b r)"
      "cu_phase (custody_of b r) \<le> cu_phase v" "cu_version (custody_of b r) \<le> cu_version v"
    from custody_map_batch [OF v(1) world] show ?thesis using v(2-4) by (auto simp: custody_of_def)
  qed
qed

theorem batch_never_regresses_witness:
  "\<exists>b' r'. batch_here (at memory_stub (memory_view (memory_commit demo_next))) demo_id b' r'
     \<and> b_QuantityGrams b' = b_QuantityGrams demo_batch \<and> phase_of (b_State demo_batch) \<le> phase_of (b_State b')
     \<and> b_Version demo_batch \<le> b_Version b'"
  by (rule batch_never_regresses [OF memory.shim_stub_axioms demo_fresh demo_consistent demo_later
        demo_here [folded demo_at]])

section \<open>What a transaction may do\<close>

text \<open>
  C4.  Only a permitted caller succeeds: when an invocation succeeds, its certificate names an
  organization and a role that the authorization table permits for the function called.
\<close>

theorem success_permitted:
  assumes "Invoke stub i s = (Success bs, s')"
  shows "\<exists>msp role. caller i = Inr (msp, role) \<and> permitted msp role (inv_Function i)"
  by (rule Invoke_Success [OF assms]) (blast dest: dispatch_authorized)

theorem success_permitted_witness:
  "\<exists>msp role. caller demo_invocation = Inr (msp, role) \<and> permitted msp role (inv_Function demo_invocation)"
  by (rule success_permitted [OF demo_accepts(1)])

text \<open>
  C7.  All or nothing: on a peer whose own operations do not fail, an invocation that is not
  answered with success (an error response, or a panic) has written nothing at all, neither
  public nor private data, whatever it was asked to do.
\<close>

theorem all_or_nothing:
  assumes "reliable_stub stub fresh view private_view commit"
    and "fresh s" "consistent (at stub (view s))"
  shows "case Invoke stub i s of (Success bs, s') \<Rightarrow> True | (_, s') \<Rightarrow> s' = s"
proof (cases "Invoke stub i s")
  case (Pair r s')
  then show ?thesis
    using reliable_stub.Invoke_atomic [OF assms(1,2) _ Pair] assms(3)
    by (auto simp: consistent_def split: response.splits)
qed

theorem all_or_nothing_witness:
  "case Invoke memory_stub (demo_invocation \<lparr> inv_TxID := [] \<rparr>) demo of (Success bs, s') \<Rightarrow> True | (_, s') \<Rightarrow> s' = demo"
  by (rule all_or_nothing [OF reliable_memory.reliable_stub_axioms demo_fresh demo_consistent])

text \<open>
  C10.  On any peer, a rejected invocation leaves the state as it was, or tells the client that
  the ledger itself failed: every error but \<open>INTERNAL_ERROR\<close> is raised before the first write.
\<close>

theorem rejected_unchanged:
  "case Invoke stub i s of (Success bs, s') \<Rightarrow> True | (r, s') \<Rightarrow> s' = s \<or> r = respond (fail ''INTERNAL_ERROR'')"
  using Invoke_rejects [of stub i s] by (auto split: prod.splits response.splits)

text \<open>
  C24.  Whoever changes the ledger is accountable: an invocation after which the state differs,
  however it is answered, is \<open>Bootstrap\<close> or a command that parses, by a caller whom the
  authorization table permits, and in a checked proposal context, with a transaction identifier
  and a time in range.  In particular the two lists of commands in the code agree, so that no
  command runs with the empty context of a query.
\<close>

theorem writes_accountable:
  assumes "Invoke stub i s = (r, s')" "s' \<noteq> s"
  shows "\<exists>msp role raw seconds nanos. caller i = Inr (msp, role) \<and> permitted msp role (inv_Function i)
    \<and> inv_TxTimestamp i = Some (seconds, nanos) \<and> 0 \<le> seconds \<and> 0 \<le> nanos \<and> nanos \<le> 999999999
    \<and> match_hexID (inv_TxID i) \<and> inv_Parameters i = [raw]
    \<and> (if inv_Function i = ''Bootstrap'' then inv_Transient i = Some []
       else isMutation (inv_Function i) \<and> (\<exists>c. parseCommand (inv_Function i) raw = Inr c))"
  by (rule Invoke_writes [OF assms]) blast

theorem writes_accountable_witness:
  "snd (Invoke memory_stub demo_invocation demo) \<noteq> demo
   \<and> (\<exists>msp role. caller demo_invocation = Inr (msp, role) \<and> permitted msp role (inv_Function demo_invocation)
        \<and> match_hexID (inv_TxID demo_invocation))"
proof -
  have moved: "demo_next \<noteq> demo"
  proof
    assume same: "demo_next = demo"
    obtain b where b: "batch_here (at memory_stub (memory_view demo)) demo_id b demo_refs" "b_State b = InTransport"
      using demo_accepts(2) unfolding same by blast
    then have "b = demo_batch" using batch_here_unique(1) [OF b(1)] demo_here unfolding demo_at by blast
    then show False using b(2) by (simp add: demo_batch_def state_defs)
  qed
  from writes_accountable [OF demo_accepts(1) moved] moved show ?thesis
    unfolding demo_accepts(1) snd_conv by blast
qed

text \<open>
  C11.  Append only: outside the six kinds of key that hold current state, a public record
  that exists is never changed or deleted by any number of later transactions.  This covers
  receipts, history, documents, nonces, source uses, evaluations, lots, costs, reports, the
  trusted configuration and, where the listed entries are those the code builds (which holds in
  every state of a channel), the references to review actions.
\<close>

theorem append_only:
  assumes "shim_stub stub fresh view private_view commit"
    and "fresh s" "consistent (at stub (view s))" "reachable stub commit s s'"
    and "kind \<notin> set mutable_kinds" "kind = ''reviewActionReference'' \<Longrightarrow> listed (at stub (view s))"
    and "at stub (view s) kind attrs \<noteq> []"
  shows "at stub (view s') kind attrs = at stub (view s) kind attrs"
  by (rule shim_stub.records_kept [OF assms])

theorem append_only_witness:
  "at memory_stub (memory_view (memory_commit demo_next)) ''history'' [demo_id, ''0000000001'']
     = at memory_stub (memory_view demo) ''history'' [demo_id, ''0000000001'']"
  by (rule append_only [OF memory.shim_stub_axioms demo_fresh demo_consistent demo_later])
    (simp_all add: mutable_kinds_def demo_at table_simps demo_records_def)

text \<open>
  C5.  What a successful command records: its reply is the stored receipt, at the caller's
  operation identifier, which was free before, and in the history at the batch's new version;
  the receipt names the operation, the batch, the function and the caller's organization.  The
  command took effect on the version it expected and on no other.
\<close>

theorem receipt_recorded:
  assumes "shim_stub stub fresh view private_view commit"
    and "fresh s" "consistent (at stub (view s))" "Invoke stub i s = (Success bs, s')"
    and "isMutation (inv_Function i)"
  shows "\<exists>msp role raw c receipt b r. caller i = Inr (msp, role) \<and> inv_Parameters i = [raw]
    \<and> parseCommand (inv_Function i) raw = Inr c \<and> bs = encoded (marshal Receipt_fields receipt)
    \<and> at stub (view s) ''operation'' [msp, c_OperationID c] = []
    \<and> at stub (view s') ''operation'' [msp, c_OperationID c] = bs
    \<and> at stub (view s') ''history'' [c_BatchID c, format_padded (b_Version b)] = bs
    \<and> batch_here (at stub (view s')) (c_BatchID c) b r \<and> b_Version b = c_ExpectedVersion c + 1
    \<and> (if inv_Function i = ''CreateBatch''
       then no_batch (at stub (view s)) (c_BatchID c) \<and> c_ExpectedVersion c = 0
       else \<exists>b0 r0. batch_here (at stub (view s)) (c_BatchID c) b0 r0 \<and> b_Version b0 = c_ExpectedVersion c)
    \<and> r_OperationID receipt = c_OperationID c \<and> r_BatchID receipt = c_BatchID c
    \<and> r_Command receipt = inv_Function i \<and> r_ActorMSP receipt = msp \<and> r_ResultVersion receipt = b_Version b"
proof -
  have "world_ok (at stub (view s))" using assms(3) by (simp add: consistent_def)
  then show ?thesis
    by (rule shim_stub.mutation_records [OF assms(1,2) _ assms(4,5)]) (blast intro: exI conjI)
qed

theorem receipt_recorded_witness:
  "\<exists>msp raw c receipt. inv_Parameters demo_invocation = [raw]
    \<and> parseCommand (inv_Function demo_invocation) raw = Inr c \<and> demo_reply = encoded (marshal Receipt_fields receipt)
    \<and> at memory_stub (memory_view demo_next) ''operation'' [msp, c_OperationID c] = demo_reply
    \<and> r_ResultVersion receipt = c_ExpectedVersion c + 1"
  using receipt_recorded [OF memory.shim_stub_axioms demo_fresh demo_consistent demo_accepts(1) demo_mutation]
  by (elim exE conjE) (intro exI conjI, assumption+, simp)

text \<open>
  C6.  An operation takes effect at most once: once a command of an organization is committed,
  no later invocation of that organization with the same operation identifier succeeds, on
  whatever batch and with whatever payload.
\<close>

theorem operation_once:
  assumes "shim_stub stub fresh view private_view commit"
    and "fresh s" "consistent (at stub (view s))" "Invoke stub i s = (Success bs, s1)"
    and "isMutation (inv_Function i)" "caller i = Inr (msp, role)"
    and "inv_Parameters i = [raw]" "parseCommand (inv_Function i) raw = Inr c"
    and "reachable stub commit (commit s1) s2"
    and "isMutation (inv_Function j)" "caller j = Inr (msp, role')"
    and "inv_Parameters j = [raw']" "parseCommand (inv_Function j) raw' = Inr c'"
    and "c_OperationID c' = c_OperationID c"
  shows "Invoke stub j s2 \<noteq> (Success bs', s3)"
proof -
  have world: "world_ok (at stub (view s))" using assms(3) by (simp add: consistent_def)
  have "at stub (view s1) ''operation'' [msp, c_OperationID c] \<noteq> []"
    by (rule shim_stub.mutation_records [OF assms(1,2) world assms(4,5)]) (use assms(6-8) in auto)
  moreover have c: "fresh (commit s1)" "view (commit s1) = view s1"
    using shim_stub.commit [OF assms(1)] by simp_all
  moreover have "consistent (at stub (view s1))"
    by (rule shim_stub.transaction_consistent [OF assms(1-4)])
  ultimately show ?thesis
    using shim_stub.operation_taken [OF assms(1) c(1) _ assms(9) _ assms(11,10,12,13)] assms(14) by simp
qed

theorem operation_once_witness:
  "\<forall>bs s. Invoke memory_stub demo_invocation (memory_commit demo_next) \<noteq> (Success bs, s)"
  by (intro allI operation_once [OF memory.shim_stub_axioms demo_fresh demo_consistent demo_accepts(1)
        demo_mutation demo_caller demo_parameters demo_parsed_invocation reachable.start
        demo_mutation demo_caller demo_parameters demo_parsed_invocation refl])

text \<open>
  C18.  The reply survives: on a peer that does not fail, \<open>GetOperation\<close> by the same organization
  returns, after any number of later transactions, exactly the bytes with which the command was
  first answered, so a client whose reply was lost can ask for it again.
\<close>

theorem receipt_served:
  assumes "reliable_stub stub fresh view private_view commit"
    and "fresh s" "consistent (at stub (view s))" "Invoke stub i s = (Success bs, s1)"
    and "isMutation (inv_Function i)" "caller i = Inr (msp, role)" "inv_Parameters i = [raw]"
    and "parseCommand (inv_Function i) raw = Inr c" "reachable stub commit (commit s1) s2"
    and "caller j = Inr (msp, role')" "permitted msp role' ''GetOperation''"
    and "inv_Function j = ''GetOperation''" "inv_Parameters j = [c_OperationID c]" "inv_Transient j = Some t"
  shows "Invoke stub j s2 = (Success bs, s2)"
  by (rule reliable_stub.get_operation [OF assms])

theorem receipt_served_witness:
  "Invoke memory_stub (demo_lookup ''GetOperation'' (c_OperationID demo_command)) (memory_commit demo_next)
     = (Success demo_reply, memory_commit demo_next)"
  by (rule receipt_served [OF reliable_memory.reliable_stub_axioms demo_fresh demo_consistent demo_accepts(1)
        demo_mutation demo_caller demo_parameters demo_parsed_invocation reachable.start,
        where role' = "''carrier''"])
    (simp_all add: demo_lookup_permitted)

text \<open>
  C19.  On a peer that does not fail, \<open>GetBatch\<close> answers with exactly the stored batch, or with
  \<open>BATCH_NOT_FOUND\<close> where there is none, and writes nothing.
\<close>

theorem get_batch_answers:
  assumes "reliable_stub stub fresh view private_view commit"
    and "fresh s" "consistent (at stub (view s))"
    and "caller j = Inr (msp, role)" "permitted msp role ''GetBatch''"
    and "inv_Function j = ''GetBatch''" "inv_Parameters j = [i]" "inv_Transient j = Some t" "validID i ''BAT''"
  shows "Invoke stub j s = (if at stub (view s) ''batch'' [i] = [] then respond (fail ''BATCH_NOT_FOUND'')
      else Success (at stub (view s) ''batch'' [i]), s)"
  using reliable_stub.get_batch [OF assms(1,2) _ assms(4-9)] assms(3) by (simp add: consistent_def)

theorem get_batch_answers_witness:
  "Invoke memory_stub (demo_lookup ''GetBatch'' demo_id) demo
     = (if at memory_stub (memory_view demo) ''batch'' [demo_id] = [] then respond (fail ''BATCH_NOT_FOUND'')
        else Success (at memory_stub (memory_view demo) ''batch'' [demo_id]), demo)"
  by (rule get_batch_answers [OF reliable_memory.reliable_stub_axioms demo_fresh demo_consistent,
        where msp = Logistics and role = "''carrier''"])
    (simp_all add: demo_lookup_permitted demo_id_valid)

text \<open>
  C8.  No request makes the chaincode panic: in every state a channel can reach, for every function,
  caller, parameter and transient field, and whatever records, keys and clocks the shim answers
  with, the invocation returns a response.
\<close>

theorem never_crashes:
  assumes "paging_stub stub fresh view private_view commit"
    and "fresh s0" "consistent (at stub (view s0))" "listed (at stub (view s0))"
    and "reachable stub commit s0 s"
  shows "fst (Invoke stub i s) \<noteq> Crash m"
proof -
  have shim: "shim_stub stub fresh view private_view commit"
    using assms(1) by (simp add: paging_stub_def naming_stub_def)
  show ?thesis
    using paging_stub.Invoke_calm [OF assms(1)] shim_stub.later_consistent [OF shim assms(2,3,5)]
      shim_stub.later_listed [OF shim assms(2-5)]
    by (simp add: consistent_def)
qed

theorem never_crashes_witness:
  "\<forall>i m. fst (Invoke memory_stub i (memory_commit demo_next)) \<noteq> Crash m"
  by (intro allI never_crashes [OF paging_memory.paging_stub_axioms demo_fresh demo_consistent demo_listed demo_later])

text \<open>
  C21.  A first page of the batches of an owner, or in a state, is answered, lists only stored batches
  of that owner or in that state, and, when it comes without a bookmark, lists all of them: on a
  peer that does not fail and lists what it holds, the indexes answer for the batches.
\<close>

theorem batches_listed:
  assumes "listing_stub stub fresh view private_view commit"
    and "fresh s" "world_ok (at stub (view s))" "listed (at stub (view s))"
    and "caller j = Inr (msp, role)" "permitted msp role (inv_Function j)"
    and "inv_Function j = ''QueryBatchesByOwner'' \<or> inv_Function j = ''QueryBatchesByState''"
    and "inv_Parameters j = [arg]" "inv_Transient j = Some t"
    and "decode pageInput_fields arg pageInput_zero
      [''schemaVersion'', ''filter'', ''pageSize'', ''bookmark''] = Inr p"
    and "pi_SchemaVersion p = ''agrochain.page-request.v1''" "1 \<le> pi_PageSize p" "pi_PageSize p \<le> 100"
    and "page_kind (inv_Function j) (pi_Filter p) = Inr kind" "pi_Bookmark p = []"
  shows "\<exists>pg. Invoke stub j s = (Success (encoded (marshal Page_fields pg)), s)
     \<and> (\<forall>r \<in> set (pg_Records pg). batch_record (at stub (view s)) (inv_Function j) (pi_Filter p) r)
     \<and> (pg_Bookmark pg = [] \<longrightarrow>
          (\<forall>r. batch_record (at stub (view s)) (inv_Function j) (pi_Filter p) r \<longrightarrow> r \<in> set (pg_Records pg)))"
  by (rule listing_stub.first_batches [OF assms])

theorem batches_listed_witness:
  "\<exists>pg. Invoke memory_stub (demo_lookup ''QueryBatchesByOwner'' (encoded (marshal pageInput_fields demo_page))) demo
        = (Success (encoded (marshal Page_fields pg)), demo)
     \<and> (pg_Bookmark pg = [] \<longrightarrow> encoded (marshal Batch_fields demo_batch) \<in> set (pg_Records pg))"
proof -
  have "world_ok (at memory_stub (memory_view demo))" using demo_consistent by (simp add: consistent_def)
  from batches_listed [OF listing_memory.listing_stub_axioms demo_fresh this demo_listed, where msp = Logistics
      and role = "''carrier''" and arg = "encoded (marshal pageInput_fields demo_page)" and p = demo_page
      and j = "demo_lookup ''QueryBatchesByOwner'' (encoded (marshal pageInput_fields demo_page))" and kind = "''owner''" and t = "[]"]
  show ?thesis using demo_page_facts demo_page_read by (auto simp: demo_page_def)
qed

text \<open>
  C22.  Every page, with a bookmark or without, is true to the ledger: a history page lists only
  receipts stored in the history of the batch asked for, and a page of batches only stored batches
  of the owner, or in the state, asked for.
\<close>

theorem pages_sound:
  assumes "paging_stub stub fresh view private_view commit"
    and "fresh s" "world_ok (at stub (view s))" "listed (at stub (view s))"
    and "Invoke stub j s = (Success bs, s')"
    and "inv_Function j \<in> {''QueryBatchesByOwner'', ''QueryBatchesByState'', ''GetBatchHistory''}"
  shows "\<exists>arg p pg. inv_Parameters j = [arg] \<and> decode pageInput_fields arg pageInput_zero
       [''schemaVersion'', ''filter'', ''pageSize'', ''bookmark''] = Inr p
     \<and> bs = encoded (marshal Page_fields pg)
     \<and> (\<forall>r \<in> set (pg_Records pg). if inv_Function j = ''GetBatchHistory''
           then history_record (at stub (view s)) (pi_Filter p) r
           else batch_record (at stub (view s)) (inv_Function j) (pi_Filter p) r)"
  using paging_stub.page_answered [OF assms] by blast

theorem pages_sound_witness:
  "\<exists>pg. Invoke memory_stub (demo_lookup ''QueryBatchesByOwner'' (encoded (marshal pageInput_fields demo_page))) demo
        = (Success (encoded (marshal Page_fields pg)), demo)
     \<and> (\<forall>r \<in> set (pg_Records pg).
          batch_record (at memory_stub (memory_view demo)) ''QueryBatchesByOwner'' Producer r)"
proof -
  obtain bs where run: "Invoke memory_stub
      (demo_lookup ''QueryBatchesByOwner'' (encoded (marshal pageInput_fields demo_page))) demo = (Success bs, demo)"
    using demo_page_answered by blast
  have "world_ok (at memory_stub (memory_view demo))" using demo_consistent by (simp add: consistent_def)
  from pages_sound [OF paging_memory.paging_stub_axioms demo_fresh this demo_listed run] run demo_page_read
  show ?thesis by (auto simp: demo_page_def)
qed

text \<open>
  C12.  Progress: on a peer that does not fail, a batch that waits for a handover can be accepted.
  The recipient's well-formed command for the awaited transfer, with the batch's version and
  quantity and a new operation identifier, is committed and moves the batch on: there is no
  state in which a pending batch is stuck.
\<close>

theorem accept_progress:
  assumes "reliable_stub stub fresh view private_view commit"
    and "fresh s" "world_ok (at stub (view s))" "batch_here (at stub (view s)) (c_BatchID c) b refs"
    and "pending_state (b_State b)" "b_State b = DeliveryPending \<Longrightarrow> e_FreightCostID refs \<noteq> []"
    and "b_Version b < 2147483647" "c_ExpectedVersion c = b_Version b"
    and "getConfig (fabricLedger stub) s = Inr cfg"
    and "inv_Function i = (if b_State b = PickupPending then ''AcceptPickup'' else ''AcceptDelivery'')"
    and "caller i = Inr (expected_caller (inv_Function i))"
    and "executionFromStub i (fst (expected_caller (inv_Function i))) (snd (expected_caller (inv_Function i))) = Inr x"
    and "\<And>seconds nanos. inv_TxTimestamp i = Some (seconds, nanos) \<Longrightarrow> seconds < 2 ^ 63"
    and "inv_Transient i = Some []" "inv_Parameters i = [raw]" "parseCommand (inv_Function i) raw = Inr c"
    and "p = payload_of handoffInput_fields handoffInput_zero c" "hi_QuantityGrams p = b_QuantityGrams b"
    and "at stub (view s) ''pendingTransfer'' [c_BatchID c] = encoded (JStr (hi_TransferID p))"
    and "at stub (view s) ''operation'' [x_Actor x, c_OperationID c] = []"
  shows "\<exists>bs s' b'. Invoke stub i s = (Success bs, s') \<and> batch_here (at stub (view s')) (c_BatchID c) b' refs
    \<and> b_State b' = (if b_State b = PickupPending then InTransport else Received)"
  by (rule reliable_stub.accept_commits [OF assms])

theorem accept_progress_witness:
  "\<exists>bs s' b'. Invoke memory_stub demo_invocation demo = (Success bs, s')
    \<and> batch_here (at memory_stub (memory_view s')) (c_BatchID demo_command) b' demo_refs
    \<and> b_State b' = (if b_State demo_batch = PickupPending then InTransport else Received)"
  by (rule accept_progress [OF reliable_memory.reliable_stub_axioms demo_fresh, where p = demo_handoff
        and x = demo_execution and cfg = demo_config and raw = "encoded (marshal Command_fields demo_command)"])
    (use demo_accept_facts in \<open>simp_all\<close>)

text \<open>
  C13.  Evidence is consumed: when a command that needs signed documents succeeds, it was sent
  exactly one document of each type it needs, from that type's source system, each verified, bound
  to the command's batch and operation, and never used before on the channel; afterwards each is
  marked as used, by its identifier, by its source document and by its nonce.
\<close>

theorem evidence_consumed:
  assumes "shim_stub stub fresh view private_view commit"
    and "fresh s" "Invoke stub i s = (Success bs, s')"
    and "inv_Function i \<in> {''CreateBatch'', ''OfferPickup'', ''RecordFreightCost''}"
  shows "\<exists>raw c t documents. inv_Parameters i = [raw] \<and> parseCommand (inv_Function i) raw = Inr c
    \<and> inv_Transient i = Some t \<and> decodeBundles (entry_of t ''evidence'') = Inr documents
    \<and> set (map (h_DocumentType \<circ> document_header) documents) = fst ` set (fst (required_evidence (inv_Function i)))
    \<and> distinct (map (h_DocumentType \<circ> document_header) documents)
    \<and> list_all (\<lambda>d. verifyBundle (fabricLedger stub) s d = Inr () \<and> h_BatchID (document_header d) = c_BatchID c
        \<and> h_OperationID (document_header d) = c_OperationID c
        \<and> h_SourceSystem (document_header d) =
            entry_of (fst (required_evidence (inv_Function i))) (h_DocumentType (document_header d))
        \<and> list_all (\<lambda>(kind, attrs). at stub (view s) kind attrs = [] \<and> at stub (view s') kind attrs \<noteq> [])
            (use_records (document_header d))) documents"
  unfolding list_all_iff
  by (rule shim_stub.mutation_evidence [OF assms]) (intro exI conjI, assumption+)

theorem evidence_consumed_witness:
  "\<exists>raw c t documents. inv_Parameters first_invocation = [raw] \<and> parseCommand ''CreateBatch'' raw = Inr c
    \<and> inv_Transient first_invocation = Some t \<and> decodeBundles (entry_of t ''evidence'') = Inr documents
    \<and> list_all (\<lambda>d. verifyBundle (fabricLedger memory_stub) genesis d = Inr ()
        \<and> list_all (\<lambda>(kind, attrs). at memory_stub (memory_view genesis) kind attrs = []
            \<and> at memory_stub (memory_view first_state) kind attrs \<noteq> []) (use_records (document_header d))) documents"
proof -
  have fn: "inv_Function first_invocation = ''CreateBatch''" by (simp add: first_invocation_def first_context_def)
  from evidence_consumed [OF memory.shim_stub_axioms genesis_fresh first_created(1)] fn show ?thesis
    by (auto simp: list_all_iff)
qed

text \<open>
  C16.  A channel can start: on a peer that does not fail, the administrator's \<open>Bootstrap\<close> of a
  ledger without a configuration is committed for every admissible configuration, which is then
  the stored one, and every source key it names is in the registry.
\<close>

theorem bootstrap_progress:
  assumes "reliable_stub stub fresh view private_view commit"
    and "fresh s" "admissible c" "trust_world (at stub (view s))" "at stub (view s) ''configuration'' [''v1''] = []"
    and "inv_Function i = ''Bootstrap''" "caller i = Inr (Regulator, ''admin'')"
    and "executionFromStub i Regulator ''admin'' = Inr x" "inv_Transient i = Some []"
    and "inv_Parameters i = [encoded (marshal configuration_fields c)]"
  shows "\<exists>s'. Invoke stub i s = (Success (encoded (marshal configuration_fields c)), s')
    \<and> at stub (view s') ''configuration'' [''v1''] = encoded (marshal configuration_fields c)
    \<and> list_all (\<lambda>k. at stub (view s') ''sourceKey'' [sk_IssuerID k, sk_KeyID k] = encoded (stored_source k (x_TxID x)))
        (cf_Sources c)"
  by (rule reliable_stub.bootstrap_commits [OF assms]) (auto simp: list_all_iff registry_name_def)

theorem bootstrap_progress_witness:
  "\<exists>s'. Invoke memory_stub genesis_invocation memory_empty = (Success (encoded (marshal configuration_fields first_config)), s')
    \<and> at memory_stub (memory_view s') ''configuration'' [''v1''] = encoded (marshal configuration_fields first_config)"
proof -
  have "trust_world (at memory_stub (memory_view memory_empty))" using empty_world by (simp add: consistent_def)
  from bootstrap_progress [OF reliable_memory.reliable_stub_axioms empty_fresh first_config_admissible this empty_at
      genesis_called]
  show ?thesis by blast
qed

text \<open>
  C14.  A batch can be created: on a peer that does not fail, the producer's well-formed
  \<open>CreateBatch\<close> for a new identifier, with one verified, unused certificate of eligibility that
  matches it, is committed; the batch is then in its first state and version, owned by the
  producer, and refers to the certificate.
\<close>

theorem create_progress:
  assumes "reliable_stub stub fresh view private_view commit"
    and "fresh s" "world_ok (at stub (view s))"
    and "proposes stub s (at stub (view s)) i x [(''evidence'', raw)] c"
    and "inv_Function i = ''CreateBatch''" "no_batch (at stub (view s)) (c_BatchID c)"
    and "c_ExpectedVersion c = 0" "decodeBundles raw = Inr [d]"
    and "ready_document (fabricLedger stub) s (at stub (view s)) c d" "certifies c d"
  shows "\<exists>bs s' b refs. Invoke stub i s = (Success bs, s') \<and> batch_here (at stub (view s')) (c_BatchID c) b refs
    \<and> b_State b = Created \<and> b_Version b = 1 \<and> b_OwnerMSP b = Producer
    \<and> e_CKSDocumentID refs = h_DocumentID (document_header d)"
  by (rule reliable_stub.create_commits [OF assms]) blast

theorem create_progress_witness:
  "\<exists>bs s' b refs. Invoke memory_stub first_invocation genesis = (Success bs, s')
    \<and> batch_here (at memory_stub (memory_view s')) (c_BatchID first_command) b refs \<and> b_State b = Created"
proof -
  have world: "world_ok (at memory_stub (memory_view genesis))" using genesis_consistent by (simp add: consistent_def)
  have "\<exists>bs s' b refs. Invoke memory_stub first_invocation genesis = (Success bs, s')
    \<and> batch_here (at memory_stub (memory_view s')) (c_BatchID first_command) b refs
    \<and> b_State b = Created \<and> b_Version b = 1 \<and> b_OwnerMSP b = Producer
    \<and> e_CKSDocumentID refs = h_DocumentID (document_header first_bundle)"
    by (rule create_progress [OF reliable_memory.reliable_stub_axioms genesis_fresh world first_proposed _ _ _
          first_evidence_read first_ready first_certifies])
      (use first_unknown in \<open>simp_all add: first_invocation_def first_context_def first_command_def\<close>)
  then show ?thesis by blast
qed

text \<open>
  C15.  The freight can be invoiced: on a peer that does not fail, the carrier's well-formed
  \<open>RecordFreightCost\<close> for a batch in its hands, with one verified, unused invoice that matches the
  batch and a salt, is committed.  The batch keeps its state and gains a version, its evidence
  names the new cost, and the opening of the invoice is in the freight collection.
\<close>

theorem freight_progress:
  assumes "reliable_stub stub fresh view private_view commit"
    and "fresh s" "world_ok (at stub (view s))"
    and "proposes stub s (at stub (view s)) i x (freight_data raw raw') c"
    and "inv_Function i = ''RecordFreightCost''" "batch_here (at stub (view s)) (c_BatchID c) b refs"
    and "b_State b = InTransport \<or> b_State b = DeliveryPending" "e_FreightCostID refs = []"
    and "c_ExpectedVersion c = b_Version b" "b_Version b < 2147483647"
    and "decodeBundles raw = Inr [d]" "usable (fabricLedger stub) s (at stub (view s)) c d" "invoices b d"
    and "strictJSON raw' = Inr (JStr salt)" "match_hexID salt"
    and "p = payload_of freightInput_fields freightInput_zero c" "at stub (view s) ''costReference'' [fi_CostID p] = []"
  shows "\<exists>bs s' b'. Invoke stub i s = (Success bs, s')
    \<and> batch_here (at stub (view s')) (c_BatchID c) b' (refs \<lparr> e_FreightCostID := fi_CostID p \<rparr>)
    \<and> b_State b' = b_State b \<and> b_Version b' = b_Version b + 1
    \<and> at stub (private_view s' freight) ''documentOpening'' [h_DocumentID (document_header d)]
        = encoded (marshal opening_fields \<lparr> op_Body = bu_Body d, op_Salt = bu_Salt d \<rparr>)"
  using reliable_stub.freight_commits [OF assms] by (simp only: opening_of_def)

theorem freight_progress_witness:
  "\<exists>bs s' b'. Invoke memory_stub freight_invocation deal = (Success bs, s')
    \<and> batch_here (at memory_stub (memory_view s')) demo_id b' (demo_refs \<lparr> e_FreightCostID := ''CST-00000001'' \<rparr>)
    \<and> b_State b' = InTransport \<and> b_Version b' = 4"
  using freight_progress [OF freight_conditions] by (fastforce simp: freight_names freight_input_def deal_batch_def)

text \<open>
  C23.  The trust configuration is set once: where there is one, no sequence of later transactions
  changes it, and no later \<open>Bootstrap\<close> succeeds.
\<close>

theorem configuration_once:
  assumes "shim_stub stub fresh view private_view commit"
    and "fresh s" "consistent (at stub (view s))" "reachable stub commit s s'"
    and "at stub (view s) ''configuration'' [''v1''] \<noteq> []"
  shows "at stub (view s') ''configuration'' [''v1''] = at stub (view s) ''configuration'' [''v1'']
    \<and> (inv_Function i \<noteq> ''Bootstrap'' \<or> (\<nexists>bs s2. Invoke stub i s' = (Success bs, s2)))"
  using shim_stub.bootstrap_once [OF assms] by blast

theorem configuration_once_witness:
  "\<nexists>bs s2. Invoke memory_stub (demo_lookup ''Bootstrap'' []) (memory_commit demo_next) = (Success bs, s2)"
  using configuration_once [OF memory.shim_stub_axioms demo_fresh demo_consistent demo_later,
      of "demo_lookup ''Bootstrap'' []"]
  by (simp add: demo_at table_simps demo_records_def)

section \<open>The private evidence\<close>

text \<open>
  C9.  The private evidence stays anchored: on a channel whose collections start empty, or with
  openings of which this already holds, every opening that a collection keeps is that of a document
  whose signature and commitment were verified when it was taken; it is in the collection for the
  document's type, it opens the commitment, and the public record of the document is still there.
\<close>

theorem openings_anchored:
  assumes "shim_stub stub fresh view private_view commit"
    and "fresh s0" "consistent (at stub (view s0))" "reachable stub commit s0 s"
    and "anchored (witnessed stub commit s0) (at stub (view s0)) (\<lambda>col. at stub (private_view s0 col))"
    and "at stub (private_view s col) ''documentOpening'' [i] \<noteq> []"
  shows "\<exists>t d. reachable stub commit s0 t \<and> verifyBundle (fabricLedger stub) t d = Inr ()
    \<and> commitment (fabricLedger stub) (bu_Body d) (bu_Salt d) = Inr (h_Commitment (document_header d))
    \<and> h_DocumentID (document_header d) = i
    \<and> (h_DocumentType (document_header d) = ''PURCHASE_INVOICE'' \<and> col = trade
       \<or> h_DocumentType (document_header d) = ''FREIGHT_INVOICE'' \<and> col = freight)
    \<and> at stub (view s) ''document'' [i] = encoded (marshal envelope_fields (bu_Envelope d))
    \<and> at stub (private_view s col) ''documentOpening'' [i]
        = encoded (marshal opening_fields \<lparr> op_Body = bu_Body d, op_Salt = bu_Salt d \<rparr>)"
proof -
  have "anchored (witnessed stub commit s0) (at stub (view s)) (\<lambda>col. at stub (private_view s col))"
    by (rule shim_stub.openings_later [OF assms(1-5)])
  then obtain d where "witnessed stub commit s0 d"
    "opened (at stub (view s)) col i (at stub (private_view s col) ''documentOpening'' [i]) d"
    using assms(6) by (auto simp: anchored_def)
  then show ?thesis
    unfolding witnessed_def opened_def kept_in_def opening_of_def by (blast intro: verified_opens)
qed

theorem openings_anchored_witness:
  "\<exists>bs s'. Invoke memory_stub freight_invocation deal = (Success bs, s')
    \<and> (\<exists>d. commitment (fabricLedger memory_stub) (bu_Body d) (bu_Salt d) = Inr (h_Commitment (document_header d))
        \<and> h_DocumentID (document_header d) = ''DOC-00000005''
        \<and> at memory_stub (memory_private (memory_commit s') freight) ''documentOpening'' [''DOC-00000005'']
            = encoded (marshal opening_fields \<lparr> op_Body = bu_Body d, op_Salt = bu_Salt d \<rparr>))"
proof -
  obtain bs s' where run: "Invoke memory_stub freight_invocation deal = (Success bs, s')"
    and kept: "at memory_stub (memory_private s' freight) ''documentOpening'' [''DOC-00000005''] \<noteq> []"
    using freight_recorded by blast
  have "reachable memory_stub memory_commit deal (memory_commit s')" by (rule reachable.transaction [OF reachable.start run])
  moreover have "memory_private (memory_commit s') = memory_private s'" by (rule memory.commit)
  ultimately show ?thesis
    using openings_anchored [OF memory.shim_stub_axioms deal_fresh deal_consistent _ deal_anchored, of "memory_commit s'" freight]
      run kept by simp blast
qed

text \<open>
  C20.  The purchase is answered truthfully: whoever \<open>GetPurchase\<close> answers may read the trade
  collection, and is answered with exactly a document that was verified on the channel, namely the
  purchase invoice that the evidence of the batch names.
\<close>

theorem purchase_true:
  assumes "shim_stub stub fresh view private_view commit"
    and "fresh s0" "consistent (at stub (view s0))" "reachable stub commit s0 s"
    and "anchored (witnessed stub commit s0) (at stub (view s0)) (\<lambda>col. at stub (private_view s0 col))"
    and "Invoke stub j s = (Success bs, s')" "inv_Function j = ''GetPurchase''"
  shows "\<exists>msp role i b refs t d. caller j = Inr (msp, role) \<and> mayRead msp role trade \<and> inv_Parameters j = [i]
    \<and> batch_here (at stub (view s)) i b refs
    \<and> reachable stub commit s0 t \<and> verifyBundle (fabricLedger stub) t d = Inr ()
    \<and> h_DocumentID (document_header d) = e_PurchaseDocumentID refs
    \<and> h_DocumentType (document_header d) = ''PURCHASE_INVOICE''
    \<and> bs = encoded (marshal bundle_fields d)"
proof -
  have s: "fresh s" "world_ok (at stub (view s))"
    using shim_stub.later_consistent [OF assms(1-4)] by (simp_all add: consistent_def)
  have "trade \<noteq> freight" by (simp add: trade_def freight_def)
  then show ?thesis
    using shim_stub.purchase_answered [OF assms(1) s shim_stub.openings_later [OF assms(1-5)] assms(6,7)]
    unfolding witnessed_def opened_def kept_in_def by blast
qed

theorem purchase_true_witness:
  "\<exists>d. Invoke memory_stub purchase_lookup deal = (Success (encoded (marshal bundle_fields d)), deal)
    \<and> h_DocumentID (document_header d) = ''DOC-00000002''"
proof -
  obtain i b refs d where d: "inv_Parameters purchase_lookup = [i]" "batch_here (at memory_stub (memory_view deal)) i b refs"
    "h_DocumentID (document_header d) = e_PurchaseDocumentID refs"
    "encoded (marshal bundle_fields sale) = encoded (marshal bundle_fields d)"
    using purchase_true [OF memory.shim_stub_axioms deal_fresh deal_consistent reachable.start deal_anchored purchase_found
        purchase_named] by blast
  have "i = demo_id" using d(1) by (simp add: purchase_lookup_def first_context_def)
  then have "refs = demo_refs"
    using batch_here_unique [OF d(2)] deal_batch_here [unfolded freight_names] by simp
  then show ?thesis using d(3) purchase_found unfolding d(4) by (auto simp: demo_refs_def)
qed



section \<open>What crosses the boundary\<close>

text \<open>
  C33.  Round trip: a command that meets the documented limits, encoded as a client encodes it, is
  read back by the chaincode as the same command, field by field and payload included.
\<close>

theorem command_roundtrip:
  assumes "Command_ok c" "width (marshal Command_fields c) \<le> 65536"
    and "tokenValue 0 (json_sort (marshal Command_fields c))" "c_SchemaVersion c = ''agrochain.command.v1''"
    and "validID (c_OperationID c) ''OP''" "validID (c_BatchID c) ''BAT''"
    and "0 \<le> c_ExpectedVersion c" "c_ExpectedVersion c \<le> 2147483647" "validatePayload c = Inr ()"
  shows "parseCommand (c_Command c) (encoded (marshal Command_fields c)) = Inr c"
  by (rule parse_encoded [OF assms])

theorem command_roundtrip_witness:
  "parseCommand (c_Command demo_command) (encoded (marshal Command_fields demo_command)) = Inr demo_command"
  by (rule command_roundtrip) (use demo_command_reads in \<open>simp_all add: demo_command_def\<close>)

text \<open>
  C34.  Round trip of the evidence: a list of well-formed bundles in ascending order of their
  documents, encoded as a client encodes it and within the documented limits, is read back by the
  chaincode as the same list.
\<close>

theorem bundles_roundtrip:
  assumes "list_all bundle_fits ds" "sorted_wrt (<) (map (\<lambda>d. h_DocumentID (document_header d)) ds)"
    and "list_all (\<lambda>d. h_DocumentID (document_header d) \<noteq> []) ds"
    and "width (bundles_value ds) \<le> 65536" "tokenValue 0 (json_sort (bundles_value ds))"
  shows "decodeBundles (encoded (bundles_value ds)) = Inr ds"
  by (rule decodeBundles_encoded [OF assms])

theorem bundles_roundtrip_witness:
  "decodeBundles (encoded (bundles_value [first_bundle])) = Inr [first_bundle]"
  by (rule bundles_roundtrip)
    (use first_bundle_fits first_value_facts in \<open>simp_all add: bundles_value_def first_bundle_value
      first_bundle_document del: json_sort.simps tokenValue.simps width.simps\<close>)

text \<open>
  C37.  The canonical form is faithful: two documents that strict decoding accepts have the same
  canonical bytes exactly when they are the same value up to the order of the members of their
  objects, and reading the canonical bytes back gives that value.
\<close>

theorem canonical_faithful:
  assumes "strictJSON raw = Inr v" "strictJSON raw' = Inr v'"
  shows "(canonical (Some v) = canonical (Some v') \<longleftrightarrow> json_sort v = json_sort v')
    \<and> canonical (Some v) = Inr (encoded v) \<and> json_parse (encoded v) = Some (json_sort v)"
proof -
  have "encoded v = encoded v' \<longleftrightarrow> json_sort v = json_sort v'"
    using strictJSON_reread [OF assms(1)] strictJSON_reread [OF assms(2)] by (metis option.inject)
  then show ?thesis using strictJSON_reread [OF assms(1)] by (simp only: canonical_def option.case sum.inject)
qed

theorem canonical_faithful_witness:
  "canonical (Some (JObj [(''a'', JNum ''1'')])) \<noteq> canonical (Some (JObj [(''a'', JNum ''2'')]))"
proof -
  have "strictJSON ''{\"a\":1}'' = Inr (JObj [(''a'', JNum ''1'')])"
    "strictJSON ''{\"a\":2}'' = Inr (JObj [(''a'', JNum ''2'')])" by code_simp+
  from conjunct1 [OF canonical_faithful [OF this]] show ?thesis by simp
qed

text \<open>
  C32.  Every error a client sees comes from the table: an invocation that is not answered with
  success, and did not panic, returns an error whose code is in the table, with that code's own
  message, and nothing else of what went wrong.
\<close>

theorem errors_from_table: "lawful_response (fst (Invoke stub i s))"
  by (rule lawful_Invoke)

text \<open>
  C40.  A region code with a sign is accepted: \<open>CreateBatch\<close> reads the code with \<open>strconv.Atoi\<close>
  and checks its length and range, so \<open>+7\<close> passes where the contract asks for two digits.
\<close>

theorem signed_region_accepted:
  "ci_OriginRegionCode signed_region = ''+7'' \<and> c_Command signed_command = ''CreateBatch''
   \<and> decode createInput_fields (c_Payload signed_command) createInput_zero (map tag createInput_fields) = Inr signed_region
   \<and> validatePayload signed_command = Inr ()"
proof -
  have fields: "map tag createInput_fields = [''productCode'', ''gradeCode'', ''quantityGrams'',
      ''originRegionCode'', ''harvestDate'', ''logisticsMsp'', ''intendedRetailerMsp'']"
    by (simp add: createInput_fields_def)
  have ok: "createInput_ok signed_region" by code_simp
  have "exact createInput_fields (encoded (marshal createInput_fields signed_region)) createInput_zero
      = Inr signed_region"
    by (rule create_input.exact_encoded [OF ok]) (auto simp: createInput_fields_def, code_simp+)
  then have read: "decode createInput_fields (c_Payload signed_command) createInput_zero
      [''productCode'', ''gradeCode'', ''quantityGrams'', ''originRegionCode'', ''harvestDate'',
       ''logisticsMsp'', ''intendedRetailerMsp''] = Inr signed_region"
    by (simp add: exact_def fields signed_command_def)
  moreover have "validHarvestDate ''2026-06-01''" "Atoi ''+7'' = Some 7" by code_simp+
  ultimately have "validatePayload signed_command = Inr ()"
    by (simp add: validatePayload_def signed_command_def signed_region_def)
  then show ?thesis using read fields by (simp add: signed_region_def signed_command_def)
qed

end
